theory Spec2Isabelle
  imports Complex_Main "HOL-Library.Stream"
begin

section \<open>Static layout constants (App.tsx, lines 10-30)\<close>

text \<open>
  JavaScript numbers are modelled as \<open>real\<close> where the program computes with lengths and
  probabilities, as \<open>int\<close> where it counts ticks or names regions, and as \<open>nat\<close> for array
  indices. Rounding of IEEE doubles is not modelled.
\<close>

definition WIDTH :: real where "WIDTH = 800"
definition HEIGHT :: real where "HEIGHT = 740"
definition COMMUNITY_PADDING :: real where "COMMUNITY_PADDING = 40"

definition COMMUNITY_ROWS :: int where "COMMUNITY_ROWS = 3"
definition COMMUNITY_COLS :: int where "COMMUNITY_COLS = 3"
definition NORMAL_COMMUNITIES :: int where
  "NORMAL_COMMUNITIES = COMMUNITY_ROWS * COMMUNITY_COLS - 1"
definition QUARANTINE_COMMUNITY_IDX :: int where "QUARANTINE_COMMUNITY_IDX = 8"
definition TOTAL_COMMUNITIES :: int where "TOTAL_COMMUNITIES = 9"
definition PARTICLE_COUNT :: nat where "PARTICLE_COUNT = 500"
definition PARTICLES_PER_COMMUNITY :: int where
  "PARTICLES_PER_COMMUNITY = int PARTICLE_COUNT div NORMAL_COMMUNITIES"
definition TRAVEL_PROB :: real where "TRAVEL_PROB = 0.0002"
definition VISITING_DURATION :: int where "VISITING_DURATION = 150"
definition CENTRE_VISIT_PROB :: real where "CENTRE_VISIT_PROB = 0.001"
definition CENTRE_RADIUS :: real where "CENTRE_RADIUS = 15"

definition innerW :: real where
  "innerW = WIDTH - COMMUNITY_PADDING * (real_of_int COMMUNITY_COLS + 1)"
definition innerH :: real where
  "innerH = HEIGHT - COMMUNITY_PADDING * (real_of_int COMMUNITY_ROWS + 1)"
definition COMMUNITY_WIDTH :: real where
  "COMMUNITY_WIDTH = innerW / real_of_int COMMUNITY_COLS"
definition COMMUNITY_HEIGHT :: real where
  "COMMUNITY_HEIGHT = innerH / real_of_int COMMUNITY_ROWS"

section \<open>JavaScript arithmetic used by the program\<close>

text \<open>
  The remainder operator \<open>%\<close> of JavaScript truncates towards zero: the result has the sign
  of the dividend. \<open>Math.floor(a / b)\<close> on integers is \<open>div\<close> of HOL, which rounds down.
\<close>

definition js_rem :: "int \<Rightarrow> int \<Rightarrow> int" where
  "js_rem a b = sgn a * (\<bar>a\<bar> mod \<bar>b\<bar>)"

text \<open>A thrown \<open>Error(message)\<close> is a value.\<close>

datatype error = Error string

section \<open>Region layout: \<open>getCommunityBounds\<close> (lines 73-104)\<close>

record Bounds =
  minX :: real
  maxX :: real
  minY :: real
  maxY :: real
  centerX :: real
  centerY :: real

definition getCommunityBounds :: "int \<Rightarrow> error + Bounds" where
  "getCommunityBounds idx =
     (if idx = QUARANTINE_COMMUNITY_IDX then
        (let mnX = WIDTH - COMMUNITY_PADDING - COMMUNITY_WIDTH;
             mxX = WIDTH - COMMUNITY_PADDING;
             mnY = HEIGHT - COMMUNITY_PADDING - COMMUNITY_HEIGHT;
             mxY = HEIGHT - COMMUNITY_PADDING
         in Inr \<lparr>minX = mnX, maxX = mxX, minY = mnY, maxY = mxY,
                 centerX = (mnX + mxX) / 2, centerY = (mnY + mxY) / 2\<rparr>)
      else
        (let row = idx div COMMUNITY_COLS;
             col = js_rem idx COMMUNITY_COLS
         in if idx > 7 then Inl (Error ''Quarantine only at index 8'')
            else
              (let mnX = COMMUNITY_PADDING + real_of_int col * (COMMUNITY_WIDTH + COMMUNITY_PADDING);
                   mxX = mnX + COMMUNITY_WIDTH;
                   mnY = COMMUNITY_PADDING + real_of_int row * (COMMUNITY_HEIGHT + COMMUNITY_PADDING);
                   mxY = mnY + COMMUNITY_HEIGHT
               in Inr \<lparr>minX = mnX, maxX = mxX, minY = mnY, maxY = mxY,
                       centerX = (mnX + mxX) / 2, centerY = (mnY + mxY) / 2\<rparr>)))"

text \<open>
  The rectangle of the grid cell in row \<open>r\<close> and column \<open>c\<close> of the 3 x 3 layout, written
  out with the numbers the constants evaluate to; used to state what
  \<open>getCommunityBounds\<close> returns.
\<close>

definition gridCell :: "int \<Rightarrow> int \<Rightarrow> Bounds" where
  "gridCell r c =
     \<lparr>minX = 40 + real_of_int c * (640 / 3 + 40),
      maxX = 40 + real_of_int c * (640 / 3 + 40) + 640 / 3,
      minY = 40 + real_of_int r * (580 / 3 + 40),
      maxY = 40 + real_of_int r * (580 / 3 + 40) + 580 / 3,
      centerX = (40 + real_of_int c * (640 / 3 + 40) + (40 + real_of_int c * (640 / 3 + 40) + 640 / 3)) / 2,
      centerY = (40 + real_of_int r * (580 / 3 + 40) + (40 + real_of_int r * (580 / 3 + 40) + 580 / 3)) / 2\<rparr>"

section \<open>Numbers as text: the keys of the spatial index\<close>

text \<open>
  \<open>Math.floor(a / b)\<close> on numbers: a quotient by zero is not a finite number in JavaScript
  (\<open>Infinity\<close>, \<open>-Infinity\<close> or \<open>NaN\<close>), where HOL would return 0. The template literal
  of \<open>makeSpatialHash\<close> prints such a value by name and an integer in decimal (the
  exponent notation that JavaScript uses from 10^21 on is not modelled: positions and cell
  sizes of that magnitude are outside the exact range of its numbers anyway).
\<close>

datatype jsnum = Finite int | PosInfinity | NegInfinity | NaN

definition floorDiv :: "real \<Rightarrow> real \<Rightarrow> jsnum" where
  "floorDiv a b =
     (if b \<noteq> 0 then Finite \<lfloor>a / b\<rfloor>
      else if a > 0 then PosInfinity
      else if a < 0 then NegInfinity
      else NaN)"

fun digits :: "nat \<Rightarrow> string" where
  "digits n =
     (if n < 10 then [''0123456789'' ! n]
      else digits (n div 10) @ [''0123456789'' ! (n mod 10)])"

declare digits.simps [simp del]

definition showInt :: "int \<Rightarrow> string" where
  "showInt i = (if i < 0 then CHR ''-'' # digits (nat (- i)) else digits (nat i))"

fun showNum :: "jsnum \<Rightarrow> string" where
  "showNum (Finite i) = showInt i"
| "showNum PosInfinity = ''Infinity''"
| "showNum NegInfinity = ''-Infinity''"
| "showNum NaN = ''NaN''"

text \<open>The key \<open>`${currentCommunity}:${cx},${cy}`\<close>.\<close>

definition hashKey :: "int \<Rightarrow> jsnum \<Rightarrow> jsnum \<Rightarrow> string" where
  "hashKey c cx cy = showInt c @ '':'' @ showNum cx @ '','' @ showNum cy"

section \<open>The random source\<close>

text \<open>
  \<open>Math.random()\<close> returns a number in the half-open interval from 0 to 1. The program's
  draws are an infinite stream of such numbers, consumed from the front; every function
  that draws takes the stream and returns what is left of it.
\<close>

typedef draw = "{r::real. 0 \<le> r \<and> r < 1}"
  by (rule exI [of _ 0]) simp

setup_lifting type_definition_draw

lift_definition mkDraw :: "real \<Rightarrow> draw" is "\<lambda>r. if 0 \<le> r \<and> r < 1 then r else 0"
  by simp

type_synonym rng = "draw stream"

definition random :: "rng \<Rightarrow> real \<times> rng" where
  "random g = (Rep_draw (shd g), stl g)"

text \<open>\<open>rand(min, max)\<close> of line 32, and \<open>rand()\<close> with its defaults -1 and 1.\<close>

definition rand :: "real \<Rightarrow> real \<Rightarrow> rng \<Rightarrow> real \<times> rng" where
  "rand mn mx g = (case random g of (u, g') \<Rightarrow> (u * (mx - mn) + mn, g'))"

definition rand0 :: "rng \<Rightarrow> real \<times> rng" where
  "rand0 g = rand (- 1) 1 g"

definition CENTRE_DURATION :: "rng \<Rightarrow> int \<times> rng" where
  "CENTRE_DURATION g = (case random g of (u, g') \<Rightarrow> (\<lfloor>u * (65 - 20 + 1)\<rfloor> + 20, g'))"

text \<open>\<open>a || b\<close> on numbers: \<open>b\<close> when \<open>a\<close> is zero.\<close>

definition js_or :: "real \<Rightarrow> real \<Rightarrow> real" where
  "js_or a b = (if a \<noteq> 0 then a else b)"

section \<open>Data model (lines 45-71)\<close>

datatype Status = Healthy | Exposed | Infected | Recovered | Dead

record QuarantineEntryAnim =
  animating :: bool
  tx :: real
  ty :: real

text \<open>The flag of the second animation object is also called \<open>animating\<close> in the source.\<close>

record GoingHomeAnim =
  animatingH :: bool
  hx :: real
  hy :: real

text \<open>
  An optional field is an \<open>option\<close>. \<open>quarantined\<close> is only ever assigned \<open>true\<close> or
  \<open>false\<close> and is read for its truth value, so it is a \<open>bool\<close>.
\<close>

record Particle =
  x :: real
  y :: real
  vx :: real
  vy :: real
  status :: Status
  timeInfected :: int
  willDie :: "bool option"
  infectionCount :: "int option"
  homeCommunity :: int
  currentCommunity :: int
  isVisiting :: bool
  isTravelling :: bool
  travelTargetX :: "real option"
  travelTargetY :: "real option"
  travellingBack :: bool
  visitTimeLeft :: "int option"
  atCentre :: bool
  centreTimeLeft :: int
  quarantined :: bool
  timeSinceInfected :: "int option"
  quarantineEntryAnim :: "QuarantineEntryAnim option"
  releasedFromQuarantine :: bool
  quarantineEligible :: "bool option"
  goingHomeAnim :: "GoingHomeAnim option"

text \<open>
  The configuration is the React state read by \<open>animate\<close>. The sliders deliver whole
  numbers for the radius (5 to 40), the two durations and the speed; the radius is a
  \<open>nat\<close>, so that the cell size \<open>infectionRadius + 3\<close> is never zero.
\<close>

record Config =
  initialInfected :: nat
  incubationPeriod :: int
  infectionRadius :: nat
  infectionProbability :: real
  recoveryTime :: int
  deathRate :: real
  speed :: nat
  quarantineMode :: bool
  quarantineEffectiveness :: real

record InfectionEvent =
  infectorIndex :: nat
  time :: int

text \<open>
  The mutable state behind the refs of the component: \<open>particlesRef\<close>, \<open>timeRef\<close>,
  \<open>infectionEventsRef\<close>, \<open>infectedInfectionCountsRef\<close> (a \<open>Map\<close>), and the random
  source.
\<close>

record Sim =
  particles :: "Particle list"
  timeRef :: int
  infectionEvents :: "InfectionEvent list"
  infectedInfectionCounts :: "nat \<rightharpoonup> int"
  randomSource :: rng

section \<open>Spatial index: \<open>makeSpatialHash\<close> and \<open>getNearbyCellCoords\<close> (lines 106-130)\<close>

text \<open>
  The body of the loop of \<open>makeSpatialHash\<close> for index \<open>i\<close>; \<open>push\<close> appends to the
  bucket, which is created empty when the key is new.
\<close>

definition hashStep ::
  "Particle list \<Rightarrow> real \<Rightarrow> int option \<Rightarrow> nat \<Rightarrow> (string \<rightharpoonup> nat list) \<Rightarrow> (string \<rightharpoonup> nat list)" where
  "hashStep ps cellSize onlyCommunity i hash =
     (if (case onlyCommunity of None \<Rightarrow> False | Some c \<Rightarrow> currentCommunity (ps ! i) \<noteq> c)
      then hash
      else if status (ps ! i) = Dead then hash
      else
        (let cx = floorDiv (x (ps ! i)) cellSize;
             cy = floorDiv (y (ps ! i)) cellSize;
             key = hashKey (currentCommunity (ps ! i)) cx cy
         in hash(key \<mapsto> (case hash key of None \<Rightarrow> [] | Some l \<Rightarrow> l) @ [i])))"

definition makeSpatialHash ::
  "Particle list \<Rightarrow> real \<Rightarrow> int option \<Rightarrow> (string \<rightharpoonup> nat list)" where
  "makeSpatialHash ps cellSize onlyCommunity =
     fold (hashStep ps cellSize onlyCommunity) [0..<length ps] Map.empty"

text \<open>
  \<open>getNearbyCellCoords\<close> is called with a positive cell size only (see \<open>Config\<close>); its
  loop bounds are then integers and both loops terminate.
\<close>

definition getNearbyCellCoords :: "real \<Rightarrow> real \<Rightarrow> real \<Rightarrow> real \<Rightarrow> (int \<times> int) list" where
  "getNearbyCellCoords px py radius cellSize =
     (let mnX = \<lfloor>(px - radius) / cellSize\<rfloor>;
          mxX = \<lfloor>(px + radius) / cellSize\<rfloor>;
          mnY = \<lfloor>(py - radius) / cellSize\<rfloor>;
          mxY = \<lfloor>(py + radius) / cellSize\<rfloor>
      in concat (map (\<lambda>cx. map (\<lambda>cy. (cx, cy)) [mnY..mxY]) [mnX..mxX]))"

section \<open>Initial population: \<open>initialState\<close> (lines 132-163)\<close>

text \<open>
  The object literal of \<open>initialState\<close>, given its four random numbers, whether the index
  is below \<open>initialInfected\<close>, and the home community.
\<close>

definition newParticle :: "real \<Rightarrow> real \<Rightarrow> real \<Rightarrow> real \<Rightarrow> bool \<Rightarrow> int \<Rightarrow> Particle" where
  "newParticle px py pvx pvy sick home =
     \<lparr>x = px, y = py, vx = pvx, vy = pvy,
      status = (if sick then Infected else Healthy),
      timeInfected = 0,
      willDie = None,
      infectionCount = Some 0,
      homeCommunity = home,
      currentCommunity = home,
      isVisiting = False,
      isTravelling = False,
      travelTargetX = None,
      travelTargetY = None,
      travellingBack = False,
      visitTimeLeft = Some 0,
      atCentre = False,
      centreTimeLeft = 0,
      quarantined = False,
      timeSinceInfected = (if sick then Some 0 else None),
      quarantineEntryAnim = None,
      releasedFromQuarantine = False,
      quarantineEligible = None,
      goingHomeAnim = None\<rparr>"

definition initParticle :: "nat \<Rightarrow> nat \<Rightarrow> rng \<Rightarrow> error + Particle \<times> rng" where
  "initParticle initInf i g =
     (let community = int i div PARTICLES_PER_COMMUNITY;
          home = min community (NORMAL_COMMUNITIES - 1)
      in case getCommunityBounds home of
           Inl e \<Rightarrow> Inl e
         | Inr b \<Rightarrow>
            (case random g of (u1, g1) \<Rightarrow>
             case random g1 of (u2, g2) \<Rightarrow>
             case rand0 g2 of (r3, g3) \<Rightarrow>
             case rand0 g3 of (r4, g4) \<Rightarrow>
               Inr (newParticle (u1 * (maxX b - minX b) + minX b)
                                (u2 * (maxY b - minY b) + minY b)
                                (r3 * 0.3) (r4 * 0.3) (i < initInf) home, g4)))"

text \<open>
  A loop that builds or updates one element after the other, drawing from the random
  source and stopping at the first exception.
\<close>

fun forEach :: "('a \<Rightarrow> rng \<Rightarrow> error + 'b \<times> rng) \<Rightarrow> 'a list \<Rightarrow> rng \<Rightarrow> error + 'b list \<times> rng" where
  "forEach f [] g = Inr ([], g)"
| "forEach f (a # as) g =
     (case f a g of
        Inl e \<Rightarrow> Inl e
      | Inr (b, g') \<Rightarrow>
         (case forEach f as g' of
            Inl e \<Rightarrow> Inl e
          | Inr (bs, g'') \<Rightarrow> Inr (b # bs, g'')))"

definition initialState :: "nat \<Rightarrow> nat \<Rightarrow> rng \<Rightarrow> error + Particle list \<times> rng" where
  "initialState count initInf g = forEach (initParticle initInf) [0..<count] g"

text \<open>\<open>restartSimulation\<close> (lines 189-200); the component mounts in the same state.\<close>

definition restartSimulation :: "Config \<Rightarrow> rng \<Rightarrow> error + Sim" where
  "restartSimulation cfg g =
     (case initialState PARTICLE_COUNT (initialInfected cfg) g of
        Inl e \<Rightarrow> Inl e
      | Inr (ps, g') \<Rightarrow>
          Inr \<lparr>particles = ps, timeRef = 0, infectionEvents = [],
               infectedInfectionCounts = Map.empty, randomSource = g'\<rparr>)"

section \<open>Per-tick motion of one agent (lines 213-487)\<close>

subsection \<open>Quarantine logic (lines 217-283)\<close>

text \<open>Lines 218-223: the counter of a newly Infected agent starts at 0.\<close>

definition initTimeSinceInfected :: "Particle \<Rightarrow> Particle" where
  "initTimeSinceInfected p =
     (if status p = Infected \<and> timeSinceInfected p = None
      then p\<lparr>timeSinceInfected := Some 0\<rparr> else p)"

text \<open>Lines 226-232: detection is drawn once per infection.\<close>

definition drawEligibility :: "Config \<Rightarrow> Particle \<Rightarrow> rng \<Rightarrow> Particle \<times> rng" where
  "drawEligibility cfg p g =
     (if status p = Infected \<and> quarantineEligible p = None
      then (case random g of (u, g') \<Rightarrow>
              (p\<lparr>quarantineEligible := Some (u * 100 < quarantineEffectiveness cfg)\<rparr>, g'))
      else (p, g))"

text \<open>
  Lines 235-262: an eligible agent outside quarantine counts the ticks and, from the fifth
  on, starts the entry animation towards a random point of the quarantine region.
\<close>

definition startQuarantine :: "Particle \<Rightarrow> rng \<Rightarrow> error + Particle \<times> rng" where
  "startQuarantine p g =
     (if status p = Infected \<and> quarantineEligible p = Some True \<and> \<not> quarantined p
         \<and> currentCommunity p \<noteq> QUARANTINE_COMMUNITY_IDX
      then
        (let t = (case timeSinceInfected p of None \<Rightarrow> 0 | Some t0 \<Rightarrow> t0) + 1;
             p1 = p\<lparr>timeSinceInfected := Some t\<rparr>
         in if t \<ge> 5 \<and> \<not> quarantined p1 \<and> quarantineEntryAnim p1 = None
            then (case getCommunityBounds QUARANTINE_COMMUNITY_IDX of
                    Inl e \<Rightarrow> Inl e
                  | Inr target \<Rightarrow>
                     (case rand (minX target + 20) (maxX target - 20) g of (ax, g1) \<Rightarrow>
                      case rand (minY target + 20) (maxY target - 20) g1 of (ay, g2) \<Rightarrow>
                        Inr (p1\<lparr>quarantineEntryAnim := Some \<lparr>animating = True, tx = ax, ty = ay\<rparr>,
                                 vx := 0, vy := 0,
                                 isTravelling := False, isVisiting := False, atCentre := False,
                                 centreTimeLeft := 0, travellingBack := False\<rparr>, g2)))
            else Inr (p1, g))
      else Inr (p, g))"

text \<open>Lines 265-267.\<close>

definition countQuarantineTime :: "Particle \<Rightarrow> Particle" where
  "countQuarantineTime p =
     (if quarantined p \<and> status p = Infected
      then p\<lparr>timeSinceInfected := Some ((case timeSinceInfected p of None \<Rightarrow> 0 | Some t0 \<Rightarrow> t0) + 1)\<rparr>
      else p)"

text \<open>Lines 270-282: a quarantined agent that is Recovered or Dead starts the way home.\<close>

definition releaseFromQuarantine :: "Particle \<Rightarrow> rng \<Rightarrow> error + Particle \<times> rng" where
  "releaseFromQuarantine p g =
     (if quarantined p \<and> (status p = Recovered \<or> status p = Dead) \<and> goingHomeAnim p = None
      then (case getCommunityBounds (homeCommunity p) of
              Inl e \<Rightarrow> Inl e
            | Inr target \<Rightarrow>
               (case rand (- 30) 30 g of (r1, g1) \<Rightarrow>
                case rand (- 30) 30 g1 of (r2, g2) \<Rightarrow>
                  Inr (p\<lparr>goingHomeAnim :=
                           Some \<lparr>animatingH = True, hx = centerX target + r1, hy = centerY target + r2\<rparr>\<rparr>,
                       g2)))
      else Inr (p, g))"

definition quarantineLogic :: "Config \<Rightarrow> Particle \<Rightarrow> rng \<Rightarrow> error + Particle \<times> rng" where
  "quarantineLogic cfg p g =
     (if quarantineMode cfg then
        (case drawEligibility cfg (initTimeSinceInfected p) g of (p1, g1) \<Rightarrow>
         case startQuarantine p1 g1 of
           Inl e \<Rightarrow> Inl e
         | Inr (p2, g2) \<Rightarrow> releaseFromQuarantine (countQuarantineTime p2) g2)
      else Inr (p, g))"

subsection \<open>The two quarantine transits (lines 286-336)\<close>

text \<open>
  The tests \<open>p.quarantineEntryAnim?.animating\<close> and \<open>p.goingHomeAnim?.animating\<close>, and the
  bodies they guard (lines 287-304 and 310-334).
\<close>

definition entryAnimating :: "Particle \<Rightarrow> bool" where
  "entryAnimating p = (case quarantineEntryAnim p of None \<Rightarrow> False | Some a \<Rightarrow> animating a)"

definition homeAnimating :: "Particle \<Rightarrow> bool" where
  "homeAnimating p = (case goingHomeAnim p of None \<Rightarrow> False | Some a \<Rightarrow> animatingH a)"

definition animateEntry :: "QuarantineEntryAnim \<Rightarrow> Particle \<Rightarrow> Particle" where
  "animateEntry a p =
     (let dx = tx a - x p;
          dy = ty a - y p;
          dist = sqrt (dx * dx + dy * dy);
          step = min dist 10
      in if dist < 3
         then p\<lparr>x := tx a, y := ty a, quarantined := True,
                currentCommunity := QUARANTINE_COMMUNITY_IDX,
                quarantineEntryAnim := None, vx := 0, vy := 0\<rparr>
         else p\<lparr>x := x p + (dx / dist) * step, y := y p + (dy / dist) * step\<rparr>)"

definition animateHome :: "GoingHomeAnim \<Rightarrow> Particle \<Rightarrow> rng \<Rightarrow> Particle \<times> rng" where
  "animateHome a p g =
     (let dx = hx a - x p;
          dy = hy a - y p;
          dist = sqrt (dx * dx + dy * dy);
          step = min dist 10
      in if dist < 3
         then (case rand0 g of (r1, g1) \<Rightarrow>
               case rand0 g1 of (r2, g2) \<Rightarrow>
                 (p\<lparr>x := hx a, y := hy a,
                    currentCommunity := homeCommunity p,
                    quarantined := False,
                    quarantineEligible := None,
                    timeSinceInfected := None,
                    goingHomeAnim := None,
                    vx := r1 * 0.3, vy := r2 * 0.3,
                    atCentre := False, isVisiting := False,
                    isTravelling := False, travellingBack := False\<rparr>, g2))
         else (p\<lparr>x := x p + (dx / dist) * step, y := y p + (dy / dist) * step\<rparr>, g))"

subsection \<open>Normal community behaviour (lines 346-486)\<close>

text \<open>Lines 349-362: the bounce off the edges of the community.\<close>

definition bounce :: "Bounds \<Rightarrow> Particle \<Rightarrow> Particle" where
  "bounce b p =
     (let p1 = (if x p < minX b then p\<lparr>x := minX b + 1.2, vx := js_or \<bar>vx p\<bar> 0.15\<rparr>
                else if x p > maxX b then p\<lparr>x := maxX b - 1.2, vx := js_or (- \<bar>vx p\<bar>) (- 0.15)\<rparr>
                else p)
      in if y p1 < minY b then p1\<lparr>y := minY b + 1.2, vy := js_or \<bar>vy p1\<bar> 0.15\<rparr>
         else if y p1 > maxY b then p1\<lparr>y := maxY b - 1.2, vy := js_or (- \<bar>vy p1\<bar>) (- 0.15)\<rparr>
         else p1)"

text \<open>
  Lines 365-380. The condition of the centre visit draws only when the agent is not at
  the centre already (\<open>&&\<close> evaluates from the left and stops at the first false operand).
\<close>

definition centreEntry :: "Bounds \<Rightarrow> Particle \<Rightarrow> rng \<Rightarrow> Particle \<times> rng" where
  "centreEntry b p g =
     (if atCentre p then (p, g)
      else (case random g of (u, g0) \<Rightarrow>
        if u < CENTRE_VISIT_PROB \<and> \<not> isTravelling p \<and> \<not> isVisiting p
           \<and> currentCommunity p \<noteq> QUARANTINE_COMMUNITY_IDX
        then (case CENTRE_DURATION g0 of (d, g1) \<Rightarrow>
              case random g1 of (u2, g2) \<Rightarrow>
              case rand 0 (2 * pi) g2 of (angle, g3) \<Rightarrow>
              case rand 0 (CENTRE_RADIUS - 5) g3 of (r, g4) \<Rightarrow>
                (p\<lparr>atCentre := True,
                   centreTimeLeft := d + \<lfloor>u2 * 40\<rfloor>,
                   x := centerX b + r * cos angle,
                   y := centerY b + r * sin angle,
                   vx := 0, vy := 0\<rparr>, g4))
        else (p, g0)))"

text \<open>Lines 381-393: the body of \<open>if (p.atCentre)\<close>.\<close>

definition centreStay :: "Bounds \<Rightarrow> Particle \<Rightarrow> rng \<Rightarrow> Particle \<times> rng" where
  "centreStay b p g =
     (case rand 0 (2 * pi) g of (angle, g1) \<Rightarrow>
        (let p1 = p\<lparr>centreTimeLeft := centreTimeLeft p - 1,
                    x := x p + cos angle * 0.9,
                    y := y p + sin angle * 0.9\<rparr>
         in if centreTimeLeft p1 \<le> 0
            then (case rand0 g1 of (r1, g2) \<Rightarrow>
                  case rand0 g2 of (r2, g3) \<Rightarrow>
                    (p1\<lparr>atCentre := False,
                        x := min (max (minX b + 5) (x p1)) (maxX b - 5),
                        y := min (max (minY b + 5) (y p1)) (maxY b - 5),
                        vx := r1 * 0.3, vy := r2 * 0.3\<rparr>, g3))
            else (p1, g1)))"

text \<open>
  Lines 397-429, the body of \<open>if (p.isTravelling)\<close>: \<open>travelTarget\<close> chooses the target
  when it is missing (lines 398-404), \<open>travelMove\<close> is the step towards it. After
  \<open>travelTarget\<close> both coordinates are present; the last case of \<open>travelStep\<close> is never
  taken.
\<close>

definition travelTarget :: "Particle \<Rightarrow> rng \<Rightarrow> error + Particle \<times> rng" where
  "travelTarget p g =
     (if travelTargetX p = None \<or> travelTargetY p = None
      then (case (if travellingBack p then getCommunityBounds (homeCommunity p)
                  else getCommunityBounds (currentCommunity p)) of
              Inl e \<Rightarrow> Inl e
            | Inr dest \<Rightarrow>
               (case rand (- 30) 30 g of (r1, g1) \<Rightarrow>
                case rand (- 30) 30 g1 of (r2, g2) \<Rightarrow>
                  Inr (p\<lparr>travelTargetX := Some (centerX dest + r1),
                          travelTargetY := Some (centerY dest + r2)\<rparr>, g2)))
      else Inr (p, g))"

definition travelMove :: "real \<Rightarrow> real \<Rightarrow> Particle \<Rightarrow> rng \<Rightarrow> Particle \<times> rng" where
  "travelMove targetX targetY p g =
     (let dx = targetX - x p;
          dy = targetY - y p;
          dist = sqrt (dx ^ 2 + dy ^ 2);
          step = min 8 dist
      in if dist < 3
         then (case rand0 g of (r1, g1) \<Rightarrow>
               case rand0 g1 of (r2, g2) \<Rightarrow>
                 (let p1 = p\<lparr>x := targetX, y := targetY, isTravelling := False,
                             vx := r1 * 0.4, vy := r2 * 0.4,
                             travelTargetX := None, travelTargetY := None\<rparr>
                  in if travellingBack p1
                     then (p1\<lparr>travellingBack := False, isVisiting := False,
                              currentCommunity := homeCommunity p1\<rparr>, g2)
                     else (case random g2 of (u, g3) \<Rightarrow>
                            (p1\<lparr>isVisiting := True,
                                visitTimeLeft := Some (VISITING_DURATION + \<lfloor>u * 40\<rfloor>)\<rparr>, g3))))
         else (p\<lparr>x := x p + (dx / dist) * step, y := y p + (dy / dist) * step\<rparr>, g))"

definition travelStep :: "Particle \<Rightarrow> rng \<Rightarrow> error + Particle \<times> rng" where
  "travelStep p g =
     (case travelTarget p g of
        Inl e \<Rightarrow> Inl e
      | Inr (p1, g1) \<Rightarrow>
         (case (travelTargetX p1, travelTargetY p1) of
            (Some targetX, Some targetY) \<Rightarrow> Inr (travelMove targetX targetY p1 g1)
          | _ \<Rightarrow> Inr (p1, g1)))"

text \<open>Lines 433-452: Brownian motion and the second correction at the edges.\<close>

definition brownian :: "Bounds \<Rightarrow> Particle \<Rightarrow> rng \<Rightarrow> Particle \<times> rng" where
  "brownian b p g =
     (case rand (- 0.02) 0.02 g of (r1, g1) \<Rightarrow>
      case rand (- 0.02) 0.02 g1 of (r2, g2) \<Rightarrow>
        (let p1 = p\<lparr>vx := vx p + r1, vy := vy p + r2\<rparr>;
             p2 = p1\<lparr>x := x p1 + vx p1, y := y p1 + vy p1\<rparr>;
             p3 = (if x p2 < minX b + 1 then p2\<lparr>x := minX b + 1.1, vx := js_or \<bar>vx p2\<bar> 0.08\<rparr>
                   else if x p2 > maxX b - 1 then p2\<lparr>x := maxX b - 1.1, vx := js_or (- \<bar>vx p2\<bar>) (- 0.08)\<rparr>
                   else p2);
             p4 = (if y p3 < minY b + 1 then p3\<lparr>y := minY b + 1.1, vy := js_or \<bar>vy p3\<bar> 0.08\<rparr>
                   else if y p3 > maxY b - 1 then p3\<lparr>y := maxY b - 1.1, vy := js_or (- \<bar>vy p3\<bar>) (- 0.08)\<rparr>
                   else p3)
         in (p4, g2)))"

text \<open>
  Lines 455-474. The communities an agent may travel to are the normal communities but
  its home. The draw is below 1, so the index is below the length of the list.
\<close>

definition available :: "Particle \<Rightarrow> int list" where
  "available p = filter (\<lambda>ci. ci \<noteq> homeCommunity p) [0..NORMAL_COMMUNITIES - 1]"

definition randomTravel :: "Particle \<Rightarrow> rng \<Rightarrow> Particle \<times> rng" where
  "randomTravel p g =
     (if \<not> isVisiting p \<and> \<not> isTravelling p
      then (case random g of (u, g1) \<Rightarrow>
        if u < TRAVEL_PROB \<and> currentCommunity p \<noteq> QUARANTINE_COMMUNITY_IDX
        then (if length (available p) > 0
              then (case random g1 of (u2, g2) \<Rightarrow>
                     (p\<lparr>currentCommunity := available p ! nat \<lfloor>u2 * real (length (available p))\<rfloor>,
                        isTravelling := True, travellingBack := False,
                        visitTimeLeft := Some 0,
                        travelTargetX := None, travelTargetY := None\<rparr>, g2))
              else (p, g1))
        else (p, g1))
      else (p, g))"

text \<open>
  Lines 476-486. \<open>visitTimeLeft\<close> is decremented only when it is a number; a missing
  value compares false with 0.
\<close>

definition visitExpiry :: "Particle \<Rightarrow> Particle" where
  "visitExpiry p =
     (if isVisiting p \<and> \<not> isTravelling p
      then (case visitTimeLeft p of
              None \<Rightarrow> p
            | Some v \<Rightarrow>
               (let p1 = p\<lparr>visitTimeLeft := Some (v - 1)\<rparr>
                in if v - 1 \<le> 0
                   then p1\<lparr>isTravelling := True, travellingBack := True,
                           travelTargetX := None, travelTargetY := None,
                           isVisiting := False,
                           currentCommunity := homeCommunity p1\<rparr>
                   else p1))
      else p)"

text \<open>Lines 346-486 in their order, with the two \<open>continue\<close> statements.\<close>

definition normalBehaviour :: "Particle \<Rightarrow> rng \<Rightarrow> error + Particle \<times> rng" where
  "normalBehaviour p g =
     (case getCommunityBounds (currentCommunity p) of
        Inl e \<Rightarrow> Inl e
      | Inr bounds \<Rightarrow>
         (case centreEntry bounds (bounce bounds p) g of (p1, g1) \<Rightarrow>
            if atCentre p1 then Inr (centreStay bounds p1 g1)
            else if isTravelling p1 then travelStep p1 g1
            else (case brownian bounds p1 g1 of (p2, g2) \<Rightarrow>
                  case randomTravel p2 g2 of (p3, g3) \<Rightarrow>
                    Inr (visitExpiry p3, g3))))"

text \<open>The body of the first loop of a tick for one agent.\<close>

definition moveParticle :: "Config \<Rightarrow> Particle \<Rightarrow> rng \<Rightarrow> error + Particle \<times> rng" where
  "moveParticle cfg p g =
     (case quarantineLogic cfg p g of
        Inl e \<Rightarrow> Inl e
      | Inr (p1, g1) \<Rightarrow>
         (case (if entryAnimating p1 then quarantineEntryAnim p1 else None) of
            Some a \<Rightarrow> Inr (animateEntry a p1, g1)
          | None \<Rightarrow>
             (case (if homeAnimating p1 then goingHomeAnim p1 else None) of
                Some a \<Rightarrow> Inr (animateHome a p1 g1)
              | None \<Rightarrow>
                 if quarantined p1 then Inr (p1, g1)
                 else normalBehaviour p1 g1)))"

section \<open>Infection logic (lines 489-544)\<close>

text \<open>
  The body of the innermost loop: agent \<open>i\<close> is the source \<open>p\<close>, agent \<open>j\<close> the
  candidate \<open>other\<close>. \<open>Map.get(i) ?? 0\<close> reads a missing count as 0.
\<close>

definition infectionCountOf :: "(nat \<rightharpoonup> int) \<Rightarrow> nat \<Rightarrow> int" where
  "infectionCountOf counts i = (case counts i of None \<Rightarrow> 0 | Some c \<Rightarrow> c)"

definition contact :: "Config \<Rightarrow> nat \<Rightarrow> nat \<Rightarrow> Sim \<Rightarrow> Sim" where
  "contact cfg i j st =
     (let ps = particles st; p = ps ! i; other = ps ! j
      in if i = j then st
         else if status other \<noteq> Healthy then st
         else if (atCentre p \<and> atCentre other \<and> currentCommunity p = currentCommunity other)
                 \<or> (\<not> atCentre p \<and> \<not> atCentre other)
         then (let dx = x p - x other; dy = y p - y other
               in if dx * dx + dy * dy < real (infectionRadius cfg) * real (infectionRadius cfg)
                  then (case random (randomSource st) of (u, g) \<Rightarrow>
                          if u < infectionProbability cfg / 10
                          then st\<lparr>particles := ps[j := other\<lparr>status := Exposed, timeInfected := 0\<rparr>],
                                  infectionEvents :=
                                    infectionEvents st @ [\<lparr>infectorIndex = i, time = timeRef st\<rparr>],
                                  infectedInfectionCounts :=
                                    (infectedInfectionCounts st)
                                      (i \<mapsto> infectionCountOf (infectedInfectionCounts st) i + 1),
                                  randomSource := g\<rparr>
                          else st\<lparr>randomSource := g\<rparr>)
                  else st)
         else st)"

text \<open>Lines 515-542 for one nearby cell: the bucket of its key, if there is one.\<close>

definition cellContacts ::
  "Config \<Rightarrow> int \<Rightarrow> (string \<rightharpoonup> nat list) \<Rightarrow> nat \<Rightarrow> int \<times> int \<Rightarrow> Sim \<Rightarrow> Sim" where
  "cellContacts cfg community hash i cell st =
     (case cell of (nx, ny) \<Rightarrow>
        (case hash (hashKey community (Finite nx) (Finite ny)) of
           None \<Rightarrow> st
         | Some idxs \<Rightarrow> fold (contact cfg i) idxs st))"

text \<open>
  The first draw of an infection episode: \<open>willDie\<close> is decided and the counts of the
  episode start at 0.
\<close>

definition drawWillDie :: "Config \<Rightarrow> nat \<Rightarrow> Sim \<Rightarrow> Sim" where
  "drawWillDie cfg i st =
     (let ps = particles st; p = ps ! i
      in if willDie p = None
         then (case random (randomSource st) of (u, g) \<Rightarrow>
                 st\<lparr>particles := ps[i := p\<lparr>willDie := Some (u < deathRate cfg), infectionCount := Some 0\<rparr>],
                    infectedInfectionCounts := (infectedInfectionCounts st)(i \<mapsto> 0),
                    randomSource := g\<rparr>)
         else st)"

text \<open>
  The body of the loop over the agents, for one community and its index, in two parts:
  \<open>progressOrSpread\<close> is what follows the draw of \<open>willDie\<close> (death, recovery, or the
  contacts with the agents of the nearby cells), \<open>infectParticle\<close> the whole body.
\<close>

definition progressOrSpread ::
  "Config \<Rightarrow> int \<Rightarrow> (string \<rightharpoonup> nat list) \<Rightarrow> nat \<Rightarrow> Sim \<Rightarrow> Sim" where
  "progressOrSpread cfg community hash i st =
     (let ps = particles st; p = ps ! i
      in if willDie p = Some True
            \<and> real_of_int (timeInfected p) > real_of_int (recoveryTime cfg) / 2
         then st\<lparr>particles := ps[i := p\<lparr>status := Dead\<rparr>],
                 infectedInfectionCounts := (infectedInfectionCounts st)(i := None)\<rparr>
         else if willDie p \<noteq> Some True \<and> timeInfected p > recoveryTime cfg
         then st\<lparr>particles := ps[i := p\<lparr>status := Recovered\<rparr>],
                 infectedInfectionCounts := (infectedInfectionCounts st)(i := None)\<rparr>
         else fold (cellContacts cfg community hash i)
                (getNearbyCellCoords (x p) (y p) (real (infectionRadius cfg))
                   (real (infectionRadius cfg) + 3))
                st)"

definition infectParticle ::
  "Config \<Rightarrow> int \<Rightarrow> (string \<rightharpoonup> nat list) \<Rightarrow> nat \<Rightarrow> Sim \<Rightarrow> Sim" where
  "infectParticle cfg community hash i st =
     (let p0 = particles st ! i
      in if currentCommunity p0 \<noteq> community \<or> quarantined p0 \<or> status p0 \<noteq> Infected then st
         else progressOrSpread cfg community hash i
                (drawWillDie cfg i
                   (st\<lparr>particles := (particles st)[i := p0\<lparr>timeInfected := timeInfected p0 + 1\<rparr>]\<rparr>)))"

text \<open>
  Lines 491-544: for each normal community the spatial index is built once, before the
  loop over the agents.
\<close>

definition communityPass :: "Config \<Rightarrow> int \<Rightarrow> Sim \<Rightarrow> Sim" where
  "communityPass cfg community st =
     (let hash = makeSpatialHash (particles st) (real (infectionRadius cfg) + 3) (Some community)
      in fold (infectParticle cfg community hash) [0..<length (particles st)] st)"

definition infectionLogic :: "Config \<Rightarrow> Sim \<Rightarrow> Sim" where
  "infectionLogic cfg st = fold (communityPass cfg) [0..NORMAL_COMMUNITIES - 1] st"

section \<open>Exposed agents (lines 546-562)\<close>

text \<open>The body of the loop for one agent.\<close>

definition exposedStep :: "Config \<Rightarrow> Particle \<Rightarrow> Particle" where
  "exposedStep cfg p =
     (if status p = Exposed
      then (let p1 = p\<lparr>timeInfected := timeInfected p + 1\<rparr>
            in if timeInfected p1 > incubationPeriod cfg
               then (let p2 = p1\<lparr>status := Infected, timeInfected := 0, willDie := None\<rparr>
                     in if quarantineMode cfg
                        then p2\<lparr>timeSinceInfected := Some 0, quarantineEligible := None\<rparr>
                        else p2)
               else p1)
      else p)"

section \<open>One tick, and the frame of \<open>animate\<close> (lines 208-653)\<close>

text \<open>
  One tick (lines 210-562): the clock, the motion loop, the infection logic, the exposed
  agents. An exception of the motion loop ends the tick.
\<close>

definition tick :: "Config \<Rightarrow> Sim \<Rightarrow> error + Sim" where
  "tick cfg st =
     (let st0 = st\<lparr>timeRef := timeRef st + 1\<rparr>
      in case forEach (moveParticle cfg) (particles st0) (randomSource st0) of
           Inl e \<Rightarrow> Inl e
         | Inr (ps, g) \<Rightarrow>
            (let st1 = infectionLogic cfg (st0\<lparr>particles := ps, randomSource := g\<rparr>)
             in Inr (st1\<lparr>particles := map (exposedStep cfg) (particles st1)\<rparr>)))"

text \<open>The loop \<open>for (let s = 0; s < speed; ++s)\<close>.\<close>

fun ticks :: "Config \<Rightarrow> nat \<Rightarrow> Sim \<Rightarrow> error + Sim" where
  "ticks cfg 0 st = Inr st"
| "ticks cfg (Suc n) st = (case tick cfg st of Inl e \<Rightarrow> Inl e | Inr st' \<Rightarrow> ticks cfg n st')"

text \<open>
  The statistics of a frame (lines 615-647). The field \<open>quarantined\<close> of the counts is
  \<open>quarantinedCount\<close> here, the name being taken by the agent's flag.
\<close>

record Counts =
  healthy :: nat
  exposed :: nat
  infected :: nat
  recovered :: nat
  dead :: nat
  quarantinedCount :: nat

definition countParticle :: "Particle \<Rightarrow> Counts \<Rightarrow> Counts" where
  "countParticle p c =
     (if quarantined p then c\<lparr>quarantinedCount := quarantinedCount c + 1\<rparr>
      else (case status p of
              Healthy \<Rightarrow> c\<lparr>healthy := healthy c + 1\<rparr>
            | Exposed \<Rightarrow> c\<lparr>exposed := exposed c + 1\<rparr>
            | Infected \<Rightarrow> c\<lparr>infected := infected c + 1\<rparr>
            | Recovered \<Rightarrow> c\<lparr>recovered := recovered c + 1\<rparr>
            | Dead \<Rightarrow> c\<lparr>dead := dead c + 1\<rparr>))"

definition countAll :: "Particle list \<Rightarrow> Counts" where
  "countAll ps =
     fold countParticle ps
       \<lparr>healthy = 0, exposed = 0, infected = 0, recovered = 0, dead = 0, quarantinedCount = 0\<rparr>"

text \<open>
  The reproduction estimate. A \<open>Set\<close> keeps each infector once, in the order of first
  insertion; \<open>get(infector) || 0\<close> reads a missing count as 0.
\<close>

definition setAdd :: "nat \<Rightarrow> nat list \<Rightarrow> nat list" where
  "setAdd a s = (if a \<in> set s then s else s @ [a])"

definition activeInfectors :: "Sim \<Rightarrow> nat list" where
  "activeInfectors st =
     (let windowSize = 50;
          cutoff = timeRef st - windowSize;
          recentEvents = filter (\<lambda>e. time e > cutoff) (infectionEvents st)
      in fold setAdd (map infectorIndex recentEvents) [])"

definition newRt :: "Sim \<Rightarrow> real" where
  "newRt st =
     (let infectors = activeInfectors st;
          totalInfections =
            fold (\<lambda>infector total. total + infectionCountOf (infectedInfectionCounts st) infector)
              infectors 0
      in if length infectors > 0
         then real_of_int totalInfections / real (length infectors)
         else 0)"

record Frame =
  counts :: Counts
  frameTime :: int
  rt :: real

definition animate :: "Config \<Rightarrow> Sim \<Rightarrow> error + Sim \<times> Frame" where
  "animate cfg st =
     (case ticks cfg (speed cfg) st of
        Inl e \<Rightarrow> Inl e
      | Inr st' \<Rightarrow>
          Inr (st', \<lparr>counts = countAll (particles st'), frameTime = timeRef st', rt = newRt st'\<rparr>))"

section \<open>Reachable states\<close>

text \<open>
  A run starts from a restart (or the mount, which builds the same state) and proceeds
  by ticks; the configuration may change between ticks.
\<close>

inductive reachable :: "Sim \<Rightarrow> bool" where
  start: "restartSimulation cfg g = Inr st \<Longrightarrow> reachable st"
| step: "reachable st \<Longrightarrow> tick cfg st = Inr st' \<Longrightarrow> reachable st'"

text \<open>\<open>later st st'\<close>: the state \<open>st'\<close> follows \<open>st\<close> after some ticks.\<close>

inductive later :: "Sim \<Rightarrow> Sim \<Rightarrow> bool" where
  now: "later st st"
| after: "later st st' \<Longrightarrow> tick cfg st' = Inr st'' \<Longrightarrow> later st st''"

section \<open>Vocabulary of the statements\<close>

text \<open>
  \<open>indexed\<close>: the agent passes the two \<open>continue\<close> tests of \<open>makeSpatialHash\<close>;
  \<open>cellKey\<close>: the key the loop computes for it.
\<close>

definition indexed :: "Particle list \<Rightarrow> int option \<Rightarrow> nat \<Rightarrow> bool" where
  "indexed ps onlyCommunity i =
     (status (ps ! i) \<noteq> Dead
      \<and> (case onlyCommunity of None \<Rightarrow> True | Some c \<Rightarrow> currentCommunity (ps ! i) = c))"

definition cellKey :: "Particle list \<Rightarrow> real \<Rightarrow> nat \<Rightarrow> string" where
  "cellKey ps cellSize i =
     hashKey (currentCommunity (ps ! i)) (floorDiv (x (ps ! i)) cellSize) (floorDiv (y (ps ! i)) cellSize)"

text \<open>
  \<open>wellPlaced\<close>: the home is a normal community; an agent with the flag \<open>quarantined\<close>
  is in community 8 and has no entry animation, any other agent is in a normal community
  and has no going-home animation.
\<close>

definition wellPlaced :: "Particle \<Rightarrow> bool" where
  "wellPlaced p =
     (0 \<le> homeCommunity p \<and> homeCommunity p \<le> 7
      \<and> (if quarantined p
         then currentCommunity p = QUARANTINE_COMMUNITY_IDX \<and> quarantineEntryAnim p = None
         else 0 \<le> currentCommunity p \<and> currentCommunity p \<le> 7 \<and> goingHomeAnim p = None))"

text \<open>
  \<open>sameHealth\<close>: the fields of the health progression and the home are the same;
  \<open>moved\<close>: what every step of the motion loop guarantees.
\<close>

definition sameHealth :: "Particle \<Rightarrow> Particle \<Rightarrow> bool" where
  "sameHealth p p' =
     (status p' = status p \<and> timeInfected p' = timeInfected p \<and> willDie p' = willDie p
      \<and> infectionCount p' = infectionCount p \<and> homeCommunity p' = homeCommunity p)"

definition moved :: "Particle \<Rightarrow> Particle \<Rightarrow> bool" where
  "moved p p' = (sameHealth p p' \<and> (wellPlaced p \<longrightarrow> wellPlaced p'))"

text \<open>
  \<open>besidesEpisode\<close> blanks the four fields that the infection logic writes;
  \<open>progressed\<close>: what the infection logic may do to an agent: nothing, or advance the
  episode of an Infected agent that is not quarantined, or expose a Healthy agent.
\<close>

definition besidesEpisode :: "Particle \<Rightarrow> Particle" where
  "besidesEpisode p = p\<lparr>status := Healthy, timeInfected := 0, willDie := None, infectionCount := None\<rparr>"

definition progressed :: "Particle \<Rightarrow> Particle \<Rightarrow> bool" where
  "progressed p p' =
     (p' = p
      \<or> (status p = Infected \<and> \<not> quarantined p
          \<and> (status p' = Infected \<or> status p' = Recovered \<or> status p' = Dead)
          \<and> besidesEpisode p' = besidesEpisode p)
      \<or> (status p = Healthy \<and> p' = p\<lparr>status := Exposed, timeInfected := 0\<rparr>))"

definition progressedAll :: "Sim \<Rightarrow> Sim \<Rightarrow> bool" where
  "progressedAll st st' = list_all2 progressed (particles st) (particles st')"

text \<open>
  \<open>ticked cfg p p'\<close>: \<open>p'\<close> is what one tick may make of the agent \<open>p\<close>: the motion
  loop, then the infection logic, then the loop over the exposed agents.
\<close>

definition ticked :: "Config \<Rightarrow> Particle \<Rightarrow> Particle \<Rightarrow> bool" where
  "ticked cfg p p' =
     (\<exists>g0 g1 p1 p2. moveParticle cfg p g0 = Inr (p1, g1) \<and> progressed p1 p2 \<and> p' = exposedStep cfg p2)"

text \<open>The order of the health statuses: an agent only ever moves forward in it.\<close>

definition advances :: "Status \<Rightarrow> Status \<Rightarrow> bool" where
  "advances s s' =
     (s' = s \<or> s = Healthy
      \<or> (s = Exposed \<and> (s' = Infected \<or> s' = Recovered \<or> s' = Dead))
      \<or> (s = Infected \<and> (s' = Recovered \<or> s' = Dead)))"

text \<open>The sum of the five per-status counts of a frame.\<close>

definition statusSum :: "Counts \<Rightarrow> nat" where
  "statusSum c = healthy c + exposed c + infected c + recovered c + dead c"

text \<open>
  The estimate in the words of the specification: the sources with at least one event in
  the trailing window of 50 ticks, and the mean of their recorded counts.
\<close>

definition recentSources :: "Sim \<Rightarrow> nat set" where
  "recentSources st = infectorIndex ` {e \<in> set (infectionEvents st). timeRef st - 50 < time e}"

definition specRt :: "Sim \<Rightarrow> real" where
  "specRt st =
     (if recentSources st = {} then 0
      else real_of_int (\<Sum>s \<in> recentSources st. infectionCountOf (infectedInfectionCounts st) s)
           / real (card (recentSources st)))"

text \<open>
  \<open>inRange\<close>: the squared distance of the agents \<open>i\<close> and \<open>j\<close> is below the squared
  infection radius; \<open>contactDraw\<close>: the number the next call of \<open>Math.random\<close> returns.
\<close>

definition inRange :: "Config \<Rightarrow> Sim \<Rightarrow> nat \<Rightarrow> nat \<Rightarrow> bool" where
  "inRange cfg st i j =
     ((x (particles st ! i) - x (particles st ! j)) * (x (particles st ! i) - x (particles st ! j))
      + (y (particles st ! i) - y (particles st ! j)) * (y (particles st ! i) - y (particles st ! j))
      < real (infectionRadius cfg) * real (infectionRadius cfg))"

definition contactDraw :: "Sim \<Rightarrow> real" where
  "contactDraw st = fst (random (randomSource st))"


text \<open>
  \<open>confinedInfected\<close>: an Infected agent with the flag \<open>quarantined\<close> and no transit
  animation.
\<close>

definition confinedInfected :: "Particle \<Rightarrow> bool" where
  "confinedInfected p =
     (status p = Infected \<and> quarantined p \<and> quarantineEntryAnim p = None \<and> goingHomeAnim p = None)"

text \<open>\<open>eraseAll\<close> removes the pending entry animation of every agent.\<close>

definition eraseEntry :: "Particle \<Rightarrow> Particle" where
  "eraseEntry p = p\<lparr>quarantineEntryAnim := None\<rparr>"

definition eraseAll :: "Sim \<Rightarrow> Sim" where
  "eraseAll st = st\<lparr>particles := map eraseEntry (particles st)\<rparr>"

text \<open>\<open>hashWithin hash n\<close>: every index stored in the spatial index is below \<open>n\<close>.\<close>

definition hashWithin :: "(string \<rightharpoonup> nat list) \<Rightarrow> nat \<Rightarrow> bool" where
  "hashWithin hash n = (\<forall>k l. hash k = Some l \<longrightarrow> (\<forall>j \<in> set l. j < n))"

text \<open>
  \<open>episodeStep cfg p p'\<close>: \<open>p'\<close> is \<open>p\<close> after one step of its infection episode: the
  clock advanced by one, \<open>willDie\<close> decided if it was not, and the status Dead or Recovered
  when the clock has passed the half or the whole of the recovery time.
\<close>

definition episodeStep :: "Config \<Rightarrow> Particle \<Rightarrow> Particle \<Rightarrow> bool" where
  "episodeStep cfg p p' =
     (timeInfected p' = timeInfected p + 1
      \<and> willDie p' \<noteq> None \<and> (willDie p \<noteq> None \<longrightarrow> willDie p' = willDie p)
      \<and> status p' =
          (if willDie p' = Some True
              \<and> real_of_int (timeInfected p + 1) > real_of_int (recoveryTime cfg) / 2 then Dead
           else if willDie p' \<noteq> Some True \<and> timeInfected p + 1 > recoveryTime cfg then Recovered
           else Infected)
      \<and> besidesEpisode p' = besidesEpisode p)"

section \<open>Example configurations, agents and states\<close>

text \<open>
  Five agents: a healthy one of community 0 at (10, 10), a healthy one of community 1 and
  a dead one of community 0 at the same coordinates, and two more healthy ones of
  community 0, at (100, 200) and at (12, 15). With cells of size 23 the first and the
  last are in cell (0, 0) of community 0, the fourth in cell (4, 8).
\<close>

definition sampleAgents :: "Particle list" where
  "sampleAgents =
     [newParticle 10 10 0 0 False 0,
      newParticle 10 10 0 0 False 1,
      (newParticle 10 10 0 0 False 0)\<lparr>status := Dead\<rparr>,
      newParticle 100 200 0 0 False 0,
      newParticle 12 15 0 0 False 0]"

text \<open>
  A configuration with quarantine mode on, and an agent of community 0 that has been
  Infected and eligible for four ticks: its next tick starts the transit to quarantine.
\<close>

definition cfgQ :: Config where
  "cfgQ = \<lparr>initialInfected = 1, incubationPeriod = 50, infectionRadius = 20,
           infectionProbability = 0.2, recoveryTime = 300, deathRate = 0,
           speed = 1, quarantineMode = True, quarantineEffectiveness = 70\<rparr>"

definition halves :: rng where
  "halves = sconst (mkDraw (1 / 2))"

definition detected :: Particle where
  "detected = (newParticle (460 / 3) (685 / 3) 0 0 True 0)
     \<lparr>timeSinceInfected := Some 4, quarantineEligible := Some True, willDie := Some False\<rparr>"

definition inTransit :: Particle where
  "inTransit = detected\<lparr>timeSinceInfected := Some 5,
         quarantineEntryAnim := Some \<lparr>animating = True, tx = 1960 / 3, ty = 1810 / 3\<rparr>,
         x := 484 / 3, y := 703 / 3\<rparr>"

definition stDetect :: Sim where
  "stDetect = \<lparr>particles = [detected], timeRef = 10, infectionEvents = [],
       infectedInfectionCounts = Map.empty, randomSource = halves\<rparr>"

definition stTransit :: Sim where
  "stTransit = \<lparr>particles = [inTransit\<lparr>timeInfected := 1\<rparr>], timeRef = 11, infectionEvents = [],
       infectedInfectionCounts = Map.empty, randomSource = halves\<rparr>"

text \<open>An Infected agent confined in the quarantine region.\<close>

definition confined :: Particle where
  "confined = (newParticle 650 600 0 0 True 0)
     \<lparr>currentCommunity := 8, quarantined := True, timeSinceInfected := Some 40,
       quarantineEligible := Some True, willDie := Some False, timeInfected := 40\<rparr>"

text \<open>
  Quarantine mode off; an Infected agent, a Healthy agent five units away and a Recovered
  agent at the same place, all resting in community 0. The draws of the motion loop are
  1/2 (no centre visit, no travel, no change of velocity), the draws after them are 0.
\<close>

definition cfgPlain :: Config where
  "cfgPlain = \<lparr>initialInfected = 1, incubationPeriod = 50, infectionRadius = 20,
           infectionProbability = 0.2, recoveryTime = 300, deathRate = 0,
           speed = 1, quarantineMode = False, quarantineEffectiveness = 70\<rparr>"

definition zeros :: rng where
  "zeros = sconst (mkDraw 0)"

definition half :: draw where
  "half = mkDraw (1 / 2)"

definition source :: Particle where
  "source = (newParticle 100 100 0 0 True 0)\<lparr>willDie := Some False\<rparr>"

definition neighbour :: Particle where
  "neighbour = newParticle 103 104 0 0 False 0"

definition immune :: Particle where
  "immune = (newParticle 100 100 0 0 False 0)\<lparr>status := Recovered\<rparr>"

definition stTrio :: Sim where
  "stTrio = \<lparr>particles = [source, neighbour, immune], timeRef = 0, infectionEvents = [],
       infectedInfectionCounts = Map.empty,
       randomSource = [half, half, half, half, half, half, half, half, half, half, half, half] @- zeros\<rparr>"

definition stTrioNext :: Sim where
  "stTrioNext = \<lparr>particles = [source\<lparr>timeInfected := 1\<rparr>,
                    neighbour\<lparr>status := Exposed, timeInfected := 1\<rparr>, immune],
       timeRef = 1, infectionEvents = [\<lparr>infectorIndex = 0, time = 1\<rparr>],
       infectedInfectionCounts = [0 \<mapsto> 1], randomSource = zeros\<rparr>"

text \<open>The state the infection logic of the example tick starts from.\<close>

definition stContact :: Sim where
  "stContact = \<lparr>particles = [source, neighbour, immune], timeRef = 1, infectionEvents = [],
       infectedInfectionCounts = Map.empty, randomSource = zeros\<rparr>"


text \<open>The agent \<open>confined\<close> alone, with quarantine mode on.\<close>

definition stConfined :: Sim where
  "stConfined = \<lparr>particles = [confined], timeRef = 100, infectionEvents = [],
       infectedInfectionCounts = Map.empty, randomSource = zeros\<rparr>"

text \<open>
  The agent \<open>inTransit\<close> one tick later, on its way to the quarantine region, next to a
  Healthy agent of its origin community 0.
\<close>

definition bystander :: Particle where
  "bystander = newParticle 170 230 0 0 False 0"

definition stFlight :: Sim where
  "stFlight = \<lparr>particles = [inTransit\<lparr>timeInfected := 1\<rparr>, bystander], timeRef = 11,
       infectionEvents = [], infectedInfectionCounts = Map.empty,
       randomSource = [half, half, half, half] @- zeros\<rparr>"

definition stFlightMoved :: Sim where
  "stFlightMoved = \<lparr>particles =
         [inTransit\<lparr>timeInfected := 1, timeSinceInfected := Some 6, x := 508 / 3, y := 721 / 3\<rparr>,
          bystander],
       timeRef = 12, infectionEvents = [], infectedInfectionCounts = Map.empty,
       randomSource = zeros\<rparr>"

definition stFlightNext :: Sim where
  "stFlightNext = \<lparr>particles =
         [inTransit\<lparr>timeInfected := 2, timeSinceInfected := Some 6, x := 508 / 3, y := 721 / 3\<rparr>,
          bystander\<lparr>status := Exposed, timeInfected := 1\<rparr>],
       timeRef = 12, infectionEvents = [\<lparr>infectorIndex = 0, time = 12\<rparr>],
       infectedInfectionCounts = [0 \<mapsto> 1], randomSource = zeros\<rparr>"

text \<open>
  Four agents in quarantine mode: \<open>detected\<close>, whose next tick starts the transit; an
  Infected agent one unit away from the end of its transit; a Recovered agent that is still
  confined, 700 units away from the centre of its home community 0; and the Healthy
  \<open>bystander\<close>. After a tick with all draws 1/2 the first is in transit, the second is
  confined in the quarantine region, and the third is on its way home.
\<close>

definition arriving :: Particle where
  "arriving = inTransit\<lparr>timeInfected := 60, timeSinceInfected := Some 64, x := 1957 / 3, y := 1810 / 3\<rparr>"

definition arrived :: Particle where
  "arrived = arriving\<lparr>timeSinceInfected := Some 65, x := 1960 / 3, y := 1810 / 3,
       quarantined := True, currentCommunity := QUARANTINE_COMMUNITY_IDX,
       quarantineEntryAnim := None\<rparr>"

definition discharged :: Particle where
  "discharged = (newParticle (1700 / 3) (2090 / 3) 0 0 False 0)
     \<lparr>status := Recovered, currentCommunity := QUARANTINE_COMMUNITY_IDX, quarantined := True,
       timeSinceInfected := Some 300, quarantineEligible := Some True, willDie := Some False,
       timeInfected := 301\<rparr>"

definition leaving :: Particle where
  "leaving = discharged\<lparr>goingHomeAnim := Some \<lparr>animatingH = True, hx = 440 / 3, hy = 410 / 3\<rparr>,
       x := 1682 / 3, y := 2066 / 3\<rparr>"

definition stWard :: Sim where
  "stWard = \<lparr>particles = [detected, arriving, discharged, bystander], timeRef = 10,
       infectionEvents = [], infectedInfectionCounts = Map.empty, randomSource = halves\<rparr>"

definition stWardNext :: Sim where
  "stWardNext = \<lparr>particles = [inTransit\<lparr>timeInfected := 1\<rparr>, arrived, leaving, bystander],
       timeRef = 11, infectionEvents = [], infectedInfectionCounts = Map.empty,
       randomSource = halves\<rparr>"

section \<open>Properties of the region layout\<close>

lemmas layout_defs =
  WIDTH_def HEIGHT_def COMMUNITY_PADDING_def COMMUNITY_ROWS_def COMMUNITY_COLS_def
  NORMAL_COMMUNITIES_def QUARANTINE_COMMUNITY_IDX_def innerW_def innerH_def
  COMMUNITY_WIDTH_def COMMUNITY_HEIGHT_def

lemma js_rem_nonneg: "0 \<le> a \<Longrightarrow> 0 < b \<Longrightarrow> js_rem a b = a mod b"
  by (cases "a = 0") (simp_all add: js_rem_def)

lemma getCommunityBounds_throws:
  "idx > 7 \<Longrightarrow> idx \<noteq> 8 \<Longrightarrow> getCommunityBounds idx = Inl (Error ''Quarantine only at index 8'')"
  by (simp add: getCommunityBounds_def QUARANTINE_COMMUNITY_IDX_def Let_def)

lemma getCommunityBounds_normal:
  assumes "0 \<le> idx" "idx \<le> 7"
  shows "getCommunityBounds idx = Inr (gridCell (idx div 3) (idx mod 3))"
  using assms
  by (simp add: getCommunityBounds_def gridCell_def Let_def js_rem_nonneg layout_defs)

lemma getCommunityBounds_quarantine: "getCommunityBounds 8 = Inr (gridCell 2 2)"
  by (simp add: getCommunityBounds_def gridCell_def Let_def layout_defs)

lemma getCommunityBounds_succeeds_iff:
  "(\<exists>b. getCommunityBounds idx = Inr b) \<longleftrightarrow> idx \<le> 8"
  by (auto simp add: getCommunityBounds_def QUARANTINE_COMMUNITY_IDX_def Let_def)

text \<open>
  C7 (as stated): \<open>getCommunityBounds\<close> fails for every index outside 0..7 other than 8.
  The index -1 is outside 0..7 and is not 8, and the function returns bounds for it: the
  guard of the source is \<open>idx > 7\<close> only.
\<close>

theorem C7_negative_index_counterexample:
  "getCommunityBounds (- 1) =
     Inr \<lparr>minX = - 640 / 3, maxX = 0, minY = - 580 / 3, maxY = 0,
          centerX = - 320 / 3, centerY = - 290 / 3\<rparr>"
  by (simp add: getCommunityBounds_def js_rem_def Let_def layout_defs)

text \<open>
  C7 (amended): \<open>getCommunityBounds\<close> is a function of its index and the static constants
  alone. It throws for every index greater than 7 other than the reserved quarantine
  index 8; for the indices 0..7 it returns the rectangle and centre of the grid cell in row
  \<open>idx div 3\<close> and column \<open>idx mod 3\<close>; for index 8 it returns the bottom-right cell
  (row 2, column 2).
\<close>

theorem C7_getCommunityBounds:
  "(7 < idx \<and> idx \<noteq> 8 \<longrightarrow> getCommunityBounds idx = Inl (Error ''Quarantine only at index 8''))
   \<and> (0 \<le> idx \<and> idx \<le> 7 \<longrightarrow> getCommunityBounds idx = Inr (gridCell (idx div 3) (idx mod 3)))
   \<and> getCommunityBounds 8 = Inr (gridCell 2 2)
   \<and> gridCell 2 2 = \<lparr>minX = 1640 / 3, maxX = 760, minY = 1520 / 3, maxY = 700,
                      centerX = 1960 / 3, centerY = 1810 / 3\<rparr>"
  using getCommunityBounds_throws [of idx] getCommunityBounds_normal [of idx]
    getCommunityBounds_quarantine
  by (simp add: gridCell_def)

theorem C7_getCommunityBounds_witness:
  "getCommunityBounds 9 = Inl (Error ''Quarantine only at index 8'')
   \<and> getCommunityBounds 4 = Inr (gridCell 1 1)
   \<and> getCommunityBounds 8 = Inr (gridCell 2 2)"
  using C7_getCommunityBounds [of 9] C7_getCommunityBounds [of 4]
  by simp

section \<open>Properties of the spatial index\<close>

subsection \<open>The keys are injective\<close>

lemma digits_nonempty: "digits n \<noteq> []"
  by (subst digits.simps) simp

lemma digit_char_in: "k < 10 \<Longrightarrow> ''0123456789'' ! k \<in> set ''0123456789''"
  by (rule nth_mem) simp

lemma digits_chars: "set (digits n) \<subseteq> set ''0123456789''"
proof (induction n rule: digits.induct)
  case (1 n)
  show ?case
  proof (cases "n < 10")
    case True
    then show ?thesis using digit_char_in [of n] by (subst digits.simps) simp
  next
    case False
    have "n mod 10 < 10" by simp
    then have "''0123456789'' ! (n mod 10) \<in> set ''0123456789''" by (rule digit_char_in)
    with False 1 show ?thesis by (subst digits.simps) simp
  qed
qed

lemma digit_char_inj:
  assumes "a < 10" "b < 10" "''0123456789'' ! a = ''0123456789'' ! b"
  shows "a = b"
proof -
  have "distinct ''0123456789''" by simp
  moreover have "a < length ''0123456789''" "b < length ''0123456789''" using assms by simp_all
  ultimately show ?thesis using assms(3) by (simp only: nth_eq_iff_index_eq)
qed

lemma digits_inj: "digits n = digits m \<Longrightarrow> n = m"
proof (induction n arbitrary: m rule: digits.induct)
  case (1 n)
  show ?case
  proof (cases "n < 10")
    case n: True
    show ?thesis
    proof (cases "m < 10")
      case True
      with n 1(2) have "''0123456789'' ! n = ''0123456789'' ! m"
        by (simp add: digits.simps [of n] digits.simps [of m])
      with n True show ?thesis by (rule digit_char_inj)
    next
      case False
      with n 1(2) digits_nonempty [of "m div 10"] show ?thesis
        by (simp add: digits.simps [of n] digits.simps [of m])
    qed
  next
    case n: False
    show ?thesis
    proof (cases "m < 10")
      case True
      with n 1(2) digits_nonempty [of "n div 10"] show ?thesis
        by (simp add: digits.simps [of n] digits.simps [of m])
    next
      case False
      with n 1(2) have d: "digits (n div 10) = digits (m div 10)"
        and c: "''0123456789'' ! (n mod 10) = ''0123456789'' ! (m mod 10)"
        by (simp_all add: digits.simps [of n] digits.simps [of m])
      from 1(1) [OF n d] have q: "n div 10 = m div 10" .
      have "n mod 10 = m mod 10" by (rule digit_char_inj [OF _ _ c]) simp_all
      with q show ?thesis by (metis div_mult_mod_eq)
    qed
  qed
qed

lemma digits_chars_minus: "set (digits n) \<subseteq> set ''-0123456789''"
  by (rule order_trans [OF digits_chars]) simp

lemma showInt_chars: "set (showInt i) \<subseteq> set ''-0123456789''"
proof (cases "i < 0")
  case True
  then have "set (showInt i) = insert CHR ''-'' (set (digits (nat (- i))))"
    by (simp add: showInt_def)
  also have "\<dots> \<subseteq> set ''-0123456789''"
    using digits_chars_minus [of "nat (- i)"] by simp
  finally show ?thesis .
next
  case False
  then have "showInt i = digits (nat i)" by (simp add: showInt_def)
  then show ?thesis using digits_chars_minus [of "nat i"] by simp
qed

lemma digits_no_minus: "hd (digits n) \<noteq> CHR ''-''"
proof -
  have "hd (digits n) \<in> set (digits n)" using digits_nonempty by simp
  then have "hd (digits n) \<in> set ''0123456789''" using digits_chars [of n] by (rule rev_subsetD)
  moreover have "CHR ''-'' \<notin> set ''0123456789''" by simp
  ultimately show ?thesis by metis
qed

lemma showInt_inj: "showInt i = showInt j \<Longrightarrow> i = j"
proof -
  assume e: "showInt i = showInt j"
  consider "i < 0" "j < 0" | "i < 0" "\<not> j < 0" | "\<not> i < 0" "j < 0" | "\<not> i < 0" "\<not> j < 0"
    by blast
  then show ?thesis
  proof cases
    case 1
    with e have "digits (nat (- i)) = digits (nat (- j))" by (simp add: showInt_def)
    then have "nat (- i) = nat (- j)" by (rule digits_inj)
    with 1 show ?thesis by simp
  next
    case 2
    with e have "CHR ''-'' # digits (nat (- i)) = digits (nat j)" by (simp add: showInt_def)
    then have "hd (digits (nat j)) = CHR ''-''" by (metis list.sel(1))
    with digits_no_minus show ?thesis by blast
  next
    case 3
    with e have "CHR ''-'' # digits (nat (- j)) = digits (nat i)" by (simp add: showInt_def)
    then have "hd (digits (nat i)) = CHR ''-''" by (metis list.sel(1))
    with digits_no_minus show ?thesis by blast
  next
    case 4
    with e have "digits (nat i) = digits (nat j)" by (simp add: showInt_def)
    then have "nat i = nat j" by (rule digits_inj)
    with 4 show ?thesis by simp
  qed
qed

lemma showNum_chars: "set (showNum v) \<subseteq> set ''-0123456789InfityNa''"
proof (cases v)
  case (Finite i)
  have "set (showInt i) \<subseteq> set ''-0123456789InfityNa''"
    by (rule order_trans [OF showInt_chars]) simp
  with Finite show ?thesis by simp
qed simp_all

lemma showInt_not_name:
  "showInt i \<noteq> ''Infinity''" "showInt i \<noteq> ''-Infinity''" "showInt i \<noteq> ''NaN''"
proof -
  have "CHR ''I'' \<notin> set ''-0123456789''" "CHR ''N'' \<notin> set ''-0123456789''" by simp_all
  then have no: "CHR ''I'' \<notin> set (showInt i)" "CHR ''N'' \<notin> set (showInt i)"
    using showInt_chars [of i] by (meson subsetD)+
  show "showInt i \<noteq> ''Infinity''"
  proof
    assume "showInt i = ''Infinity''"
    then have "CHR ''I'' \<in> set (showInt i)" by simp
    with no show False by simp
  qed
  show "showInt i \<noteq> ''-Infinity''"
  proof
    assume "showInt i = ''-Infinity''"
    then have "CHR ''I'' \<in> set (showInt i)" by simp
    with no show False by simp
  qed
  show "showInt i \<noteq> ''NaN''"
  proof
    assume "showInt i = ''NaN''"
    then have "CHR ''N'' \<in> set (showInt i)" by simp
    with no show False by simp
  qed
qed

lemma showNum_inj: "showNum v = showNum w \<Longrightarrow> v = w"
proof (cases v)
  case v: (Finite i)
  assume e: "showNum v = showNum w"
  show ?thesis
  proof (cases w)
    case (Finite j)
    with v e show ?thesis by (simp add: showInt_inj)
  next
    case PosInfinity
    with v e showInt_not_name(1) [of i] show ?thesis by simp
  next
    case NegInfinity
    with v e showInt_not_name(2) [of i] show ?thesis by simp
  next
    case NaN
    with v e showInt_not_name(3) [of i] show ?thesis by simp
  qed
next
  case v: PosInfinity
  assume e: "showNum v = showNum w"
  show ?thesis
  proof (cases w)
    case (Finite j)
    with v e showInt_not_name(1) [of j] show ?thesis by simp
  qed (use v e in simp_all)
next
  case v: NegInfinity
  assume e: "showNum v = showNum w"
  show ?thesis
  proof (cases w)
    case (Finite j)
    with v e showInt_not_name(2) [of j] show ?thesis by simp
  qed (use v e in simp_all)
next
  case v: NaN
  assume e: "showNum v = showNum w"
  show ?thesis
  proof (cases w)
    case (Finite j)
    with v e showInt_not_name(3) [of j] show ?thesis by simp
  qed (use v e in simp_all)
qed

lemma split_at_separator:
  "c \<notin> set a \<Longrightarrow> c \<notin> set b \<Longrightarrow> a @ c # r = b @ c # s \<Longrightarrow> a = b \<and> r = s"
proof (induction a arbitrary: b)
  case Nil
  then show ?case by (cases b) auto
next
  case (Cons h a)
  then show ?case by (cases b) auto
qed

lemma hashKey_inj:
  assumes "hashKey c cx cy = hashKey c' cx' cy'"
  shows "c = c' \<and> cx = cx' \<and> cy = cy'"
proof -
  have colon: "CHR '':'' \<notin> set ''-0123456789''" by simp
  have c1: "CHR '':'' \<notin> set (showInt c)" "CHR '':'' \<notin> set (showInt c')"
    using colon showInt_chars [of c] showInt_chars [of c'] by (meson subsetD)+
  from assms have "showInt c @ CHR '':'' # (showNum cx @ CHR '','' # showNum cy)
      = showInt c' @ CHR '':'' # (showNum cx' @ CHR '','' # showNum cy')"
    by (simp add: hashKey_def)
  from split_at_separator [OF c1 this]
  have a: "showInt c = showInt c'"
    and r: "showNum cx @ CHR '','' # showNum cy = showNum cx' @ CHR '','' # showNum cy'"
    by simp_all
  have comma: "CHR '','' \<notin> set ''-0123456789InfityNa''" by simp
  have c2: "CHR '','' \<notin> set (showNum cx)" "CHR '','' \<notin> set (showNum cx')"
    using comma showNum_chars [of cx] showNum_chars [of cx'] by (meson subsetD)+
  from split_at_separator [OF c2 r] have "showNum cx = showNum cx'" "showNum cy = showNum cy'"
    by simp_all
  with a show ?thesis by (simp add: showInt_inj showNum_inj)
qed

subsection \<open>The buckets\<close>

lemma hashStep_eq:
  "hashStep ps cs only i h =
     (if indexed ps only i
      then h(cellKey ps cs i \<mapsto> (case h (cellKey ps cs i) of None \<Rightarrow> [] | Some l \<Rightarrow> l) @ [i])
      else h)"
  by (auto simp: hashStep_def indexed_def cellKey_def Let_def split: option.splits)

lemma fold_hashStep:
  "fold (hashStep ps cs only) is h k =
     (let l = filter (\<lambda>i. indexed ps only i \<and> cellKey ps cs i = k) is
      in if l = [] then h k else Some ((case h k of None \<Rightarrow> [] | Some l0 \<Rightarrow> l0) @ l))"
proof (induction "is" arbitrary: h)
  case Nil
  show ?case by simp
next
  case (Cons i "is")
  let ?h = "hashStep ps cs only i h"
  have "fold (hashStep ps cs only) (i # is) h k = fold (hashStep ps cs only) is ?h k"
    by simp
  also have "\<dots> =
     (let l = filter (\<lambda>i. indexed ps only i \<and> cellKey ps cs i = k) is
      in if l = [] then ?h k else Some ((case ?h k of None \<Rightarrow> [] | Some l0 \<Rightarrow> l0) @ l))"
    by (rule Cons.IH)
  also have "\<dots> =
     (let l = filter (\<lambda>i. indexed ps only i \<and> cellKey ps cs i = k) (i # is)
      in if l = [] then h k else Some ((case h k of None \<Rightarrow> [] | Some l0 \<Rightarrow> l0) @ l))"
    by (simp add: hashStep_eq [of ps cs only i h] Let_def split: option.splits)
  finally show ?case .
qed

lemma makeSpatialHash_bucket:
  "makeSpatialHash ps cs only k =
     (let l = filter (\<lambda>i. indexed ps only i \<and> cellKey ps cs i = k) [0..<length ps]
      in if l = [] then None else Some l)"
  by (simp add: makeSpatialHash_def fold_hashStep Let_def)

lemma floorDiv_eq:
  "cellSize \<noteq> 0 \<Longrightarrow> floorDiv a cellSize = floorDiv b cellSize \<longleftrightarrow> \<lfloor>a / cellSize\<rfloor> = \<lfloor>b / cellSize\<rfloor>"
  by (simp add: floorDiv_def)

lemma hashKey_text:
  "cellSize \<noteq> 0 \<Longrightarrow> hashKey c (floorDiv a cellSize) (floorDiv b cellSize)
     = showInt c @ '':'' @ showInt \<lfloor>a / cellSize\<rfloor> @ '','' @ showInt \<lfloor>b / cellSize\<rfloor>"
  by (simp add: hashKey_def floorDiv_def)

lemma bucket_members:
  assumes "makeSpatialHash ps cs only k = Some l" "i \<in> set l"
  shows "i < length ps" "indexed ps only i" "cellKey ps cs i = k"
  using assms by (auto simp: makeSpatialHash_bucket Let_def split: if_splits)

lemma bucket_of_indexed:
  assumes "i < length ps" "indexed ps only i"
  shows "\<exists>b. makeSpatialHash ps cs only (cellKey ps cs i) = Some b
     \<and> set b = {j. j < length ps \<and> indexed ps only j \<and> cellKey ps cs j = cellKey ps cs i}"
proof -
  let ?l = "filter (\<lambda>j. indexed ps only j \<and> cellKey ps cs j = cellKey ps cs i) [0..<length ps]"
  have "i \<in> set ?l" using assms by simp
  then have "?l \<noteq> []" by (metis empty_iff empty_set)
  then have "makeSpatialHash ps cs only (cellKey ps cs i) = Some ?l"
    by (simp add: makeSpatialHash_bucket Let_def)
  moreover have "set ?l = {j. j < length ps \<and> indexed ps only j \<and> cellKey ps cs j = cellKey ps cs i}"
    by auto
  ultimately show ?thesis by blast
qed

lemma indexed_iff:
  "indexed ps only i \<longleftrightarrow>
     status (ps ! i) \<noteq> Dead \<and> (\<forall>c. only = Some c \<longrightarrow> currentCommunity (ps ! i) = c)"
  by (auto simp: indexed_def split: option.splits)

lemma cellKey_eq_iff:
  "cellKey ps cs i = cellKey ps cs j \<longleftrightarrow>
     currentCommunity (ps ! i) = currentCommunity (ps ! j)
     \<and> floorDiv (x (ps ! i)) cs = floorDiv (x (ps ! j)) cs
     \<and> floorDiv (y (ps ! i)) cs = floorDiv (y (ps ! j)) cs"
  unfolding cellKey_def using hashKey_inj by metis

text \<open>
  C8: for every agent list, cell size and optional region filter, an agent found in a
  bucket of \<open>makeSpatialHash\<close> is not Dead, is in the filter region when a filter is
  given, and the key of the bucket is the text made of its region index, a colon, and its
  two coordinates divided by the cell size and rounded down, separated by a comma; every
  agent that is not Dead and passes the filter is in the bucket of that key; two agents of
  one bucket are in the same region and have the same two cell coordinates; and two agents
  that are not Dead and pass the filter share a bucket exactly when their regions and
  their cell coordinates are equal, so that agents of different regions are never in one
  bucket, even at the same coordinates.
\<close>

theorem C8_makeSpatialHash:
  "(makeSpatialHash ps cellSize onlyCommunity k = Some l \<and> i \<in> set l \<longrightarrow>
      i < length ps
      \<and> status (ps ! i) \<noteq> Dead
      \<and> (\<forall>c. onlyCommunity = Some c \<longrightarrow> currentCommunity (ps ! i) = c)
      \<and> k = hashKey (currentCommunity (ps ! i))
               (floorDiv (x (ps ! i)) cellSize) (floorDiv (y (ps ! i)) cellSize)
      \<and> (cellSize \<noteq> 0 \<longrightarrow>
           k = showInt (currentCommunity (ps ! i)) @ '':''
               @ showInt \<lfloor>x (ps ! i) / cellSize\<rfloor> @ '','' @ showInt \<lfloor>y (ps ! i) / cellSize\<rfloor>))
   \<and> (j < length ps \<and> status (ps ! j) \<noteq> Dead
        \<and> (\<forall>c. onlyCommunity = Some c \<longrightarrow> currentCommunity (ps ! j) = c) \<longrightarrow>
      (\<exists>b. makeSpatialHash ps cellSize onlyCommunity
              (hashKey (currentCommunity (ps ! j))
                 (floorDiv (x (ps ! j)) cellSize) (floorDiv (y (ps ! j)) cellSize)) = Some b
           \<and> j \<in> set b))
   \<and> (makeSpatialHash ps cellSize onlyCommunity k = Some l \<and> i \<in> set l \<and> i' \<in> set l \<longrightarrow>
      currentCommunity (ps ! i) = currentCommunity (ps ! i')
      \<and> floorDiv (x (ps ! i)) cellSize = floorDiv (x (ps ! i')) cellSize
      \<and> floorDiv (y (ps ! i)) cellSize = floorDiv (y (ps ! i')) cellSize
      \<and> (cellSize \<noteq> 0 \<longrightarrow>
           \<lfloor>x (ps ! i) / cellSize\<rfloor> = \<lfloor>x (ps ! i') / cellSize\<rfloor>
           \<and> \<lfloor>y (ps ! i) / cellSize\<rfloor> = \<lfloor>y (ps ! i') / cellSize\<rfloor>))
   \<and> (j < length ps \<and> status (ps ! j) \<noteq> Dead
        \<and> (\<forall>c. onlyCommunity = Some c \<longrightarrow> currentCommunity (ps ! j) = c)
        \<and> j' < length ps \<and> status (ps ! j') \<noteq> Dead
        \<and> (\<forall>c. onlyCommunity = Some c \<longrightarrow> currentCommunity (ps ! j') = c) \<longrightarrow>
      ((\<exists>k' b. makeSpatialHash ps cellSize onlyCommunity k' = Some b \<and> j \<in> set b \<and> j' \<in> set b)
       \<longleftrightarrow> currentCommunity (ps ! j) = currentCommunity (ps ! j')
           \<and> floorDiv (x (ps ! j)) cellSize = floorDiv (x (ps ! j')) cellSize
           \<and> floorDiv (y (ps ! j)) cellSize = floorDiv (y (ps ! j')) cellSize))"
proof (intro conjI impI)
  assume a: "makeSpatialHash ps cellSize onlyCommunity k = Some l \<and> i \<in> set l"
  then have m: "i < length ps" "indexed ps onlyCommunity i" "cellKey ps cellSize i = k"
    using bucket_members [of ps cellSize onlyCommunity k l i] by simp_all
  show "i < length ps" by (rule m)
  show "status (ps ! i) \<noteq> Dead" using m(2) by (simp add: indexed_iff)
  show "\<forall>c. onlyCommunity = Some c \<longrightarrow> currentCommunity (ps ! i) = c"
    using m(2) by (simp add: indexed_iff)
  show k: "k = hashKey (currentCommunity (ps ! i))
               (floorDiv (x (ps ! i)) cellSize) (floorDiv (y (ps ! i)) cellSize)"
    using m(3) by (simp add: cellKey_def)
  assume "cellSize \<noteq> 0"
  then show "k = showInt (currentCommunity (ps ! i)) @ '':''
               @ showInt \<lfloor>x (ps ! i) / cellSize\<rfloor> @ '','' @ showInt \<lfloor>y (ps ! i) / cellSize\<rfloor>"
    unfolding k by (rule hashKey_text)
next
  assume a: "j < length ps \<and> status (ps ! j) \<noteq> Dead
        \<and> (\<forall>c. onlyCommunity = Some c \<longrightarrow> currentCommunity (ps ! j) = c)"
  then have "indexed ps onlyCommunity j" by (simp add: indexed_iff)
  with a bucket_of_indexed [of j ps onlyCommunity cellSize]
  show "\<exists>b. makeSpatialHash ps cellSize onlyCommunity
              (hashKey (currentCommunity (ps ! j))
                 (floorDiv (x (ps ! j)) cellSize) (floorDiv (y (ps ! j)) cellSize)) = Some b
           \<and> j \<in> set b"
    unfolding cellKey_def [symmetric] by auto
next
  assume a: "makeSpatialHash ps cellSize onlyCommunity k = Some l \<and> i \<in> set l \<and> i' \<in> set l"
  then have "cellKey ps cellSize i = k" "cellKey ps cellSize i' = k"
    using bucket_members(3) [of ps cellSize onlyCommunity k l] by simp_all
  then have e: "cellKey ps cellSize i = cellKey ps cellSize i'" by simp
  then show c: "currentCommunity (ps ! i) = currentCommunity (ps ! i')"
    and fx: "floorDiv (x (ps ! i)) cellSize = floorDiv (x (ps ! i')) cellSize"
    and fy: "floorDiv (y (ps ! i)) cellSize = floorDiv (y (ps ! i')) cellSize"
    by (simp_all add: cellKey_eq_iff)
  assume "cellSize \<noteq> 0"
  with fx fy show "\<lfloor>x (ps ! i) / cellSize\<rfloor> = \<lfloor>x (ps ! i') / cellSize\<rfloor>"
    "\<lfloor>y (ps ! i) / cellSize\<rfloor> = \<lfloor>y (ps ! i') / cellSize\<rfloor>"
    by (simp_all add: floorDiv_eq)
next
  assume a: "j < length ps \<and> status (ps ! j) \<noteq> Dead
        \<and> (\<forall>c. onlyCommunity = Some c \<longrightarrow> currentCommunity (ps ! j) = c)
        \<and> j' < length ps \<and> status (ps ! j') \<noteq> Dead
        \<and> (\<forall>c. onlyCommunity = Some c \<longrightarrow> currentCommunity (ps ! j') = c)"
  then have ix: "indexed ps onlyCommunity j" "indexed ps onlyCommunity j'"
    by (simp_all add: indexed_iff)
  have "(\<exists>k' b. makeSpatialHash ps cellSize onlyCommunity k' = Some b \<and> j \<in> set b \<and> j' \<in> set b)
      \<longleftrightarrow> cellKey ps cellSize j = cellKey ps cellSize j'"
  proof
    assume "\<exists>k' b. makeSpatialHash ps cellSize onlyCommunity k' = Some b \<and> j \<in> set b \<and> j' \<in> set b"
    then obtain k' b where "makeSpatialHash ps cellSize onlyCommunity k' = Some b" "j \<in> set b" "j' \<in> set b"
      by blast
    then have "cellKey ps cellSize j = k'" "cellKey ps cellSize j' = k'"
      using bucket_members(3) [of ps cellSize onlyCommunity k' b] by simp_all
    then show "cellKey ps cellSize j = cellKey ps cellSize j'" by simp
  next
    assume e: "cellKey ps cellSize j = cellKey ps cellSize j'"
    from a ix bucket_of_indexed [of j ps onlyCommunity cellSize] obtain b where
      b: "makeSpatialHash ps cellSize onlyCommunity (cellKey ps cellSize j) = Some b"
      "set b = {n. n < length ps \<and> indexed ps onlyCommunity n \<and> cellKey ps cellSize n = cellKey ps cellSize j}"
      by blast
    with a ix e have "j \<in> set b" "j' \<in> set b" by simp_all
    with b(1) show "\<exists>k' b. makeSpatialHash ps cellSize onlyCommunity k' = Some b \<and> j \<in> set b \<and> j' \<in> set b"
      by blast
  qed
  then show "(\<exists>k' b. makeSpatialHash ps cellSize onlyCommunity k' = Some b \<and> j \<in> set b \<and> j' \<in> set b)
       \<longleftrightarrow> currentCommunity (ps ! j) = currentCommunity (ps ! j')
           \<and> floorDiv (x (ps ! j)) cellSize = floorDiv (x (ps ! j')) cellSize
           \<and> floorDiv (y (ps ! j)) cellSize = floorDiv (y (ps ! j')) cellSize"
    by (simp add: cellKey_eq_iff)
qed

lemma sample_buckets:
  "makeSpatialHash sampleAgents 23 None ''0:0,0'' = Some [0, 4]"
  "makeSpatialHash sampleAgents 23 None ''1:0,0'' = Some [1]"
  "makeSpatialHash sampleAgents 23 None ''0:4,8'' = Some [3]"
  "makeSpatialHash sampleAgents 23 (Some 0) ''0:0,0'' = Some [0, 4]"
  "makeSpatialHash sampleAgents 23 (Some 0) ''0:4,8'' = Some [3]"
  "makeSpatialHash sampleAgents 23 (Some 0) ''1:0,0'' = None"
  by (simp_all add: makeSpatialHash_def hashStep_def sampleAgents_def newParticle_def
      floorDiv_def Let_def hashKey_def showInt_def digits.simps)

lemma sample_fields:
  "length sampleAgents = 5"
  "status (sampleAgents ! 0) = Healthy" "status (sampleAgents ! Suc 0) = Healthy"
  "status (sampleAgents ! 2) = Dead"
  "status (sampleAgents ! 3) = Healthy" "status (sampleAgents ! 4) = Healthy"
  "currentCommunity (sampleAgents ! 0) = 0" "currentCommunity (sampleAgents ! Suc 0) = 1"
  "currentCommunity (sampleAgents ! 3) = 0" "currentCommunity (sampleAgents ! 4) = 0"
  "x (sampleAgents ! 0) = 10" "y (sampleAgents ! 0) = 10"
  "x (sampleAgents ! Suc 0) = 10" "y (sampleAgents ! Suc 0) = 10"
  "x (sampleAgents ! 3) = 100" "y (sampleAgents ! 3) = 200"
  "x (sampleAgents ! 4) = 12" "y (sampleAgents ! 4) = 15"
  by (simp_all add: sampleAgents_def newParticle_def)

lemma sample_floors:
  "\<lfloor>10 / (23::real)\<rfloor> = 0" "\<lfloor>12 / (23::real)\<rfloor> = 0" "\<lfloor>15 / (23::real)\<rfloor> = 0"
  "\<lfloor>100 / (23::real)\<rfloor> = 4" "\<lfloor>200 / (23::real)\<rfloor> = 8"
  by (simp_all add: floor_eq_iff)

theorem C8_makeSpatialHash_witness:
  "makeSpatialHash sampleAgents 23 None ''0:0,0'' = Some [0, 4]
   \<and> makeSpatialHash sampleAgents 23 None ''1:0,0'' = Some [1]
   \<and> makeSpatialHash sampleAgents 23 None ''0:4,8'' = Some [3]
   \<and> x (sampleAgents ! 0) = x (sampleAgents ! 1) \<and> y (sampleAgents ! 0) = y (sampleAgents ! 1)
   \<and> currentCommunity (sampleAgents ! 0) \<noteq> currentCommunity (sampleAgents ! 1)
   \<and> \<not> (\<exists>k b. makeSpatialHash sampleAgents 23 None k = Some b \<and> 0 \<in> set b \<and> 1 \<in> set b)
   \<and> \<lfloor>x (sampleAgents ! 0) / 23\<rfloor> = \<lfloor>x (sampleAgents ! 4) / 23\<rfloor>
   \<and> \<lfloor>y (sampleAgents ! 0) / 23\<rfloor> = \<lfloor>y (sampleAgents ! 4) / 23\<rfloor>
   \<and> (\<exists>k b. makeSpatialHash sampleAgents 23 None k = Some b \<and> 0 \<in> set b \<and> 4 \<in> set b)
   \<and> \<lfloor>x (sampleAgents ! 3) / 23\<rfloor> = 4 \<and> \<lfloor>y (sampleAgents ! 3) / 23\<rfloor> = 8
   \<and> \<not> (\<exists>k b. makeSpatialHash sampleAgents 23 None k = Some b \<and> 0 \<in> set b \<and> 3 \<in> set b)
   \<and> makeSpatialHash sampleAgents 23 (Some 0) ''0:0,0'' = Some [0, 4]
   \<and> makeSpatialHash sampleAgents 23 (Some 0) ''1:0,0'' = None
   \<and> status (sampleAgents ! 2) = Dead
   \<and> \<not> (\<exists>k b. makeSpatialHash sampleAgents 23 None k = Some b \<and> 2 \<in> set b)"
proof -
  note f = sample_fields sample_floors
  have d01: "\<not> (\<exists>k b. makeSpatialHash sampleAgents 23 None k = Some b \<and> 0 \<in> set b \<and> 1 \<in> set b)"
    using C8_makeSpatialHash [of sampleAgents 23 None "''0:0,0''" "[0, 4]" 0 0 4 1] by (simp add: f)
  have d04: "\<exists>k b. makeSpatialHash sampleAgents 23 None k = Some b \<and> 0 \<in> set b \<and> 4 \<in> set b"
    using C8_makeSpatialHash [of sampleAgents 23 None "''0:0,0''" "[0, 4]" 0 0 4 4] by (simp add: f floorDiv_def)
  have d03: "\<not> (\<exists>k b. makeSpatialHash sampleAgents 23 None k = Some b \<and> 0 \<in> set b \<and> 3 \<in> set b)"
    using C8_makeSpatialHash [of sampleAgents 23 None "''0:0,0''" "[0, 4]" 0 0 4 3] by (simp add: f floorDiv_def)
  have fl: "\<lfloor>x (sampleAgents ! 0) / 23\<rfloor> = \<lfloor>x (sampleAgents ! 4) / 23\<rfloor>
      \<and> \<lfloor>y (sampleAgents ! 0) / 23\<rfloor> = \<lfloor>y (sampleAgents ! 4) / 23\<rfloor>"
    using C8_makeSpatialHash [of sampleAgents 23 None "''0:0,0''" "[0, 4]" 0 0 4 4] sample_buckets(1) by simp
  have dead: "\<not> (\<exists>k b. makeSpatialHash sampleAgents 23 None k = Some b \<and> 2 \<in> set b)"
  proof
    assume "\<exists>k b. makeSpatialHash sampleAgents 23 None k = Some b \<and> 2 \<in> set b"
    then obtain k b where "makeSpatialHash sampleAgents 23 None k = Some b" "2 \<in> set b" by blast
    then show False using C8_makeSpatialHash [of sampleAgents 23 None k b 2 0 2 0] by (simp add: f)
  qed
  show ?thesis using d01 d04 d03 fl dead sample_buckets by (simp add: f)
qed


section \<open>Properties of the motion loop\<close>

lemma moved_refl: "moved p p"
  by (simp add: moved_def sameHealth_def)

lemma moved_trans [trans]: "moved p q \<Longrightarrow> moved q r \<Longrightarrow> moved p r"
  by (simp add: moved_def sameHealth_def)

lemma random_range: "random g = (u, g') \<Longrightarrow> 0 \<le> u \<and> u < 1"
  using Rep_draw [of "shd g"] by (auto simp: random_def)

lemma available_range: "c \<in> set (available p) \<Longrightarrow> 0 \<le> c \<and> c \<le> 7"
  by (auto simp: available_def layout_defs)

lemma floor_index:
  assumes "0 \<le> u" "u < 1" "0 < n"
  shows "nat \<lfloor>u * real n\<rfloor> < n"
proof -
  have "u * real n < real n" using assms by simp
  then have "\<lfloor>u * real n\<rfloor> < int n" by (simp add: floor_less_iff)
  moreover have "0 \<le> \<lfloor>u * real n\<rfloor>" using assms by simp
  ultimately show ?thesis by linarith
qed

lemma available_draw:
  assumes "random g = (u, g')" "0 < length (available p)"
  shows "0 \<le> available p ! nat \<lfloor>u * real (length (available p))\<rfloor>
       \<and> available p ! nat \<lfloor>u * real (length (available p))\<rfloor> \<le> 7"
proof -
  from random_range [OF assms(1)] assms(2)
  have "nat \<lfloor>u * real (length (available p))\<rfloor> < length (available p)"
    by (simp add: floor_index)
  then have "available p ! nat \<lfloor>u * real (length (available p))\<rfloor> \<in> set (available p)"
    by (rule nth_mem)
  then show ?thesis by (rule available_range)
qed

subsection \<open>Each part of the motion keeps the health fields and the placement\<close>

lemma initTimeSinceInfected_moved: "moved p (initTimeSinceInfected p)"
  by (simp add: initTimeSinceInfected_def moved_def sameHealth_def wellPlaced_def)

lemma drawEligibility_moved: "drawEligibility cfg p g = (p', g') \<Longrightarrow> moved p p'"
  by (auto simp: drawEligibility_def moved_def sameHealth_def wellPlaced_def
      split: if_splits prod.splits)

lemma startQuarantine_moved: "startQuarantine p g = Inr (p', g') \<Longrightarrow> moved p p'"
  by (auto simp: startQuarantine_def moved_def sameHealth_def wellPlaced_def Let_def
      split: if_splits prod.splits sum.splits)

lemma countQuarantineTime_moved: "moved p (countQuarantineTime p)"
  by (simp add: countQuarantineTime_def moved_def sameHealth_def wellPlaced_def)

lemma releaseFromQuarantine_moved: "releaseFromQuarantine p g = Inr (p', g') \<Longrightarrow> moved p p'"
  by (auto simp: releaseFromQuarantine_def moved_def sameHealth_def wellPlaced_def
      split: if_splits prod.splits sum.splits)

lemma quarantineLogic_moved:
  assumes "quarantineLogic cfg p g = Inr (p', g')"
  shows "moved p p'"
proof (cases "quarantineMode cfg")
  case False
  with assms show ?thesis by (simp add: quarantineLogic_def moved_refl)
next
  case True
  obtain p1 g1 where d: "drawEligibility cfg (initTimeSinceInfected p) g = (p1, g1)"
    by (cases "drawEligibility cfg (initTimeSinceInfected p) g")
  with True assms obtain p2 g2 where s: "startQuarantine p1 g1 = Inr (p2, g2)"
    and r: "releaseFromQuarantine (countQuarantineTime p2) g2 = Inr (p', g')"
    by (auto simp: quarantineLogic_def split: sum.splits)
  have "moved p p1"
    using initTimeSinceInfected_moved drawEligibility_moved [OF d] by (rule moved_trans)
  also have "moved p1 p2" using s by (rule startQuarantine_moved)
  also have "moved p2 (countQuarantineTime p2)" by (rule countQuarantineTime_moved)
  also have "moved (countQuarantineTime p2) p'" using r by (rule releaseFromQuarantine_moved)
  finally show ?thesis .
qed

lemma animateEntry_moved: "moved p (animateEntry a p)"
  by (simp add: animateEntry_def moved_def sameHealth_def wellPlaced_def Let_def)

lemma animateHome_moved: "animateHome a p g = (p', g') \<Longrightarrow> moved p p'"
  by (auto simp: animateHome_def moved_def sameHealth_def wellPlaced_def Let_def
      split: if_splits prod.splits)

lemma bounce_moved: "moved p (bounce b p)"
  by (simp add: bounce_def moved_def sameHealth_def wellPlaced_def Let_def)

lemma centreEntry_moved: "centreEntry b p g = (p', g') \<Longrightarrow> moved p p'"
  by (auto simp: centreEntry_def moved_def sameHealth_def wellPlaced_def
      split: if_splits prod.splits)

lemma centreStay_moved: "centreStay b p g = (p', g') \<Longrightarrow> moved p p'"
  by (auto simp: centreStay_def moved_def sameHealth_def wellPlaced_def Let_def
      split: if_splits prod.splits)

lemma travelTarget_moved: "travelTarget p g = Inr (p', g') \<Longrightarrow> moved p p'"
  by (auto simp: travelTarget_def moved_def sameHealth_def wellPlaced_def
      split: if_splits prod.splits sum.splits)

lemma travelMove_moved: "\<not> quarantined p \<Longrightarrow> travelMove a b p g = (p', g') \<Longrightarrow> moved p p'"
  by (auto simp: travelMove_def moved_def sameHealth_def wellPlaced_def Let_def
      split: if_splits prod.splits)

lemma brownian_moved: "brownian b p g = (p', g') \<Longrightarrow> moved p p'"
  by (auto simp: brownian_def moved_def sameHealth_def wellPlaced_def Let_def
      split: if_splits prod.splits)

lemma randomTravel_moved:
  assumes "\<not> quarantined p" "randomTravel p g = (p', g')"
  shows "moved p p'"
  using assms available_draw [of _ _ _ p]
  by (auto simp: randomTravel_def moved_def sameHealth_def wellPlaced_def
      split: if_splits prod.splits)

lemma visitExpiry_moved: "\<not> quarantined p \<Longrightarrow> moved p (visitExpiry p)"
  by (auto simp: visitExpiry_def moved_def sameHealth_def wellPlaced_def Let_def
      split: option.splits)

lemma travelStep_moved:
  assumes "\<not> quarantined p" "travelStep p g = Inr (p', g')"
  shows "moved p p'"
proof -
  from assms(2) obtain p1 g1 where t: "travelTarget p g = Inr (p1, g1)"
    by (auto simp: travelStep_def split: sum.splits)
  then have m: "moved p p1" by (rule travelTarget_moved)
  from t assms(1) have q: "\<not> quarantined p1"
    by (auto simp: travelTarget_def split: if_splits sum.splits prod.splits)
  show ?thesis
  proof (cases "travelTargetX p1")
    case None
    with assms(2) t have "p' = p1" by (simp add: travelStep_def)
    with m show ?thesis by simp
  next
    case ax: (Some a)
    show ?thesis
    proof (cases "travelTargetY p1")
      case None
      with assms(2) t ax have "p' = p1" by (simp add: travelStep_def)
      with m show ?thesis by simp
    next
      case (Some b)
      with assms(2) t ax have "travelMove a b p1 g1 = (p', g')" by (simp add: travelStep_def)
      with q have "moved p1 p'" by (rule travelMove_moved)
      with m show ?thesis by (rule moved_trans)
    qed
  qed
qed

lemma bounce_quarantined: "quarantined (bounce b p) = quarantined p"
  by (simp add: bounce_def Let_def)

lemma centreEntry_quarantined: "centreEntry b p g = (p', g') \<Longrightarrow> quarantined p' = quarantined p"
  by (auto simp: centreEntry_def split: if_splits prod.splits)

lemma brownian_quarantined: "brownian b p g = (p', g') \<Longrightarrow> quarantined p' = quarantined p"
  by (auto simp: brownian_def Let_def split: if_splits prod.splits)

lemma randomTravel_quarantined: "randomTravel p g = (p', g') \<Longrightarrow> quarantined p' = quarantined p"
  by (auto simp: randomTravel_def split: if_splits prod.splits)

lemma normalBehaviour_moved:
  assumes "\<not> quarantined p" "normalBehaviour p g = Inr (p', g')"
  shows "moved p p'"
proof -
  from assms(2) obtain b where b: "getCommunityBounds (currentCommunity p) = Inr b"
    by (auto simp: normalBehaviour_def split: sum.splits)
  obtain p1 g1 where c: "centreEntry b (bounce b p) g = (p1, g1)"
    by (cases "centreEntry b (bounce b p) g")
  have m1: "moved p p1"
    using bounce_moved centreEntry_moved [OF c] by (rule moved_trans)
  have q1: "\<not> quarantined p1"
    using centreEntry_quarantined [OF c] bounce_quarantined assms(1) by simp
  consider (centre) "atCentre p1" | (travel) "\<not> atCentre p1" "isTravelling p1"
    | (free) "\<not> atCentre p1" "\<not> isTravelling p1"
    by blast
  then show ?thesis
  proof cases
    case centre
    with assms(2) b c have "centreStay b p1 g1 = (p', g')" by (simp add: normalBehaviour_def)
    then have "moved p1 p'" by (rule centreStay_moved)
    with m1 show ?thesis by (rule moved_trans)
  next
    case travel
    with assms(2) b c have "travelStep p1 g1 = Inr (p', g')" by (simp add: normalBehaviour_def)
    with q1 have "moved p1 p'" by (rule travelStep_moved)
    with m1 show ?thesis by (rule moved_trans)
  next
    case free
    obtain p2 g2 where br: "brownian b p1 g1 = (p2, g2)" by (cases "brownian b p1 g1")
    obtain p3 g3 where rt: "randomTravel p2 g2 = (p3, g3)" by (cases "randomTravel p2 g2")
    from free assms(2) b c br rt have e: "p' = visitExpiry p3" by (simp add: normalBehaviour_def)
    have q2: "\<not> quarantined p2" using brownian_quarantined [OF br] q1 by simp
    have q3: "\<not> quarantined p3" using randomTravel_quarantined [OF rt] q2 by simp
    note m1
    also have "moved p1 p2" using br by (rule brownian_moved)
    also have "moved p2 p3" using q2 rt by (rule randomTravel_moved)
    also have "moved p3 p'" unfolding e using q3 by (rule visitExpiry_moved)
    finally show ?thesis .
  qed
qed

lemma moveParticle_moved:
  assumes "moveParticle cfg p g = Inr (p', g')"
  shows "moved p p'"
proof -
  from assms obtain p1 g1 where ql: "quarantineLogic cfg p g = Inr (p1, g1)"
    by (auto simp: moveParticle_def split: sum.splits)
  then have m1: "moved p p1" by (rule quarantineLogic_moved)
  show ?thesis
  proof (cases "entryAnimating p1")
    case True
    then obtain a where a: "quarantineEntryAnim p1 = Some a"
      by (auto simp: entryAnimating_def split: option.splits)
    with True assms ql have "p' = animateEntry a p1" by (simp add: moveParticle_def)
    with m1 animateEntry_moved [of p1 a] show ?thesis by (auto intro: moved_trans)
  next
    case ne: False
    show ?thesis
    proof (cases "homeAnimating p1")
      case True
      then obtain a where a: "goingHomeAnim p1 = Some a"
        by (auto simp: homeAnimating_def split: option.splits)
      with True ne assms ql have "animateHome a p1 g1 = (p', g')" by (simp add: moveParticle_def)
      then have "moved p1 p'" by (rule animateHome_moved)
      with m1 show ?thesis by (rule moved_trans)
    next
      case nh: False
      show ?thesis
      proof (cases "quarantined p1")
        case True
        with ne nh assms ql have "p' = p1" by (simp add: moveParticle_def)
        with m1 show ?thesis by simp
      next
        case False
        with ne nh assms ql have "normalBehaviour p1 g1 = Inr (p', g')"
          by (simp add: moveParticle_def)
        with False have "moved p1 p'" by (rule normalBehaviour_moved)
        with m1 show ?thesis by (rule moved_trans)
      qed
    qed
  qed
qed

subsection \<open>The motion of a well-placed agent throws no exception\<close>

lemma bounds_ok: "idx \<le> 8 \<Longrightarrow> \<exists>b. getCommunityBounds idx = Inr b"
  by (simp add: getCommunityBounds_succeeds_iff)

lemma wellPlaced_le: "wellPlaced p \<Longrightarrow> homeCommunity p \<le> 8 \<and> currentCommunity p \<le> 8"
  by (auto simp: wellPlaced_def QUARANTINE_COMMUNITY_IDX_def split: if_splits)

lemma startQuarantine_total: "\<exists>p' g'. startQuarantine p g = Inr (p', g')"
  using bounds_ok [of 8]
  by (auto simp: startQuarantine_def Let_def QUARANTINE_COMMUNITY_IDX_def split: prod.splits)

lemma releaseFromQuarantine_total:
  "homeCommunity p \<le> 8 \<Longrightarrow> \<exists>p' g'. releaseFromQuarantine p g = Inr (p', g')"
  using bounds_ok [of "homeCommunity p"]
  by (auto simp: releaseFromQuarantine_def split: prod.splits)

lemma quarantineLogic_total:
  assumes "wellPlaced p"
  shows "\<exists>p' g'. quarantineLogic cfg p g = Inr (p', g')"
proof (cases "quarantineMode cfg")
  case False
  then show ?thesis by (simp add: quarantineLogic_def)
next
  case True
  obtain p1 g1 where d: "drawEligibility cfg (initTimeSinceInfected p) g = (p1, g1)"
    by (cases "drawEligibility cfg (initTimeSinceInfected p) g")
  obtain p2 g2 where s: "startQuarantine p1 g1 = Inr (p2, g2)"
    using startQuarantine_total by blast
  have "moved p p1"
    using initTimeSinceInfected_moved drawEligibility_moved [OF d] by (rule moved_trans)
  also have "moved p1 p2" using s by (rule startQuarantine_moved)
  also have "moved p2 (countQuarantineTime p2)" by (rule countQuarantineTime_moved)
  finally have "wellPlaced (countQuarantineTime p2)" using assms by (simp add: moved_def)
  then have "homeCommunity (countQuarantineTime p2) \<le> 8" by (simp add: wellPlaced_le)
  from releaseFromQuarantine_total [OF this, of g2] True d s show ?thesis
    by (simp add: quarantineLogic_def)
qed

lemma travelStep_total:
  assumes "wellPlaced p"
  shows "\<exists>p' g'. travelStep p g = Inr (p', g')"
proof -
  from wellPlaced_le [OF assms]
  have "\<exists>b. (if travellingBack p then getCommunityBounds (homeCommunity p)
                  else getCommunityBounds (currentCommunity p)) = Inr b"
    using bounds_ok [of "homeCommunity p"] bounds_ok [of "currentCommunity p"] by simp
  then have "\<exists>p1 g1. travelTarget p g = Inr (p1, g1)"
    by (auto simp: travelTarget_def split: prod.splits)
  then show ?thesis
    by (auto simp: travelStep_def split: option.splits)
qed

lemma normalBehaviour_total:
  assumes "wellPlaced p"
  shows "\<exists>p' g'. normalBehaviour p g = Inr (p', g')"
proof -
  from wellPlaced_le [OF assms] obtain b where b: "getCommunityBounds (currentCommunity p) = Inr b"
    using bounds_ok by blast
  obtain p1 g1 where c: "centreEntry b (bounce b p) g = (p1, g1)"
    by (cases "centreEntry b (bounce b p) g")
  have "moved p p1"
    using bounce_moved centreEntry_moved [OF c] by (rule moved_trans)
  with assms have "wellPlaced p1" by (simp add: moved_def)
  from travelStep_total [OF this, of g1] b c show ?thesis
    by (auto simp: normalBehaviour_def split: prod.splits)
qed

lemma moveParticle_total:
  assumes "wellPlaced p"
  shows "\<exists>p' g'. moveParticle cfg p g = Inr (p', g')"
proof -
  from quarantineLogic_total [OF assms] obtain p1 g1
    where ql: "quarantineLogic cfg p g = Inr (p1, g1)" by blast
  from quarantineLogic_moved [OF ql] assms have "wellPlaced p1" by (simp add: moved_def)
  from normalBehaviour_total [OF this, of g1] ql show ?thesis
    by (auto simp: moveParticle_def split: option.splits prod.splits)
qed

section \<open>Properties of the infection logic\<close>

lemma besidesEpisode_fields:
  assumes "besidesEpisode p' = besidesEpisode p"
  shows "homeCommunity p' = homeCommunity p" "currentCommunity p' = currentCommunity p"
    "quarantined p' = quarantined p" "quarantineEntryAnim p' = quarantineEntryAnim p"
    "goingHomeAnim p' = goingHomeAnim p" "x p' = x p" "y p' = y p" "vx p' = vx p" "vy p' = vy p"
    "atCentre p' = atCentre p"
proof -
  have "homeCommunity (besidesEpisode p') = homeCommunity (besidesEpisode p)" using assms by simp
  then show "homeCommunity p' = homeCommunity p" by (simp add: besidesEpisode_def)
  have "currentCommunity (besidesEpisode p') = currentCommunity (besidesEpisode p)" using assms by simp
  then show "currentCommunity p' = currentCommunity p" by (simp add: besidesEpisode_def)
  have "quarantined (besidesEpisode p') = quarantined (besidesEpisode p)" using assms by simp
  then show "quarantined p' = quarantined p" by (simp add: besidesEpisode_def)
  have "quarantineEntryAnim (besidesEpisode p') = quarantineEntryAnim (besidesEpisode p)" using assms by simp
  then show "quarantineEntryAnim p' = quarantineEntryAnim p" by (simp add: besidesEpisode_def)
  have "goingHomeAnim (besidesEpisode p') = goingHomeAnim (besidesEpisode p)" using assms by simp
  then show "goingHomeAnim p' = goingHomeAnim p" by (simp add: besidesEpisode_def)
  have "x (besidesEpisode p') = x (besidesEpisode p)" using assms by simp
  then show "x p' = x p" by (simp add: besidesEpisode_def)
  have "y (besidesEpisode p') = y (besidesEpisode p)" using assms by simp
  then show "y p' = y p" by (simp add: besidesEpisode_def)
  have "vx (besidesEpisode p') = vx (besidesEpisode p)" using assms by simp
  then show "vx p' = vx p" by (simp add: besidesEpisode_def)
  have "vy (besidesEpisode p') = vy (besidesEpisode p)" using assms by simp
  then show "vy p' = vy p" by (simp add: besidesEpisode_def)
  have "atCentre (besidesEpisode p') = atCentre (besidesEpisode p)" using assms by simp
  then show "atCentre p' = atCentre p" by (simp add: besidesEpisode_def)
qed

lemma besidesEpisode_update [simp]:
  "besidesEpisode (p\<lparr>status := s\<rparr>) = besidesEpisode p"
  "besidesEpisode (p\<lparr>timeInfected := t\<rparr>) = besidesEpisode p"
  "besidesEpisode (p\<lparr>willDie := w\<rparr>) = besidesEpisode p"
  "besidesEpisode (p\<lparr>infectionCount := c\<rparr>) = besidesEpisode p"
  by (simp_all add: besidesEpisode_def)

lemma progressed_refl: "progressed p p"
  by (simp add: progressed_def)

lemma progressed_trans:
  assumes "progressed p q" "progressed q r"
  shows "progressed p r"
proof -
  consider (same) "r = q"
    | (episode) "status q = Infected" "\<not> quarantined q"
        "status r = Infected \<or> status r = Recovered \<or> status r = Dead"
        "besidesEpisode r = besidesEpisode q"
    | (exposed) "status q = Healthy" "r = q\<lparr>status := Exposed, timeInfected := 0\<rparr>"
    using assms(2) unfolding progressed_def by blast
  then show ?thesis
  proof cases
    case same
    with assms(1) show ?thesis by simp
  next
    case episode
    from assms(1) episode(1)
    have "q = p \<or> (status p = Infected \<and> \<not> quarantined p \<and> besidesEpisode q = besidesEpisode p)"
      unfolding progressed_def by auto
    then show ?thesis
    proof
      assume "q = p"
      with assms(2) show ?thesis by simp
    next
      assume "status p = Infected \<and> \<not> quarantined p \<and> besidesEpisode q = besidesEpisode p"
      with episode(3,4) show ?thesis unfolding progressed_def by simp
    qed
  next
    case exposed
    from assms(1) exposed(1) have "q = p" unfolding progressed_def by auto
    with assms(2) show ?thesis by simp
  qed
qed

lemma progressedAll_refl: "progressedAll st st"
  by (simp add: progressedAll_def list_all2_refl progressed_refl)

lemma progressedAll_trans [trans]:
  "progressedAll a b \<Longrightarrow> progressedAll b c \<Longrightarrow> progressedAll a c"
  unfolding progressedAll_def
  by (erule (1) list_all2_trans [rotated]) (rule progressed_trans)

lemma progressedAll_length: "progressedAll st st' \<Longrightarrow> length (particles st') = length (particles st)"
  by (simp add: progressedAll_def list_all2_lengthD)

lemma progressedAll_fold:
  assumes "\<And>a s. progressedAll s (f a s)"
  shows "progressedAll st (fold f as st)"
proof (induction as arbitrary: st)
  case Nil
  show ?case by (simp add: progressedAll_refl)
next
  case (Cons a as)
  have "progressedAll st (f a st)" by (rule assms)
  also have "progressedAll (f a st) (fold f as (f a st))" by (rule Cons.IH)
  finally show ?case by simp
qed

lemma progressedAll_update:
  assumes "particles st' = (particles st)[i := v]" "i < length (particles st) \<longrightarrow> progressed (particles st ! i) v"
  shows "progressedAll st st'"
proof (cases "i < length (particles st)")
  case True
  with assms show ?thesis
    unfolding progressedAll_def
    by (simp add: list_all2_conv_all_nth nth_list_update progressed_refl)
next
  case False
  with assms(1) show ?thesis
    by (simp add: progressedAll_def list_all2_refl progressed_refl list_update_beyond)
qed

lemma contact_progressed: "progressedAll st (contact cfg i j st)"
proof -
  have same: "progressedAll st st'" if "particles st' = particles st" for st'
    using that by (simp add: progressedAll_def list_all2_refl progressed_refl)
  show ?thesis
  proof (cases "status (particles st ! j) = Healthy")
    case False
    then show ?thesis by (simp add: contact_def Let_def progressedAll_refl)
  next
    case True
    have "particles (contact cfg i j st) = particles st
        \<or> particles (contact cfg i j st)
           = (particles st)[j := (particles st ! j)\<lparr>status := Exposed, timeInfected := 0\<rparr>]"
      by (simp add: contact_def Let_def split: prod.splits)
    then show ?thesis
    proof
      assume "particles (contact cfg i j st) = particles st"
      then show ?thesis by (rule same)
    next
      assume "particles (contact cfg i j st)
           = (particles st)[j := (particles st ! j)\<lparr>status := Exposed, timeInfected := 0\<rparr>]"
      moreover have "j < length (particles st) \<longrightarrow>
          progressed (particles st ! j) ((particles st ! j)\<lparr>status := Exposed, timeInfected := 0\<rparr>)"
        using True by (simp add: progressed_def)
      ultimately show ?thesis by (rule progressedAll_update)
    qed
  qed
qed

lemma cellContacts_progressed: "progressedAll st (cellContacts cfg community hash i cell st)"
  by (auto simp: cellContacts_def progressedAll_refl split: prod.splits option.splits
      intro: progressedAll_fold contact_progressed)

lemma nth_update_cases: "P (ps ! i) \<Longrightarrow> P v \<Longrightarrow> P (ps[i := v] ! i)"
  by (cases "i < length ps") (simp_all add: list_update_beyond)

lemma drawWillDie_progressed:
  assumes "status (particles st ! i) = Infected" "\<not> quarantined (particles st ! i)"
  shows "progressedAll st (drawWillDie cfg i st)"
proof (cases "willDie (particles st ! i)")
  case (Some w)
  then show ?thesis by (simp add: drawWillDie_def Let_def progressedAll_refl)
next
  case None
  obtain u g where r: "random (randomSource st) = (u, g)" by (cases "random (randomSource st)")
  with None have "particles (drawWillDie cfg i st)
      = (particles st)[i := (particles st ! i)\<lparr>willDie := Some (u < deathRate cfg), infectionCount := Some 0\<rparr>]"
    by (simp add: drawWillDie_def Let_def)
  moreover have "i < length (particles st) \<longrightarrow> progressed (particles st ! i)
      ((particles st ! i)\<lparr>willDie := Some (u < deathRate cfg), infectionCount := Some 0\<rparr>)"
    using assms by (simp add: progressed_def)
  ultimately show ?thesis by (rule progressedAll_update)
qed

lemma drawWillDie_at:
  assumes "status (particles st ! i) = Infected \<and> \<not> quarantined (particles st ! i)"
  shows "status (particles (drawWillDie cfg i st) ! i) = Infected
     \<and> \<not> quarantined (particles (drawWillDie cfg i st) ! i)"
proof (cases "willDie (particles st ! i)")
  case (Some w)
  with assms show ?thesis by (simp add: drawWillDie_def Let_def)
next
  case None
  obtain u g where r: "random (randomSource st) = (u, g)" by (cases "random (randomSource st)")
  let ?v = "(particles st ! i)\<lparr>willDie := Some (u < deathRate cfg), infectionCount := Some 0\<rparr>"
  from None r have "particles (drawWillDie cfg i st) = (particles st)[i := ?v]"
    by (simp add: drawWillDie_def Let_def)
  moreover have "status ((particles st)[i := ?v] ! i) = Infected
      \<and> \<not> quarantined ((particles st)[i := ?v] ! i)"
    by (rule nth_update_cases) (use assms in simp_all)
  ultimately show ?thesis by simp
qed

lemma infectParticle_progressed: "progressedAll st (infectParticle cfg community hash i st)"
proof (cases "currentCommunity (particles st ! i) \<noteq> community \<or> quarantined (particles st ! i)
    \<or> status (particles st ! i) \<noteq> Infected")
  case True
  then show ?thesis by (simp add: infectParticle_def Let_def progressedAll_refl)
next
  case False
  then have inf: "status (particles st ! i) = Infected"
    and nq: "\<not> quarantined (particles st ! i)" and cc: "currentCommunity (particles st ! i) = community"
    by simp_all
  let ?q = "particles st ! i"
  let ?st1 = "st\<lparr>particles := (particles st)[i := ?q\<lparr>timeInfected := timeInfected ?q + 1\<rparr>]\<rparr>"
  let ?st2 = "drawWillDie cfg i ?st1"
  let ?p = "particles ?st2 ! i"
  have s1: "progressedAll st ?st1"
    by (rule progressedAll_update [where i = i and v = "?q\<lparr>timeInfected := timeInfected ?q + 1\<rparr>"])
      (simp_all add: progressed_def inf nq)
  have "status ((particles st)[i := ?q\<lparr>timeInfected := timeInfected ?q + 1\<rparr>] ! i) = Infected
      \<and> \<not> quarantined ((particles st)[i := ?q\<lparr>timeInfected := timeInfected ?q + 1\<rparr>] ! i)"
    by (rule nth_update_cases) (simp_all add: inf nq)
  then have at1: "status (particles ?st1 ! i) = Infected \<and> \<not> quarantined (particles ?st1 ! i)"
    by simp
  have s2: "progressedAll ?st1 ?st2" using at1 by (simp add: drawWillDie_progressed)
  have at2: "status ?p = Infected \<and> \<not> quarantined ?p"
    using at1 by (rule drawWillDie_at)
  have fin: "progressedAll ?st2 (?st2\<lparr>particles := (particles ?st2)[i := ?p\<lparr>status := s\<rparr>],
        infectedInfectionCounts := m\<rparr>)" if "s = Dead \<or> s = Recovered" for s m
    by (rule progressedAll_update [where i = i and v = "?p\<lparr>status := s\<rparr>"])
      (use that at2 in \<open>auto simp: progressed_def\<close>)
  have cells: "progressedAll ?st2 (fold (cellContacts cfg community hash i) cs ?st2)" for cs
    by (rule progressedAll_fold) (rule cellContacts_progressed)
  have "progressedAll ?st2 (infectParticle cfg community hash i st)"
    using inf nq cc fin cells by (simp add: infectParticle_def progressOrSpread_def Let_def)
  with s1 s2 show ?thesis by (blast intro: progressedAll_trans)
qed

lemma communityPass_progressed: "progressedAll st (communityPass cfg community st)"
  unfolding communityPass_def Let_def
  by (rule progressedAll_fold) (rule infectParticle_progressed)

lemma infectionLogic_progressed: "progressedAll st (infectionLogic cfg st)"
  unfolding infectionLogic_def
  by (rule progressedAll_fold) (rule communityPass_progressed)

section \<open>Properties of a tick\<close>

lemma forEach_each:
  "forEach f as g = Inr (bs, g') \<Longrightarrow> list_all2 (\<lambda>a b. \<exists>g0 g1. f a g0 = Inr (b, g1)) as bs"
proof (induction as arbitrary: g bs)
  case Nil
  then show ?case by simp
next
  case (Cons a as)
  from Cons.prems obtain b g1 bs1 where
    a: "f a g = Inr (b, g1)" and r: "forEach f as g1 = Inr (bs1, g')" and bs: "bs = b # bs1"
    by (auto split: sum.splits prod.splits)
  from Cons.IH [OF r] a bs show ?case by auto
qed

lemma forEach_total:
  assumes "\<And>a g. a \<in> set as \<Longrightarrow> \<exists>b g'. f a g = Inr (b, g')"
  shows "\<exists>bs g'. forEach f as g = Inr (bs, g')"
  using assms
proof (induction as arbitrary: g)
  case Nil
  show ?case by simp
next
  case (Cons a as)
  from Cons.prems [of a g] obtain b g1 where a: "f a g = Inr (b, g1)" by auto
  from Cons.IH [of g1] Cons.prems obtain bs g2 where "forEach f as g1 = Inr (bs, g2)"
    by (metis list.set_intros(2))
  with a show ?case by simp
qed

lemma tick_ticked:
  assumes "tick cfg st = Inr st'"
  shows "list_all2 (ticked cfg) (particles st) (particles st')"
proof -
  from assms obtain ps g where
    m: "forEach (moveParticle cfg) (particles st) (randomSource st) = Inr (ps, g)"
    by (auto simp: tick_def Let_def split: sum.splits)
  let ?st0 = "st\<lparr>timeRef := timeRef st + 1\<rparr>\<lparr>particles := ps, randomSource := g\<rparr>"
  let ?st1 = "infectionLogic cfg ?st0"
  from assms m have st': "particles st' = map (exposedStep cfg) (particles ?st1)"
    by (auto simp: tick_def Let_def)
  have a: "list_all2 (\<lambda>a b. \<exists>g0 g1. moveParticle cfg a g0 = Inr (b, g1)) (particles st) ps"
    using m by (rule forEach_each)
  have b: "list_all2 progressed ps (particles ?st1)"
    using infectionLogic_progressed [of ?st0 cfg] by (simp add: progressedAll_def)
  show ?thesis
    unfolding st' list_all2_conv_all_nth
  proof (intro conjI allI impI)
    show "length (particles st) = length (map (exposedStep cfg) (particles ?st1))"
      using a b by (simp add: list_all2_lengthD)
  next
    fix i assume i: "i < length (particles st)"
    with a have "\<exists>g0 g1. moveParticle cfg (particles st ! i) g0 = Inr (ps ! i, g1)"
      by (simp add: list_all2_conv_all_nth)
    moreover from i a b have "progressed (ps ! i) (particles ?st1 ! i)"
      by (simp add: list_all2_conv_all_nth)
    moreover from i a b have "map (exposedStep cfg) (particles ?st1) ! i = exposedStep cfg (particles ?st1 ! i)"
      by (simp add: list_all2_lengthD)
    ultimately show "ticked cfg (particles st ! i) (map (exposedStep cfg) (particles ?st1) ! i)"
      unfolding ticked_def by metis
  qed
qed

lemma tick_length: "tick cfg st = Inr st' \<Longrightarrow> length (particles st') = length (particles st)"
  by (drule tick_ticked) (simp add: list_all2_lengthD)

lemma tick_total:
  assumes "\<And>p. p \<in> set (particles st) \<Longrightarrow> wellPlaced p"
  shows "\<exists>st'. tick cfg st = Inr st'"
proof -
  have "\<exists>ps g. forEach (moveParticle cfg) (particles st) (randomSource st) = Inr (ps, g)"
    by (rule forEach_total) (simp add: assms moveParticle_total)
  then show ?thesis by (auto simp: tick_def Let_def)
qed

subsection \<open>What a tick does to one agent\<close>

lemma progressed_placed:
  assumes "progressed p p'" "wellPlaced p"
  shows "wellPlaced p'"
proof -
  consider "p' = p" | "besidesEpisode p' = besidesEpisode p"
    | "p' = p\<lparr>status := Exposed, timeInfected := 0\<rparr>"
    using assms(1) unfolding progressed_def by blast
  then show ?thesis
  proof cases
    case 1
    with assms(2) show ?thesis by simp
  next
    case 2
    from besidesEpisode_fields(1-5) [OF 2] assms(2) show ?thesis
      by (simp add: wellPlaced_def)
  next
    case 3
    with assms(2) show ?thesis by (simp add: wellPlaced_def)
  qed
qed

lemma exposedStep_placed: "wellPlaced (exposedStep cfg p) = wellPlaced p"
  by (simp add: exposedStep_def wellPlaced_def Let_def)

lemma ticked_placed:
  assumes "ticked cfg p p'" "wellPlaced p"
  shows "wellPlaced p'"
proof -
  from assms(1) obtain g0 g1 p1 p2 where m: "moveParticle cfg p g0 = Inr (p1, g1)"
    and pr: "progressed p1 p2" and e: "p' = exposedStep cfg p2"
    unfolding ticked_def by blast
  from moveParticle_moved [OF m] assms(2) have "wellPlaced p1" by (simp add: moved_def)
  with pr have "wellPlaced p2" by (rule progressed_placed)
  then show ?thesis by (simp add: e exposedStep_placed)
qed

lemma progressed_advances: "progressed p p' \<Longrightarrow> advances (status p) (status p')"
  unfolding progressed_def advances_def by auto

lemma exposedStep_advances: "advances (status p) (status (exposedStep cfg p))"
  by (simp add: exposedStep_def advances_def Let_def)

lemma advances_trans: "advances a b \<Longrightarrow> advances b c \<Longrightarrow> advances a c"
  unfolding advances_def by auto

lemma advances_refl: "advances a a"
  by (simp add: advances_def)

lemma ticked_advances:
  assumes "ticked cfg p p'"
  shows "advances (status p) (status p')"
proof -
  from assms obtain g0 g1 p1 p2 where m: "moveParticle cfg p g0 = Inr (p1, g1)"
    and pr: "progressed p1 p2" and e: "p' = exposedStep cfg p2"
    unfolding ticked_def by blast
  from moveParticle_moved [OF m] have "status p1 = status p" by (simp add: moved_def sameHealth_def)
  with progressed_advances [OF pr] have "advances (status p) (status p2)" by simp
  then show ?thesis unfolding e using exposedStep_advances by (rule advances_trans)
qed

subsection \<open>Runs\<close>

lemma later_length: "later st st' \<Longrightarrow> length (particles st') = length (particles st)"
  by (induction rule: later.induct) (simp_all add: tick_length)

lemma later_advances:
  "later st st' \<Longrightarrow> i < length (particles st) \<Longrightarrow>
     advances (status (particles st ! i)) (status (particles st' ! i))"
proof (induction rule: later.induct)
  case (now st)
  show ?case by (rule advances_refl)
next
  case (after st st' cfg st'')
  from after.prems later_length [OF after.hyps(1)] have "i < length (particles st')" by simp
  with tick_ticked [OF after.hyps(2)] have "ticked cfg (particles st' ! i) (particles st'' ! i)"
    by (simp add: list_all2_conv_all_nth)
  then have "advances (status (particles st' ! i)) (status (particles st'' ! i))"
    by (rule ticked_advances)
  with after.IH [OF after.prems] show ?case by (rule advances_trans)
qed

section \<open>Properties of the reachable states\<close>

lemma initParticle_total: "\<exists>p g'. initParticle k i g = Inr (p, g')"
proof -
  have "min (int i div PARTICLES_PER_COMMUNITY) (NORMAL_COMMUNITIES - 1) \<le> 8"
    by (simp add: layout_defs)
  from bounds_ok [OF this] show ?thesis
    by (auto simp: initParticle_def Let_def split: prod.splits)
qed

lemma initParticle_placed:
  assumes "initParticle k i g = Inr (p, g')"
  shows "wellPlaced p"
proof -
  have "0 \<le> int i div PARTICLES_PER_COMMUNITY"
    by (simp add: PARTICLES_PER_COMMUNITY_def PARTICLE_COUNT_def layout_defs pos_imp_zdiv_nonneg_iff)
  then have "0 \<le> min (int i div PARTICLES_PER_COMMUNITY) (NORMAL_COMMUNITIES - 1)
      \<and> min (int i div PARTICLES_PER_COMMUNITY) (NORMAL_COMMUNITIES - 1) \<le> 7"
    by (simp add: layout_defs)
  with assms show ?thesis
    by (auto simp: initParticle_def Let_def wellPlaced_def newParticle_def
        split: sum.splits prod.splits)
qed

lemma initialState_placed:
  assumes "initialState n k g = Inr (ps, g')"
  shows "length ps = n \<and> (\<forall>p \<in> set ps. wellPlaced p)"
proof -
  from assms have a: "list_all2 (\<lambda>i p. \<exists>g0 g1. initParticle k i g0 = Inr (p, g1)) [0..<n] ps"
    unfolding initialState_def by (rule forEach_each)
  then have len: "length ps = n" by (auto dest: list_all2_lengthD)
  have "wellPlaced p" if "p \<in> set ps" for p
  proof -
    from that obtain j where "j < length ps" "ps ! j = p" by (auto simp: in_set_conv_nth)
    with a len obtain g0 g1 where "initParticle k ([0..<n] ! j) g0 = Inr (p, g1)"
      by (auto simp: list_all2_conv_all_nth)
    then show ?thesis by (rule initParticle_placed)
  qed
  with len show ?thesis by blast
qed

lemma restartSimulation_total: "\<exists>st. restartSimulation cfg g = Inr st"
proof -
  have "\<exists>ps g'. initialState PARTICLE_COUNT (initialInfected cfg) g = Inr (ps, g')"
    unfolding initialState_def by (rule forEach_total) (rule initParticle_total)
  then show ?thesis by (auto simp: restartSimulation_def)
qed

lemma restartSimulation_state:
  assumes "restartSimulation cfg g = Inr st"
  shows "length (particles st) = PARTICLE_COUNT" "\<forall>p \<in> set (particles st). wellPlaced p"
    "timeRef st = 0" "infectionEvents st = []" "infectedInfectionCounts st = Map.empty"
proof -
  from assms obtain ps g' where i: "initialState PARTICLE_COUNT (initialInfected cfg) g = Inr (ps, g')"
    and st: "st = \<lparr>particles = ps, timeRef = 0, infectionEvents = [],
               infectedInfectionCounts = Map.empty, randomSource = g'\<rparr>"
    by (auto simp: restartSimulation_def split: sum.splits)
  from initialState_placed [OF i] st
  show "length (particles st) = PARTICLE_COUNT" "\<forall>p \<in> set (particles st). wellPlaced p"
    by simp_all
  from st show "timeRef st = 0" "infectionEvents st = []" "infectedInfectionCounts st = Map.empty"
    by simp_all
qed

lemma tick_placed:
  assumes "tick cfg st = Inr st'" "\<forall>p \<in> set (particles st). wellPlaced p"
  shows "\<forall>p \<in> set (particles st'). wellPlaced p"
proof
  fix p' assume "p' \<in> set (particles st')"
  then obtain j where j: "j < length (particles st')" "particles st' ! j = p'"
    by (auto simp: in_set_conv_nth)
  from tick_ticked [OF assms(1)] j
  have t: "ticked cfg (particles st ! j) p'" and "j < length (particles st)"
    by (auto simp: list_all2_conv_all_nth)
  with assms(2) have "wellPlaced (particles st ! j)" by simp
  with t show "wellPlaced p'" by (rule ticked_placed)
qed

lemma reachable_placed:
  "reachable st \<Longrightarrow> length (particles st) = PARTICLE_COUNT \<and> (\<forall>p \<in> set (particles st). wellPlaced p)"
proof (induction rule: reachable.induct)
  case (start cfg g st)
  then show ?case using restartSimulation_state(1,2) by blast
next
  case (step st cfg st')
  then show ?case using tick_length tick_placed by metis
qed

lemma later_placed:
  "later st0 st \<Longrightarrow> \<forall>p \<in> set (particles st0). wellPlaced p \<Longrightarrow> \<forall>p \<in> set (particles st). wellPlaced p"
proof (induction rule: later.induct)
  case (now st)
  then show ?case .
next
  case (after st st' cfg st'')
  from after.IH [OF after.prems] have "\<forall>p \<in> set (particles st'). wellPlaced p" .
  with after.hyps(2) show ?case by (rule tick_placed)
qed

text \<open>From a reachable state every tick returns a state: no exception is thrown.\<close>

lemma reachable_tick_total: "reachable st \<Longrightarrow> \<exists>st'. tick cfg st = Inr st'"
  by (rule tick_total) (simp add: reachable_placed)

lemma ticks_total: "reachable st \<Longrightarrow> \<exists>st'. ticks cfg n st = Inr st' \<and> reachable st'"
proof (induction n arbitrary: st)
  case 0
  then show ?case by simp
next
  case (Suc n)
  from reachable_tick_total [OF Suc.prems] obtain st1 where t: "tick cfg st = Inr st1" by blast
  with Suc.prems have "reachable st1" by (rule reachable.step)
  from Suc.IH [OF this] t show ?case by simp
qed

lemma animate_total: "reachable st \<Longrightarrow> \<exists>st' fr. animate cfg st = Inr (st', fr) \<and> reachable st'"
  using ticks_total [of st cfg "speed cfg"] by (auto simp: animate_def)

lemma ticks_reachable: "reachable st \<Longrightarrow> ticks cfg n st = Inr st' \<Longrightarrow> reachable st'"
  using ticks_total [of st cfg n] by auto

section \<open>Examples\<close>

lemma sqrt_390625: "sqrt 390625 = 625"
  by (rule real_sqrt_unique) simp_all

lemma random_halves: "random halves = (1 / 2, halves)"
  by (simp add: halves_def random_def mkDraw.rep_eq)

lemma moveParticle_detected: "moveParticle cfgQ detected halves = Inr (inTransit, halves)"
  by (simp add: moveParticle_def quarantineLogic_def cfgQ_def detected_def newParticle_def
      initTimeSinceInfected_def drawEligibility_def startQuarantine_def countQuarantineTime_def
      releaseFromQuarantine_def QUARANTINE_COMMUNITY_IDX_def getCommunityBounds_quarantine
      gridCell_def rand_def random_halves inTransit_def
      entryAnimating_def animateEntry_def Let_def sqrt_390625)

lemma infectionLogic_inTransit:
  "infectionLogic cfgQ \<lparr>particles = [inTransit], timeRef = 11, infectionEvents = [],
       infectedInfectionCounts = Map.empty, randomSource = halves\<rparr> = stTransit"
  by (simp add: Let_def infectionLogic_def layout_defs upto.simps inTransit_def stTransit_def
       communityPass_def makeSpatialHash_def infectParticle_def progressOrSpread_def hashStep_def detected_def newParticle_def
       drawWillDie_def cfgQ_def floorDiv_def getNearbyCellCoords_def cellContacts_def
       hashKey_def showInt_def digits.simps contact_def)

lemma tick_stDetect: "tick cfgQ stDetect = Inr stTransit"
proof -
  have "forEach (moveParticle cfgQ) [detected] halves = Inr ([inTransit], halves)"
    by (simp add: moveParticle_detected)
  then show ?thesis
    by (simp add: tick_def stDetect_def Let_def infectionLogic_inTransit)
      (simp add: stTransit_def exposedStep_def inTransit_def detected_def newParticle_def)
qed

lemma tick_unfold:
  assumes "forEach (moveParticle cfg) (particles st) (randomSource st) = Inr (ps, g)"
    "infectionLogic cfg (st\<lparr>timeRef := timeRef st + 1, particles := ps, randomSource := g\<rparr>) = st1"
  shows "tick cfg st = Inr (st1\<lparr>particles := map (exposedStep cfg) (particles st1)\<rparr>)"
  using assms by (simp add: tick_def Let_def)

lemma bounds0: "getCommunityBounds 0 = Inr (gridCell 0 0)"
  using getCommunityBounds_normal [of 0] by simp

lemma sqrt_490000: "sqrt 490000 = 700"
  by (rule real_sqrt_unique) simp_all

lemma moveParticle_arriving: "moveParticle cfgQ arriving halves = Inr (arrived, halves)"
  by (simp add: moveParticle_def quarantineLogic_def cfgQ_def arriving_def arrived_def inTransit_def detected_def newParticle_def
      initTimeSinceInfected_def drawEligibility_def startQuarantine_def countQuarantineTime_def
      releaseFromQuarantine_def QUARANTINE_COMMUNITY_IDX_def
      entryAnimating_def animateEntry_def Let_def)

lemma moveParticle_discharged: "moveParticle cfgQ discharged halves = Inr (leaving, halves)"
  by (simp add: moveParticle_def quarantineLogic_def cfgQ_def discharged_def leaving_def newParticle_def
      initTimeSinceInfected_def drawEligibility_def startQuarantine_def countQuarantineTime_def
      releaseFromQuarantine_def QUARANTINE_COMMUNITY_IDX_def bounds0 gridCell_def layout_defs
      rand_def random_halves
      entryAnimating_def homeAnimating_def animateHome_def Let_def sqrt_490000)

lemma moveParticle_bystander: "moveParticle cfgQ bystander halves = Inr (bystander, halves)"
  by (simp add: moveParticle_def quarantineLogic_def cfgQ_def bystander_def newParticle_def
      initTimeSinceInfected_def drawEligibility_def startQuarantine_def countQuarantineTime_def
      releaseFromQuarantine_def
      entryAnimating_def homeAnimating_def normalBehaviour_def bounds0 gridCell_def
      bounce_def centreEntry_def random_halves CENTRE_VISIT_PROB_def brownian_def rand_def
      randomTravel_def TRAVEL_PROB_def visitExpiry_def Let_def)

lemma move_ward:
  "forEach (moveParticle cfgQ) [detected, arriving, discharged, bystander] halves
     = Inr ([inTransit, arrived, leaving, bystander], halves)"
  by (simp add: moveParticle_detected moveParticle_arriving moveParticle_discharged
      moveParticle_bystander)

lemma infectionLogic_ward:
  "infectionLogic cfgQ \<lparr>particles = [inTransit, arrived, leaving, bystander], timeRef = 11,
       infectionEvents = [], infectedInfectionCounts = Map.empty, randomSource = halves\<rparr>
     = stWardNext"
  by (simp add: Let_def infectionLogic_def layout_defs upto.simps stWardNext_def arrived_def arriving_def
       leaving_def discharged_def inTransit_def bystander_def
       communityPass_def makeSpatialHash_def infectParticle_def progressOrSpread_def hashStep_def detected_def newParticle_def
       drawWillDie_def cfgQ_def floorDiv_def getNearbyCellCoords_def cellContacts_def
       hashKey_def showInt_def digits.simps contact_def random_halves infectionCountOf_def)

lemma tick_stWard: "tick cfgQ stWard = Inr stWardNext"
proof -
  have m: "forEach (moveParticle cfgQ) (particles stWard) (randomSource stWard)
     = Inr ([inTransit, arrived, leaving, bystander], halves)"
    by (simp only: stWard_def Sim.select_convs move_ward)
  have i: "infectionLogic cfgQ (stWard\<lparr>timeRef := timeRef stWard + 1,
       particles := [inTransit, arrived, leaving, bystander], randomSource := halves\<rparr>) = stWardNext"
    using infectionLogic_ward by (simp add: stWard_def)
  show ?thesis
    unfolding tick_unfold [OF m i]
    by (simp add: stWardNext_def exposedStep_def arrived_def arriving_def leaving_def discharged_def
        inTransit_def detected_def bystander_def newParticle_def)
qed

section \<open>The quarantine region and the quarantine flags\<close>

text \<open>
  C3 (as stated): at every tick the number of agents in community 8 equals the number of
  agents with a pending entry animation, the flag \<open>quarantined\<close>, or a pending going-home
  animation. The tick that starts the transit of a detected agent leaves it in its origin
  community: before the tick both numbers are 0, after it they are 0 and 1.
\<close>

theorem C3_entry_transit_counterexample:
  "tick cfgQ stDetect = Inr stTransit
   \<and> length (filter (\<lambda>p. currentCommunity p = QUARANTINE_COMMUNITY_IDX) (particles stDetect)) = 0
   \<and> length (filter (\<lambda>p. quarantineEntryAnim p \<noteq> None \<or> quarantined p \<or> goingHomeAnim p \<noteq> None)
               (particles stDetect)) = 0
   \<and> length (filter (\<lambda>p. currentCommunity p = QUARANTINE_COMMUNITY_IDX) (particles stTransit)) = 0
   \<and> length (filter (\<lambda>p. quarantineEntryAnim p \<noteq> None \<or> quarantined p \<or> goingHomeAnim p \<noteq> None)
               (particles stTransit)) = 1"
  by (simp add: tick_stDetect)
    (simp add: stDetect_def stTransit_def inTransit_def detected_def newParticle_def
      QUARANTINE_COMMUNITY_IDX_def)

lemma placed_counts:
  assumes "\<forall>p \<in> set ps. wellPlaced p"
  shows "filter (\<lambda>p. currentCommunity p = QUARANTINE_COMMUNITY_IDX) ps
       = filter (\<lambda>p. quarantined p \<or> goingHomeAnim p \<noteq> None) ps"
proof (rule filter_cong [OF refl])
  fix p assume "p \<in> set ps"
  with assms have "wellPlaced p" by simp
  then show "(currentCommunity p = QUARANTINE_COMMUNITY_IDX) = (quarantined p \<or> goingHomeAnim p \<noteq> None)"
    by (auto simp: wellPlaced_def QUARANTINE_COMMUNITY_IDX_def split: if_splits)
qed

text \<open>
  C3 (amended): in every state of a run (a state reached from a restart, or any state
  later than one in which every agent is well placed: its home is a normal community, a
  quarantined agent is in community 8 with no pending entry animation, any other agent is
  in a normal community with no pending going-home animation) the number of agents in
  community 8 equals the number of agents with the flag \<open>quarantined\<close> or a pending
  going-home animation (Quarantined or EnRouteHome); an agent with a pending entry
  animation (EnRouteToQuarantine) is still in a normal community.
\<close>

theorem C3_quarantine_region_count:
  "reachable st \<or> ((\<forall>p \<in> set (particles st0). wellPlaced p) \<and> later st0 st) \<Longrightarrow>
     length (filter (\<lambda>p. currentCommunity p = QUARANTINE_COMMUNITY_IDX) (particles st))
       = length (filter (\<lambda>p. quarantined p \<or> goingHomeAnim p \<noteq> None) (particles st))
     \<and> (\<forall>p \<in> set (particles st). quarantineEntryAnim p \<noteq> None \<longrightarrow>
           0 \<le> currentCommunity p \<and> currentCommunity p \<le> 7)"
proof -
  assume "reachable st \<or> ((\<forall>p \<in> set (particles st0). wellPlaced p) \<and> later st0 st)"
  then have w: "\<forall>p \<in> set (particles st). wellPlaced p"
  proof
    assume "reachable st"
    then show ?thesis by (simp add: reachable_placed)
  next
    assume "(\<forall>p \<in> set (particles st0). wellPlaced p) \<and> later st0 st"
    then show ?thesis using later_placed by blast
  qed
  then have "filter (\<lambda>p. currentCommunity p = QUARANTINE_COMMUNITY_IDX) (particles st)
       = filter (\<lambda>p. quarantined p \<or> goingHomeAnim p \<noteq> None) (particles st)"
    by (rule placed_counts)
  moreover have "\<forall>p \<in> set (particles st). quarantineEntryAnim p \<noteq> None \<longrightarrow>
           0 \<le> currentCommunity p \<and> currentCommunity p \<le> 7"
    using w by (auto simp: wellPlaced_def split: if_splits)
  ultimately show ?thesis by simp
qed

lemma ward_placed: "\<forall>p \<in> set (particles stWard). wellPlaced p"
  by (simp add: stWard_def wellPlaced_def detected_def arriving_def inTransit_def discharged_def
      bystander_def newParticle_def QUARANTINE_COMMUNITY_IDX_def)

lemma ward_fields:
  "quarantineEntryAnim (particles stWardNext ! 0) \<noteq> None"
  "\<not> quarantined (particles stWardNext ! 0)"
  "quarantined (particles stWardNext ! 1)" "quarantineEntryAnim (particles stWardNext ! 1) = None"
  "status (particles stWardNext ! 1) = Infected"
  "quarantined (particles stWardNext ! 2)" "goingHomeAnim (particles stWardNext ! 2) \<noteq> None"
  "status (particles stWardNext ! 2) = Recovered"
  "length (filter (\<lambda>p. quarantined p \<or> goingHomeAnim p \<noteq> None) (particles stWardNext)) = 2"
  "length (filter (\<lambda>p. quarantineEntryAnim p \<noteq> None \<or> quarantined p \<or> goingHomeAnim p \<noteq> None)
       (particles stWardNext)) = 3"
  by (simp_all add: stWardNext_def arrived_def arriving_def leaving_def discharged_def
      inTransit_def detected_def bystander_def newParticle_def)

theorem C3_quarantine_region_count_witness:
  "particles stWard = [detected, arriving, discharged, bystander]
   \<and> wellPlaced detected \<and> wellPlaced arriving \<and> wellPlaced discharged \<and> wellPlaced bystander
   \<and> tick cfgQ stWard = Inr stWardNext \<and> later stWard stWardNext
   \<and> quarantineEntryAnim (particles stWardNext ! 0) \<noteq> None
   \<and> \<not> quarantined (particles stWardNext ! 0)
   \<and> 0 \<le> currentCommunity (particles stWardNext ! 0)
   \<and> currentCommunity (particles stWardNext ! 0) \<le> 7
   \<and> quarantined (particles stWardNext ! 1)
   \<and> goingHomeAnim (particles stWardNext ! 2) \<noteq> None
   \<and> length (filter (\<lambda>p. quarantined p \<or> goingHomeAnim p \<noteq> None) (particles stWardNext)) = 2
   \<and> length (filter (\<lambda>p. currentCommunity p = QUARANTINE_COMMUNITY_IDX) (particles stWardNext)) = 2
   \<and> reachable (projr (restartSimulation cfgQ halves))
   \<and> length (filter (\<lambda>p. currentCommunity p = QUARANTINE_COMMUNITY_IDX)
        (particles (projr (restartSimulation cfgQ halves))))
     = length (filter (\<lambda>p. quarantined p \<or> goingHomeAnim p \<noteq> None)
        (particles (projr (restartSimulation cfgQ halves))))"
proof -
  have l: "later stWard stWardNext"
    by (rule later.after [OF later.now tick_stWard])
  have n: "particles stWardNext ! 0 \<in> set (particles stWardNext)"
    by (simp add: stWardNext_def)
  from C3_quarantine_region_count [of stWardNext stWard] ward_placed l
  have c: "length (filter (\<lambda>p. currentCommunity p = QUARANTINE_COMMUNITY_IDX) (particles stWardNext))
       = length (filter (\<lambda>p. quarantined p \<or> goingHomeAnim p \<noteq> None) (particles stWardNext))"
    and e: "\<forall>p \<in> set (particles stWardNext). quarantineEntryAnim p \<noteq> None \<longrightarrow>
           0 \<le> currentCommunity p \<and> currentCommunity p \<le> 7"
    by blast+
  from e n ward_fields(1)
  have b: "0 \<le> currentCommunity (particles stWardNext ! 0)
     \<and> currentCommunity (particles stWardNext ! 0) \<le> 7" by blast
  obtain st where st: "restartSimulation cfgQ halves = Inr st"
    using restartSimulation_total by blast
  then have r: "reachable st" by (rule reachable.start)
  from C3_quarantine_region_count [of st st] r
  have "length (filter (\<lambda>p. currentCommunity p = QUARANTINE_COMMUNITY_IDX) (particles st))
       = length (filter (\<lambda>p. quarantined p \<or> goingHomeAnim p \<noteq> None) (particles st))"
    by blast
  with r st have s: "reachable (projr (restartSimulation cfgQ halves))
   \<and> length (filter (\<lambda>p. currentCommunity p = QUARANTINE_COMMUNITY_IDX)
        (particles (projr (restartSimulation cfgQ halves))))
     = length (filter (\<lambda>p. quarantined p \<or> goingHomeAnim p \<noteq> None)
        (particles (projr (restartSimulation cfgQ halves))))" by simp
  from c have c2: "length (filter (\<lambda>p. currentCommunity p = QUARANTINE_COMMUNITY_IDX) (particles stWardNext)) = 2"
    by (simp only: ward_fields(9))
  have p: "particles stWard = [detected, arriving, discharged, bystander]"
    by (simp add: stWard_def)
  have wp: "wellPlaced detected \<and> wellPlaced arriving \<and> wellPlaced discharged \<and> wellPlaced bystander"
    using ward_placed by (simp add: p)
  show ?thesis
    using p wp tick_stWard l ward_fields(1,2,3,7,9) b c2 s by blast
qed


section \<open>The counts of a frame\<close>

lemma countParticle_sums:
  "quarantinedCount (countParticle p c) = quarantinedCount c + (if quarantined p then 1 else 0)"
  "statusSum (countParticle p c) = statusSum c + (if quarantined p then 0 else 1)"
  by (cases "status p"; simp add: countParticle_def statusSum_def)+

lemma fold_countParticle:
  "quarantinedCount (fold countParticle ps c) = quarantinedCount c + length (filter quarantined ps)
   \<and> statusSum (fold countParticle ps c) = statusSum c + length (filter (\<lambda>p. \<not> quarantined p) ps)"
  by (induction ps arbitrary: c) (simp_all add: countParticle_sums)

lemma countAll_sums:
  "quarantinedCount (countAll ps) = length (filter quarantined ps)"
  "statusSum (countAll ps) = length (filter (\<lambda>p. \<not> quarantined p) ps)"
  using fold_countParticle [of ps "\<lparr>healthy = 0, exposed = 0, infected = 0, recovered = 0,
    dead = 0, quarantinedCount = 0\<rparr>"]
  by (simp_all add: countAll_def statusSum_def)

lemma countAll_total: "statusSum (countAll ps) + quarantinedCount (countAll ps) = length ps"
  by (simp add: countAll_sums sum_length_filter_compl add.commute)

text \<open>
  C4 (as stated): the five per-status counts of every snapshot sum to 500, also when some
  agents are quarantined. For 499 healthy agents and one confined agent the five counts
  sum to 499: the confined agent is counted as quarantined only.
\<close>

theorem C4_quarantined_counterexample:
  "length (replicate 499 (newParticle 100 100 0 0 False 0) @ [confined]) = PARTICLE_COUNT
   \<and> healthy (countAll (replicate 499 (newParticle 100 100 0 0 False 0) @ [confined]))
     + exposed (countAll (replicate 499 (newParticle 100 100 0 0 False 0) @ [confined]))
     + infected (countAll (replicate 499 (newParticle 100 100 0 0 False 0) @ [confined]))
     + recovered (countAll (replicate 499 (newParticle 100 100 0 0 False 0) @ [confined]))
     + dead (countAll (replicate 499 (newParticle 100 100 0 0 False 0) @ [confined])) = 499"
proof -
  have "statusSum (countAll (replicate 499 (newParticle 100 100 0 0 False 0) @ [confined])) = 499"
    by (simp add: countAll_sums confined_def newParticle_def)
  then show ?thesis by (simp add: statusSum_def PARTICLE_COUNT_def)
qed

text \<open>
  C4 (amended): for every emitted snapshot of a run, the per-status counts together with
  the quarantined count (healthy + exposed + infected + recovered + dead + quarantined)
  equal the fixed total agent count 500; an agent with the flag \<open>quarantined\<close> is counted
  as quarantined and under no status, so the five per-status counts alone sum to 500 less
  the number of quarantined agents.
\<close>

theorem C4_counts_conserved:
  "reachable st \<Longrightarrow> animate cfg st = Inr (st', fr) \<Longrightarrow>
     healthy (counts fr) + exposed (counts fr) + infected (counts fr) + recovered (counts fr)
       + dead (counts fr) + quarantinedCount (counts fr) = PARTICLE_COUNT
     \<and> healthy (counts fr) + exposed (counts fr) + infected (counts fr) + recovered (counts fr)
       + dead (counts fr) = PARTICLE_COUNT - length (filter quarantined (particles st'))"
proof -
  assume r: "reachable st" and a: "animate cfg st = Inr (st', fr)"
  from a obtain t: "ticks cfg (speed cfg) st = Inr st'" and fr: "counts fr = countAll (particles st')"
    by (auto simp: animate_def split: sum.splits)
  from ticks_reachable [OF r t] have len: "length (particles st') = PARTICLE_COUNT"
    by (simp add: reachable_placed)
  from countAll_total [of "particles st'"] len
  have "statusSum (counts fr) + quarantinedCount (counts fr) = PARTICLE_COUNT" by (simp add: fr)
  moreover have "quarantinedCount (counts fr) = length (filter quarantined (particles st'))"
    by (simp add: fr countAll_sums)
  ultimately show ?thesis by (simp add: statusSum_def)
qed

theorem C4_counts_conserved_witness:
  "reachable (projr (restartSimulation cfgQ halves))
   \<and> \<not> isl (animate cfgQ (projr (restartSimulation cfgQ halves)))
   \<and> healthy (counts (snd (projr (animate cfgQ (projr (restartSimulation cfgQ halves))))))
     + exposed (counts (snd (projr (animate cfgQ (projr (restartSimulation cfgQ halves))))))
     + infected (counts (snd (projr (animate cfgQ (projr (restartSimulation cfgQ halves))))))
     + recovered (counts (snd (projr (animate cfgQ (projr (restartSimulation cfgQ halves))))))
     + dead (counts (snd (projr (animate cfgQ (projr (restartSimulation cfgQ halves))))))
     + quarantinedCount (counts (snd (projr (animate cfgQ (projr (restartSimulation cfgQ halves))))))
     = 500"
proof -
  obtain st where st: "restartSimulation cfgQ halves = Inr st"
    using restartSimulation_total by blast
  then have r: "reachable st" by (rule reachable.start)
  from animate_total [OF r] obtain st' fr where a: "animate cfgQ st = Inr (st', fr)" by blast
  from C4_counts_conserved [OF r a] r st a show ?thesis by (simp add: PARTICLE_COUNT_def)
qed

section \<open>Recovered and Dead are final\<close>

text \<open>
  C9: once the status of an agent is Recovered or Dead, no later tick changes it; and an
  agent that is Exposed at a later tick was Healthy or Exposed before: only Healthy agents
  become Exposed, so a Recovered agent is never infected again.
\<close>

theorem C9_final_status:
  "later st st' \<Longrightarrow> i < length (particles st) \<Longrightarrow>
     (status (particles st ! i) = Recovered \<or> status (particles st ! i) = Dead \<longrightarrow>
        status (particles st' ! i) = status (particles st ! i))
     \<and> (status (particles st' ! i) = Exposed \<longrightarrow>
        status (particles st ! i) = Healthy \<or> status (particles st ! i) = Exposed)"
proof -
  assume "later st st'" "i < length (particles st)"
  then have "advances (status (particles st ! i)) (status (particles st' ! i))"
    by (rule later_advances)
  then show ?thesis by (auto simp: advances_def)
qed

section \<open>Examples of ticks\<close>

lemma random_half: "random (half ## g) = (1 / 2, g)"
  by (simp add: half_def random_def mkDraw.rep_eq)

lemma random_zeros: "random zeros = (0, zeros)"
  by (simp add: zeros_def random_def mkDraw.rep_eq)

text \<open>An agent at rest inside community 0 stays where it is when its four draws are 1/2.\<close>

lemma rest_in_place:
  assumes "p = (newParticle a b 0 0 s 0)\<lparr>status := h, willDie := w\<rparr>"
    "41 \<le> a" "a \<le> 252" "41 \<le> b" "b \<le> 232"
  shows "moveParticle cfgPlain p (half ## half ## half ## half ## g) = Inr (p, g)"
  using assms(2-)
  by (simp add: assms(1) moveParticle_def quarantineLogic_def cfgPlain_def newParticle_def
      entryAnimating_def homeAnimating_def normalBehaviour_def bounds0 gridCell_def
      bounce_def centreEntry_def random_half CENTRE_VISIT_PROB_def brownian_def rand_def
      randomTravel_def TRAVEL_PROB_def visitExpiry_def Let_def)

lemma move_trio:
  "forEach (moveParticle cfgPlain) [source, neighbour, immune]
     ([half, half, half, half, half, half, half, half, half, half, half, half] @- zeros)
   = Inr ([source, neighbour, immune], zeros)"
proof -
  have s: "moveParticle cfgPlain source (half ## half ## half ## half ## g) = Inr (source, g)" for g
    by (rule rest_in_place [where a = 100 and b = 100 and s = True and h = Infected and w = "Some False"])
      (simp_all add: source_def newParticle_def)
  have n: "moveParticle cfgPlain neighbour (half ## half ## half ## half ## g) = Inr (neighbour, g)" for g
    by (rule rest_in_place [where a = 103 and b = 104 and s = False and h = Healthy and w = None])
      (simp_all add: neighbour_def newParticle_def)
  have i: "moveParticle cfgPlain immune (half ## half ## half ## half ## g) = Inr (immune, g)" for g
    by (rule rest_in_place [where a = 100 and b = 100 and s = False and h = Recovered and w = None])
      (simp_all add: immune_def newParticle_def)
  show ?thesis by (simp add: s n i)
qed

lemma infect_trio:
  "infectionLogic cfgPlain \<lparr>particles = [source, neighbour, immune], timeRef = 1, infectionEvents = [],
       infectedInfectionCounts = Map.empty, randomSource = zeros\<rparr>
   = \<lparr>particles = [source\<lparr>timeInfected := 1\<rparr>, neighbour\<lparr>status := Exposed, timeInfected := 0\<rparr>, immune],
       timeRef = 1, infectionEvents = [\<lparr>infectorIndex = 0, time = 1\<rparr>],
       infectedInfectionCounts = [0 \<mapsto> 1], randomSource = zeros\<rparr>"
  by (simp add: Let_def infectionLogic_def layout_defs upto.simps source_def neighbour_def immune_def
       communityPass_def makeSpatialHash_def infectParticle_def progressOrSpread_def hashStep_def newParticle_def
       drawWillDie_def cfgPlain_def floorDiv_def getNearbyCellCoords_def cellContacts_def
       hashKey_def showInt_def digits.simps contact_def random_zeros infectionCountOf_def)

lemma tick_stTrio: "tick cfgPlain stTrio = Inr stTrioNext"
proof -
  have m: "forEach (moveParticle cfgPlain) (particles stTrio) (randomSource stTrio)
      = Inr ([source, neighbour, immune], zeros)"
    by (simp only: stTrio_def Sim.select_convs move_trio)
  have i: "infectionLogic cfgPlain
        (stTrio\<lparr>timeRef := timeRef stTrio + 1, particles := [source, neighbour, immune],
           randomSource := zeros\<rparr>)
      = \<lparr>particles = [source\<lparr>timeInfected := 1\<rparr>, neighbour\<lparr>status := Exposed, timeInfected := 0\<rparr>, immune],
          timeRef = 1, infectionEvents = [\<lparr>infectorIndex = 0, time = 1\<rparr>],
          infectedInfectionCounts = [0 \<mapsto> 1], randomSource = zeros\<rparr>"
    by (simp add: stTrio_def infect_trio)
  show ?thesis
    unfolding tick_unfold [OF m i]
    by (simp add: stTrioNext_def exposedStep_def source_def neighbour_def immune_def newParticle_def
      cfgPlain_def)
qed

theorem C9_final_status_witness:
  "later stTrio stTrioNext
   \<and> status (particles stTrio ! 2) = Recovered \<and> status (particles stTrioNext ! 2) = Recovered
   \<and> status (particles stTrioNext ! 1) = Exposed \<and> status (particles stTrio ! 1) = Healthy"
proof -
  have l: "later stTrio stTrioNext" using later.now tick_stTrio by (rule later.after)
  have "status (particles stTrio ! 2) = Recovered" "status (particles stTrioNext ! 1) = Exposed"
    by (simp_all add: stTrio_def stTrioNext_def immune_def neighbour_def)
  with l C9_final_status [of stTrio stTrioNext 2] C9_final_status [of stTrio stTrioNext 1]
  show ?thesis by (simp add: stTrio_def neighbour_def newParticle_def)
qed

section \<open>The reproduction estimate\<close>

lemma fold_setAdd:
  "distinct acc \<Longrightarrow> distinct (fold setAdd as acc) \<and> set (fold setAdd as acc) = set acc \<union> set as"
proof (induction as arbitrary: acc)
  case Nil
  then show ?case by simp
next
  case (Cons a as)
  have "distinct (setAdd a acc)" "set (setAdd a acc) = insert a (set acc)"
    using Cons.prems by (auto simp: setAdd_def)
  with Cons.IH [of "setAdd a acc"] show ?case by auto
qed

lemma activeInfectors_set:
  "distinct (activeInfectors st)" "set (activeInfectors st) = recentSources st"
  using fold_setAdd [of "[]" "map infectorIndex (filter (\<lambda>e. time e > timeRef st - 50) (infectionEvents st))"]
  by (auto simp: activeInfectors_def recentSources_def Let_def)

lemma fold_total: "fold (\<lambda>a (t::int). t + f a) as t0 = t0 + sum_list (map f as)"
  by (induction as arbitrary: t0) simp_all

text \<open>
  C6: the estimate computed by the program is the mean, over the distinct sources with an
  event in the trailing window of 50 ticks, of the count recorded for each source; it is 0
  when no source is in the window, and so in particular in the state of a restart, where
  no event has been recorded.
\<close>

theorem C6_reproduction_estimate:
  "newRt st = specRt st
   \<and> (recentSources st = {} \<longrightarrow> newRt st = 0)
   \<and> (restartSimulation cfg g = Inr st \<longrightarrow> newRt st = 0)"
proof -
  let ?c = "infectionCountOf (infectedInfectionCounts st)"
  have total: "fold (\<lambda>infector total. total + ?c infector) (activeInfectors st) 0
      = (\<Sum>s \<in> recentSources st. ?c s)"
    using activeInfectors_set [of st]
    by (simp add: fold_total sum_list_distinct_conv_sum_set)
  have len: "length (activeInfectors st) = card (recentSources st)"
    using activeInfectors_set [of st] by (metis distinct_card)
  have empty: "recentSources st = {} \<longleftrightarrow> \<not> length (activeInfectors st) > 0"
    using activeInfectors_set(2) [of st] by auto
  have eq: "newRt st = specRt st"
    unfolding newRt_def specRt_def Let_def total len
    using empty len by simp
  moreover have "recentSources st = {} \<longrightarrow> newRt st = 0"
    unfolding eq by (simp add: specRt_def)
  moreover have "restartSimulation cfg g = Inr st \<longrightarrow> newRt st = 0"
  proof
    assume "restartSimulation cfg g = Inr st"
    then have "infectionEvents st = []" by (rule restartSimulation_state(4))
    then have "recentSources st = {}" by (simp add: recentSources_def)
    then show "newRt st = 0" unfolding eq by (simp add: specRt_def)
  qed
  ultimately show ?thesis by blast
qed

theorem C6_reproduction_estimate_witness:
  "newRt stTrioNext = 1 \<and> specRt stTrioNext = 1
   \<and> recentSources stTrio = {} \<and> newRt stTrio = 0
   \<and> newRt (projr (restartSimulation cfgPlain halves)) = 0"
proof -
  have a: "newRt stTrioNext = 1"
    by (simp add: newRt_def activeInfectors_def stTrioNext_def Let_def setAdd_def infectionCountOf_def)
  have b: "recentSources stTrio = {}" by (simp add: recentSources_def stTrio_def)
  obtain st where st: "restartSimulation cfgPlain halves = Inr st"
    using restartSimulation_total by blast
  from C6_reproduction_estimate [of stTrioNext cfgPlain halves] a
  have a': "specRt stTrioNext = 1" by simp
  from C6_reproduction_estimate [of stTrio cfgPlain halves] b
  have b': "newRt stTrio = 0" by blast
  from C6_reproduction_estimate [of st cfgPlain halves] st
  have c': "newRt st = 0" by blast
  from a a' b b' c' st show ?thesis by simp
qed

section \<open>One transmission attempt\<close>

text \<open>
  C5: for a source \<open>i\<close> and a Healthy candidate \<open>j\<close> of the same region, the attempt
  changes nothing and draws nothing unless both agents are at the centre or neither is,
  and the squared distance is strictly below the squared radius; otherwise exactly one
  number is drawn and the attempt succeeds when it is below a tenth of the configured
  probability. A failed draw changes nothing else. A successful draw makes the candidate
  Exposed with \<open>timeInfected\<close> 0, appends the event of source \<open>i\<close> at the current time,
  raises the count of the source by one, and leaves every other agent and count as it was.
\<close>

theorem C5_transmission_attempt:
  assumes "i \<noteq> j" "j < length (particles st)" "status (particles st ! j) = Healthy"
    "currentCommunity (particles st ! i) = currentCommunity (particles st ! j)"
  shows
    "(atCentre (particles st ! i) \<noteq> atCentre (particles st ! j) \<or> \<not> inRange cfg st i j
        \<longrightarrow> contact cfg i j st = st)
     \<and> (atCentre (particles st ! i) = atCentre (particles st ! j) \<and> inRange cfg st i j
          \<and> \<not> contactDraw st < infectionProbability cfg / 10
        \<longrightarrow> contact cfg i j st = st\<lparr>randomSource := snd (random (randomSource st))\<rparr>)
     \<and> (atCentre (particles st ! i) = atCentre (particles st ! j) \<and> inRange cfg st i j
          \<and> contactDraw st < infectionProbability cfg / 10
        \<longrightarrow> status (particles (contact cfg i j st) ! j) = Exposed
          \<and> timeInfected (particles (contact cfg i j st) ! j) = 0
          \<and> infectionEvents (contact cfg i j st)
              = infectionEvents st @ [\<lparr>infectorIndex = i, time = timeRef st\<rparr>]
          \<and> infectionCountOf (infectedInfectionCounts (contact cfg i j st)) i
              = infectionCountOf (infectedInfectionCounts st) i + 1
          \<and> (\<forall>k. k \<noteq> j \<longrightarrow> particles (contact cfg i j st) ! k = particles st ! k)
          \<and> (\<forall>k. k \<noteq> i \<longrightarrow> infectedInfectionCounts (contact cfg i j st) k
                              = infectedInfectionCounts st k)
          \<and> randomSource (contact cfg i j st) = snd (random (randomSource st)))"
proof (intro conjI impI)
  assume "atCentre (particles st ! i) \<noteq> atCentre (particles st ! j) \<or> \<not> inRange cfg st i j"
  then show "contact cfg i j st = st"
    by (auto simp: contact_def inRange_def Let_def)
next
  assume "atCentre (particles st ! i) = atCentre (particles st ! j) \<and> inRange cfg st i j
          \<and> \<not> contactDraw st < infectionProbability cfg / 10"
  with assms show "contact cfg i j st = st\<lparr>randomSource := snd (random (randomSource st))\<rparr>"
    by (auto simp: contact_def inRange_def contactDraw_def Let_def split: prod.splits)
next
  assume a: "atCentre (particles st ! i) = atCentre (particles st ! j) \<and> inRange cfg st i j
          \<and> contactDraw st < infectionProbability cfg / 10"
  obtain u g where r: "random (randomSource st) = (u, g)" by (cases "random (randomSource st)")
  with a have u: "u < infectionProbability cfg / 10" by (simp add: contactDraw_def)
  from a assms(4) have c: "(atCentre (particles st ! i) \<and> atCentre (particles st ! j)
          \<and> currentCommunity (particles st ! i) = currentCommunity (particles st ! j))
        \<or> (\<not> atCentre (particles st ! i) \<and> \<not> atCentre (particles st ! j))"
    by auto
  from a have d: "(x (particles st ! i) - x (particles st ! j)) * (x (particles st ! i) - x (particles st ! j))
      + (y (particles st ! i) - y (particles st ! j)) * (y (particles st ! i) - y (particles st ! j))
      < real (infectionRadius cfg) * real (infectionRadius cfg)"
    by (simp add: inRange_def)
  have e: "contact cfg i j st =
      st\<lparr>particles := (particles st)[j := (particles st ! j)\<lparr>status := Exposed, timeInfected := 0\<rparr>],
         infectionEvents := infectionEvents st @ [\<lparr>infectorIndex = i, time = timeRef st\<rparr>],
         infectedInfectionCounts :=
           (infectedInfectionCounts st)(i \<mapsto> infectionCountOf (infectedInfectionCounts st) i + 1),
         randomSource := g\<rparr>"
    using assms(1,3) c d r u by (simp add: contact_def Let_def)
  show "status (particles (contact cfg i j st) ! j) = Exposed"
    "timeInfected (particles (contact cfg i j st) ! j) = 0"
    "infectionEvents (contact cfg i j st)
              = infectionEvents st @ [\<lparr>infectorIndex = i, time = timeRef st\<rparr>]"
    "infectionCountOf (infectedInfectionCounts (contact cfg i j st)) i
              = infectionCountOf (infectedInfectionCounts st) i + 1"
    "\<forall>k. k \<noteq> j \<longrightarrow> particles (contact cfg i j st) ! k = particles st ! k"
    "\<forall>k. k \<noteq> i \<longrightarrow> infectedInfectionCounts (contact cfg i j st) k
                              = infectedInfectionCounts st k"
    "randomSource (contact cfg i j st) = snd (random (randomSource st))"
    using assms(2) r by (simp_all add: e infectionCountOf_def)
qed

theorem C5_transmission_attempt_witness:
  "(0::nat) \<noteq> 1 \<and> 1 < length (particles stContact) \<and> status (particles stContact ! 1) = Healthy
   \<and> inRange cfgPlain stContact 0 1 \<and> contactDraw stContact < infectionProbability cfgPlain / 10
   \<and> status (particles (contact cfgPlain 0 1 stContact) ! 1) = Exposed
   \<and> infectionEvents (contact cfgPlain 0 1 stContact) = [\<lparr>infectorIndex = 0, time = 1\<rparr>]
   \<and> infectedInfectionCounts (contact cfgPlain 0 1 stContact) 0 = Some 1
   \<and> \<not> contactDraw (stContact\<lparr>randomSource := halves\<rparr>) < infectionProbability cfgPlain / 10
   \<and> contact cfgPlain 0 1 (stContact\<lparr>randomSource := halves\<rparr>) = stContact\<lparr>randomSource := halves\<rparr>
   \<and> \<not> inRange (cfgPlain\<lparr>infectionRadius := 5\<rparr>) stContact 0 1
   \<and> contact (cfgPlain\<lparr>infectionRadius := 5\<rparr>) 0 1 stContact = stContact"
proof -
  have h: "(0::nat) \<noteq> 1" "1 < length (particles stContact)" "status (particles stContact ! 1) = Healthy"
    "currentCommunity (particles stContact ! 0) = currentCommunity (particles stContact ! 1)"
    "atCentre (particles stContact ! 0) = atCentre (particles stContact ! 1)"
    by (simp_all add: stContact_def source_def neighbour_def newParticle_def)
  have r: "inRange cfgPlain stContact 0 1" "\<not> inRange (cfgPlain\<lparr>infectionRadius := 5\<rparr>) stContact 0 1"
    by (simp_all add: inRange_def stContact_def source_def neighbour_def newParticle_def cfgPlain_def)
  have d: "contactDraw stContact < infectionProbability cfgPlain / 10"
    "\<not> contactDraw (stContact\<lparr>randomSource := halves\<rparr>) < infectionProbability cfgPlain / 10"
    by (simp_all add: contactDraw_def stContact_def random_zeros random_halves cfgPlain_def)
  have c: "infectedInfectionCounts stContact 0 = None" "infectionEvents stContact = []" "timeRef stContact = 1"
    by (simp_all add: stContact_def)
  have h2: "1 < length (particles (stContact\<lparr>randomSource := halves\<rparr>))"
    "status (particles (stContact\<lparr>randomSource := halves\<rparr>) ! 1) = Healthy"
    "currentCommunity (particles (stContact\<lparr>randomSource := halves\<rparr>) ! 0)
       = currentCommunity (particles (stContact\<lparr>randomSource := halves\<rparr>) ! 1)"
    using h by simp_all
  have r2: "inRange cfgPlain (stContact\<lparr>randomSource := halves\<rparr>) 0 1"
    using r(1) by (simp add: inRange_def)
  from C5_transmission_attempt [OF h(1-4), of cfgPlain] h(5) r(1) d(1)
  have s: "status (particles (contact cfgPlain 0 1 stContact) ! 1) = Exposed"
    "infectionEvents (contact cfgPlain 0 1 stContact) = [\<lparr>infectorIndex = 0, time = 1\<rparr>]"
    "infectionCountOf (infectedInfectionCounts (contact cfgPlain 0 1 stContact)) 0 = 1"
    by (simp_all add: c infectionCountOf_def)
  have s3: "infectedInfectionCounts (contact cfgPlain 0 1 stContact) 0 = Some 1"
    by (simp add: contact_def stContact_def source_def neighbour_def newParticle_def cfgPlain_def
        random_zeros Let_def infectionCountOf_def)
  from C5_transmission_attempt [OF h(1) h2, of cfgPlain] h(5) r2 d(2)
  have f: "contact cfgPlain 0 1 (stContact\<lparr>randomSource := halves\<rparr>) = stContact\<lparr>randomSource := halves\<rparr>"
    by (simp add: random_halves)
  from C5_transmission_attempt [OF h(1-4), of "cfgPlain\<lparr>infectionRadius := 5\<rparr>"] r(2)
  have n: "contact (cfgPlain\<lparr>infectionRadius := 5\<rparr>) 0 1 stContact = stContact"
    by simp
  from h r d s s3 f n show ?thesis by simp
qed

section \<open>The motion loop does not look at death\<close>













text \<open>The quarantine logic asks whether the agent is Recovered or Dead, not which.\<close>

lemma initTimeSinceInfected_dead:
  "initTimeSinceInfected (p\<lparr>status := Dead\<rparr>) = (initTimeSinceInfected (p\<lparr>status := Recovered\<rparr>))\<lparr>status := Dead\<rparr>"
  by (simp add: initTimeSinceInfected_def)






section \<open>A confined Infected agent\<close>

lemma moveParticle_confined:
  assumes "confinedInfected p" "moveParticle cfg p g = Inr (p', g')"
  shows "confinedInfected p' \<and> timeInfected p' = timeInfected p \<and> willDie p' = willDie p"
proof -
  from assms(2) obtain p1 g1 where ql: "quarantineLogic cfg p g = Inr (p1, g1)"
    by (auto simp: moveParticle_def split: sum.splits)
  have c1: "confinedInfected p1 \<and> timeInfected p1 = timeInfected p \<and> willDie p1 = willDie p"
  proof (cases "quarantineMode cfg")
    case False
    with ql assms(1) show ?thesis by (simp add: quarantineLogic_def)
  next
    case True
    let ?a = "initTimeSinceInfected p"
    have a: "confinedInfected ?a \<and> timeInfected ?a = timeInfected p \<and> willDie ?a = willDie p"
      using assms(1) by (simp add: initTimeSinceInfected_def confinedInfected_def)
    obtain b gb where d: "drawEligibility cfg ?a g = (b, gb)"
      by (cases "drawEligibility cfg ?a g")
    then have b: "confinedInfected b \<and> timeInfected b = timeInfected p \<and> willDie b = willDie p"
      using a by (auto simp: drawEligibility_def confinedInfected_def split: if_splits prod.splits)
    then have s: "startQuarantine b gb = Inr (b, gb)"
      by (simp add: startQuarantine_def confinedInfected_def)
    let ?c = "countQuarantineTime b"
    have c: "confinedInfected ?c \<and> timeInfected ?c = timeInfected p \<and> willDie ?c = willDie p"
      using b by (simp add: countQuarantineTime_def confinedInfected_def)
    then have r: "releaseFromQuarantine ?c gb = Inr (?c, gb)"
      by (simp add: releaseFromQuarantine_def confinedInfected_def)
    from True ql d s r have "p1 = ?c" by (simp add: quarantineLogic_def)
    with c show ?thesis by simp
  qed
  then have "moveParticle cfg p g = Inr (p1, g1)"
    using ql by (simp add: moveParticle_def confinedInfected_def entryAnimating_def homeAnimating_def)
  with assms(2) c1 show ?thesis by simp
qed

lemma progressed_confined:
  assumes "confinedInfected p" "progressed p p'"
  shows "p' = p"
  using assms unfolding progressed_def confinedInfected_def by auto

lemma exposedStep_confined: "confinedInfected p \<Longrightarrow> exposedStep cfg p = p"
  by (simp add: exposedStep_def confinedInfected_def)

lemma ticked_confined:
  assumes "ticked cfg p p'" "confinedInfected p"
  shows "confinedInfected p' \<and> timeInfected p' = timeInfected p \<and> willDie p' = willDie p"
proof -
  from assms(1) obtain g0 g1 p1 p2 where m: "moveParticle cfg p g0 = Inr (p1, g1)"
    and pr: "progressed p1 p2" and e: "p' = exposedStep cfg p2"
    unfolding ticked_def by blast
  from moveParticle_confined [OF assms(2) m]
  have c: "confinedInfected p1 \<and> timeInfected p1 = timeInfected p \<and> willDie p1 = willDie p" .
  with pr have "p2 = p1" by (simp add: progressed_confined)
  with c e show ?thesis by (simp add: exposedStep_confined)
qed

text \<open>
  However many ticks pass, and whatever the configuration, a confined Infected agent stays
  Infected and confined, and its \<open>timeInfected\<close> does not advance.
\<close>

lemma confined_forever:
  "later st st' \<Longrightarrow> i < length (particles st) \<Longrightarrow> confinedInfected (particles st ! i) \<Longrightarrow>
     confinedInfected (particles st' ! i)
     \<and> timeInfected (particles st' ! i) = timeInfected (particles st ! i)"
proof (induction rule: later.induct)
  case (now st)
  then show ?case by simp
next
  case (after st st' cfg st'')
  from after.prems later_length [OF after.hyps(1)] have "i < length (particles st')" by simp
  with tick_ticked [OF after.hyps(2)] have "ticked cfg (particles st' ! i) (particles st'' ! i)"
    by (simp add: list_all2_conv_all_nth)
  with after.IH [OF after.prems] show ?case by (auto dest: ticked_confined)
qed

text \<open>
  C1: the claim holds of the intended behaviour and fails on the code. The agent
  \<open>confined\<close> is Infected, \<open>will_die\<close> is false, and it has been Infected for 40 ticks; a
  tick should raise \<open>timeInfected\<close> to 41. The tick leaves it at 40: the loop that advances
  the episode skips every agent with the flag \<open>quarantined\<close>, and runs over the
  communities 0 to 7 only. (An Infected agent that is not quarantined and is in a normal
  community does make its step in every tick: lemma \<open>infectionLogic_episode\<close>.)
\<close>

theorem C1_confined_agent_not_progressed:
  "status confined = Infected \<and> timeInfected confined = 40
   \<and> tick cfgQ stConfined
       = Inr (stConfined\<lparr>particles := [confined\<lparr>timeSinceInfected := Some 41\<rparr>], timeRef := 101\<rparr>)
   \<and> timeInfected (confined\<lparr>timeSinceInfected := Some 41\<rparr>) = 40"
proof -
  have m: "forEach (moveParticle cfgQ) (particles stConfined) (randomSource stConfined)
      = Inr ([confined\<lparr>timeSinceInfected := Some 41\<rparr>], zeros)"
    by (simp add: stConfined_def confined_def newParticle_def moveParticle_def quarantineLogic_def
        cfgQ_def initTimeSinceInfected_def drawEligibility_def startQuarantine_def
        countQuarantineTime_def releaseFromQuarantine_def entryAnimating_def homeAnimating_def)
  have i: "infectionLogic cfgQ
        (stConfined\<lparr>timeRef := timeRef stConfined + 1,
           particles := [confined\<lparr>timeSinceInfected := Some 41\<rparr>], randomSource := zeros\<rparr>)
      = stConfined\<lparr>particles := [confined\<lparr>timeSinceInfected := Some 41\<rparr>], timeRef := 101\<rparr>"
    by (simp add: Let_def infectionLogic_def layout_defs upto.simps stConfined_def confined_def
       communityPass_def makeSpatialHash_def infectParticle_def progressOrSpread_def hashStep_def newParticle_def)
  show ?thesis
    unfolding tick_unfold [OF m i]
    by (simp add: stConfined_def exposedStep_def confined_def newParticle_def)
qed

section \<open>The infection logic does not look at the entry animation\<close>

lemma eraseEntry_fields [simp]:
  "status (eraseEntry p) = status p" "currentCommunity (eraseEntry p) = currentCommunity p"
  "quarantined (eraseEntry p) = quarantined p" "atCentre (eraseEntry p) = atCentre p"
  "x (eraseEntry p) = x p" "y (eraseEntry p) = y p" "willDie (eraseEntry p) = willDie p"
  "timeInfected (eraseEntry p) = timeInfected p"
  by (simp_all add: eraseEntry_def)

lemma eraseEntry_update:
  "eraseEntry (p\<lparr>status := s\<rparr>) = (eraseEntry p)\<lparr>status := s\<rparr>"
  "eraseEntry (p\<lparr>timeInfected := t\<rparr>) = (eraseEntry p)\<lparr>timeInfected := t\<rparr>"
  "eraseEntry (p\<lparr>willDie := w\<rparr>) = (eraseEntry p)\<lparr>willDie := w\<rparr>"
  "eraseEntry (p\<lparr>infectionCount := c\<rparr>) = (eraseEntry p)\<lparr>infectionCount := c\<rparr>"
  by (simp_all add: eraseEntry_def)

lemma eraseAll_fields [simp]:
  "particles (eraseAll st) = map eraseEntry (particles st)"
  "timeRef (eraseAll st) = timeRef st" "infectionEvents (eraseAll st) = infectionEvents st"
  "infectedInfectionCounts (eraseAll st) = infectedInfectionCounts st"
  "randomSource (eraseAll st) = randomSource st"
  by (simp_all add: eraseAll_def)

lemma makeSpatialHash_erase:
  "makeSpatialHash (map eraseEntry ps) cs only = makeSpatialHash ps cs only"
proof
  fix k
  have "filter (\<lambda>i. indexed (map eraseEntry ps) only i \<and> cellKey (map eraseEntry ps) cs i = k) [0..<length ps]
      = filter (\<lambda>i. indexed ps only i \<and> cellKey ps cs i = k) [0..<length ps]"
    by (rule filter_cong [OF refl]) (simp add: indexed_def cellKey_def split: option.splits)
  then show "makeSpatialHash (map eraseEntry ps) cs only k = makeSpatialHash ps cs only k"
    by (simp add: makeSpatialHash_bucket)
qed

lemma makeSpatialHash_indices:
  "makeSpatialHash ps cs only k = Some l \<Longrightarrow> j \<in> set l \<Longrightarrow> j < length ps"
  by (auto simp: makeSpatialHash_bucket Let_def split: if_splits)

lemma fold_erase:
  assumes "\<And>a s. a \<in> set as \<Longrightarrow> length (particles s) = n \<Longrightarrow> f a (eraseAll s) = eraseAll (f a s)"
    and "\<And>a s. length (particles (f a s)) = length (particles s)"
  shows "length (particles s) = n \<Longrightarrow> fold f as (eraseAll s) = eraseAll (fold f as s)"
  using assms(1)
proof (induction as arbitrary: s)
  case Nil
  show ?case by simp
next
  case (Cons a as)
  have "f a (eraseAll s) = eraseAll (f a s)" using Cons.prems by simp
  moreover have "length (particles (f a s)) = n" using Cons.prems(1) assms(2) by simp
  ultimately show ?case using Cons.IH [of "f a s"] Cons.prems(2) by simp
qed

lemma contact_length: "length (particles (contact cfg i j st)) = length (particles st)"
  using contact_progressed [of st cfg i j] by (rule progressedAll_length)

lemma contact_erase:
  assumes "i < length (particles st)" "j < length (particles st)"
  shows "contact cfg i j (eraseAll st) = eraseAll (contact cfg i j st)"
  using assms
  by (simp add: contact_def Let_def eraseAll_def map_update eraseEntry_update
      split: prod.splits)

lemma contacts_erase:
  assumes "i < length (particles st)" "\<forall>j \<in> set js. j < length (particles st)"
  shows "fold (contact cfg i) js (eraseAll st) = eraseAll (fold (contact cfg i) js st)"
proof (rule fold_erase [where n = "length (particles st)"])
  fix a and s :: Sim assume "a \<in> set js" "length (particles s) = length (particles st)"
  with assms show "contact cfg i a (eraseAll s) = eraseAll (contact cfg i a s)"
    by (simp add: contact_erase)
qed (simp_all add: contact_length)

lemma cellContacts_length:
  "length (particles (cellContacts cfg c hash i cell st)) = length (particles st)"
  using cellContacts_progressed [of st cfg c hash i cell] by (rule progressedAll_length)

lemma cellContacts_erase:
  assumes "i < length (particles st)" "hashWithin hash (length (particles st))"
  shows "cellContacts cfg c hash i cell (eraseAll st) = eraseAll (cellContacts cfg c hash i cell st)"
proof (cases cell)
  case (Pair nx ny)
  show ?thesis
  proof (cases "hash (hashKey c (Finite nx) (Finite ny))")
    case None
    with Pair show ?thesis by (simp add: cellContacts_def)
  next
    case (Some js)
    with assms(2) have "\<forall>j \<in> set js. j < length (particles st)" by (auto simp: hashWithin_def)
    from contacts_erase [OF assms(1) this] Pair Some show ?thesis by (simp add: cellContacts_def)
  qed
qed

lemma drawWillDie_erase:
  assumes "i < length (particles st)"
  shows "drawWillDie cfg i (eraseAll st) = eraseAll (drawWillDie cfg i st)"
  using assms
  by (simp add: drawWillDie_def Let_def eraseAll_def map_update eraseEntry_update split: prod.splits)

lemma drawWillDie_length: "length (particles (drawWillDie cfg i st)) = length (particles st)"
  by (simp add: drawWillDie_def Let_def split: prod.splits)

lemma infectParticle_length:
  "length (particles (infectParticle cfg c hash i st)) = length (particles st)"
  using infectParticle_progressed [of st cfg c hash i] by (rule progressedAll_length)

lemma progressOrSpread_erase:
  assumes i: "i < length (particles st)" and h: "hashWithin hash (length (particles st))"
  shows "progressOrSpread cfg c hash i (eraseAll st) = eraseAll (progressOrSpread cfg c hash i st)"
proof -
  have cells: "fold (cellContacts cfg c hash i) cs (eraseAll st)
      = eraseAll (fold (cellContacts cfg c hash i) cs st)" for cs
  proof (rule fold_erase [where n = "length (particles st)"])
    fix a and s :: Sim assume "length (particles s) = length (particles st)"
    with i h show "cellContacts cfg c hash i a (eraseAll s) = eraseAll (cellContacts cfg c hash i a s)"
      by (simp add: cellContacts_erase)
  qed (simp_all add: cellContacts_length)
  have fin: "(eraseAll st)\<lparr>particles := (map eraseEntry (particles st))[i := (eraseEntry (particles st ! i))\<lparr>status := s\<rparr>],
        infectedInfectionCounts := m\<rparr>
      = eraseAll (st\<lparr>particles := (particles st)[i := (particles st ! i)\<lparr>status := s\<rparr>],
        infectedInfectionCounts := m\<rparr>)" for s m
    by (simp add: eraseAll_def map_update eraseEntry_update)
  show ?thesis
    using i by (simp add: progressOrSpread_def Let_def cells fin)
qed

lemma infectParticle_erase:
  assumes i: "i < length (particles st)" and h: "hashWithin hash (length (particles st))"
  shows "infectParticle cfg c hash i (eraseAll st) = eraseAll (infectParticle cfg c hash i st)"
proof (cases "currentCommunity (particles st ! i) \<noteq> c \<or> quarantined (particles st ! i)
    \<or> status (particles st ! i) \<noteq> Infected")
  case True
  with i show ?thesis by (simp add: infectParticle_def Let_def)
next
  case False
  let ?q = "particles st ! i"
  let ?st1 = "st\<lparr>particles := (particles st)[i := ?q\<lparr>timeInfected := timeInfected ?q + 1\<rparr>]\<rparr>"
  let ?st2 = "drawWillDie cfg i ?st1"
  have e1: "(eraseAll st)\<lparr>particles := (map eraseEntry (particles st))
        [i := (eraseEntry ?q)\<lparr>timeInfected := timeInfected ?q + 1\<rparr>]\<rparr>
      = eraseAll ?st1"
    by (simp add: eraseAll_def map_update eraseEntry_update)
  have i1: "i < length (particles ?st1)" using i by simp
  have e2: "drawWillDie cfg i (eraseAll ?st1) = eraseAll ?st2"
    using i1 by (rule drawWillDie_erase)
  have l2: "length (particles ?st2) = length (particles st)" by (simp add: drawWillDie_length)
  have e3: "progressOrSpread cfg c hash i (eraseAll ?st2) = eraseAll (progressOrSpread cfg c hash i ?st2)"
    by (rule progressOrSpread_erase) (simp_all only: l2 i h)
  from False i show ?thesis
    by (simp add: infectParticle_def Let_def e1 e2 e3)
qed

lemma communityPass_length:
  "length (particles (communityPass cfg c st)) = length (particles st)"
  using communityPass_progressed [of st cfg c] by (rule progressedAll_length)

lemma communityPass_erase: "communityPass cfg c (eraseAll st) = eraseAll (communityPass cfg c st)"
proof -
  let ?hash = "makeSpatialHash (particles st) (real (infectionRadius cfg) + 3) (Some c)"
  have h: "hashWithin ?hash (length (particles st))"
    unfolding hashWithin_def using makeSpatialHash_indices by blast
  have "fold (infectParticle cfg c ?hash) [0..<length (particles st)] (eraseAll st)
      = eraseAll (fold (infectParticle cfg c ?hash) [0..<length (particles st)] st)"
  proof (rule fold_erase [where n = "length (particles st)"])
    fix a and s :: Sim
    assume "a \<in> set [0..<length (particles st)]" "length (particles s) = length (particles st)"
    with h show "infectParticle cfg c ?hash a (eraseAll s) = eraseAll (infectParticle cfg c ?hash a s)"
      by (simp add: infectParticle_erase)
  qed (simp_all add: infectParticle_length)
  then show ?thesis
    by (simp add: communityPass_def Let_def makeSpatialHash_erase)
qed

lemma infectionLogic_erase: "infectionLogic cfg (eraseAll st) = eraseAll (infectionLogic cfg st)"
  unfolding infectionLogic_def
  by (rule fold_erase [where n = "length (particles st)"])
    (simp_all add: communityPass_erase communityPass_length)

section \<open>An agent on its way to quarantine is a source\<close>

lemma contact_source: "particles (contact cfg i j st) ! i = particles st ! i"
  by (simp add: contact_def Let_def split: prod.splits)

lemma contacts_source: "particles (fold (contact cfg i) js st) ! i = particles st ! i"
  by (induction js arbitrary: st) (simp_all add: contact_source)

lemma cellContacts_source: "particles (cellContacts cfg c hash i cell st) ! i = particles st ! i"
  by (simp add: cellContacts_def contacts_source split: prod.splits option.splits)

lemma cells_source: "particles (fold (cellContacts cfg c hash i) cs st) ! i = particles st ! i"
  by (induction cs arbitrary: st) (simp_all add: cellContacts_source)

lemma progressOrSpread_source:
  assumes "i < length (particles st)"
  shows "timeInfected (particles (progressOrSpread cfg c hash i st) ! i) = timeInfected (particles st ! i)
     \<and> quarantineEntryAnim (particles (progressOrSpread cfg c hash i st) ! i)
         = quarantineEntryAnim (particles st ! i)"
  using assms by (simp add: progressOrSpread_def Let_def cells_source)

lemma drawWillDie_source:
  assumes "i < length (particles st)"
  shows "timeInfected (particles (drawWillDie cfg i st) ! i) = timeInfected (particles st ! i)
     \<and> quarantineEntryAnim (particles (drawWillDie cfg i st) ! i) = quarantineEntryAnim (particles st ! i)"
  using assms by (simp add: drawWillDie_def Let_def split: prod.splits)

lemma infectParticle_source:
  assumes "i < length (particles st)" "status (particles st ! i) = Infected"
    "\<not> quarantined (particles st ! i)" "currentCommunity (particles st ! i) = c"
  shows "timeInfected (particles (infectParticle cfg c hash i st) ! i) = timeInfected (particles st ! i) + 1
     \<and> quarantineEntryAnim (particles (infectParticle cfg c hash i st) ! i)
         = quarantineEntryAnim (particles st ! i)"
proof -
  let ?q = "particles st ! i"
  let ?st1 = "st\<lparr>particles := (particles st)[i := ?q\<lparr>timeInfected := timeInfected ?q + 1\<rparr>]\<rparr>"
  let ?st2 = "drawWillDie cfg i ?st1"
  have i1: "i < length (particles ?st1)" using assms(1) by simp
  have i2: "i < length (particles ?st2)" using assms(1) by (simp add: drawWillDie_length)
  have "infectParticle cfg c hash i st = progressOrSpread cfg c hash i ?st2"
    using assms by (simp add: infectParticle_def Let_def)
  with progressOrSpread_source [OF i2, of cfg c hash] drawWillDie_source [OF i1, of cfg] assms(1)
  show ?thesis by simp
qed

subsection \<open>A tick in which an agent in transit infects a bystander\<close>

lemma sqrt_378225: "sqrt 378225 = 615"
  by (rule real_sqrt_unique) simp_all

lemma move_flight:
  "forEach (moveParticle cfgQ) (particles stFlight) (randomSource stFlight)
     = Inr (particles stFlightMoved, zeros)"
proof -
  have a: "moveParticle cfgQ (inTransit\<lparr>timeInfected := 1\<rparr>) g
      = Inr (inTransit\<lparr>timeInfected := 1, timeSinceInfected := Some 6, x := 508 / 3, y := 721 / 3\<rparr>, g)" for g
    by (simp add: moveParticle_def quarantineLogic_def cfgQ_def inTransit_def detected_def newParticle_def
      initTimeSinceInfected_def drawEligibility_def startQuarantine_def countQuarantineTime_def
      releaseFromQuarantine_def QUARANTINE_COMMUNITY_IDX_def
      entryAnimating_def animateEntry_def Let_def sqrt_378225)
  have b: "moveParticle cfgQ bystander (half ## half ## half ## half ## g) = Inr (bystander, g)" for g
    by (simp add: bystander_def moveParticle_def quarantineLogic_def cfgQ_def newParticle_def
      initTimeSinceInfected_def drawEligibility_def startQuarantine_def countQuarantineTime_def
      releaseFromQuarantine_def
      entryAnimating_def homeAnimating_def normalBehaviour_def bounds0 gridCell_def
      bounce_def centreEntry_def random_half CENTRE_VISIT_PROB_def brownian_def rand_def
      randomTravel_def TRAVEL_PROB_def visitExpiry_def Let_def)
  show ?thesis by (simp add: stFlight_def stFlightMoved_def a b)
qed

lemma infect_flight:
  "infectionLogic cfgQ stFlightMoved
   = stFlightMoved\<lparr>particles :=
         [inTransit\<lparr>timeInfected := 2, timeSinceInfected := Some 6, x := 508 / 3, y := 721 / 3\<rparr>,
          bystander\<lparr>status := Exposed, timeInfected := 0\<rparr>],
       infectionEvents := [\<lparr>infectorIndex = 0, time = 12\<rparr>],
       infectedInfectionCounts := [0 \<mapsto> 1]\<rparr>"
  by (simp add: Let_def infectionLogic_def layout_defs upto.simps stFlightMoved_def
       inTransit_def detected_def bystander_def
       communityPass_def makeSpatialHash_def infectParticle_def progressOrSpread_def hashStep_def newParticle_def
       drawWillDie_def cfgQ_def floorDiv_def getNearbyCellCoords_def cellContacts_def
       hashKey_def showInt_def digits.simps contact_def random_zeros infectionCountOf_def)

lemma tick_stFlight: "tick cfgQ stFlight = Inr stFlightNext"
proof -
  have i: "infectionLogic cfgQ
        (stFlight\<lparr>timeRef := timeRef stFlight + 1, particles := particles stFlightMoved,
           randomSource := zeros\<rparr>)
      = stFlightMoved\<lparr>particles :=
         [inTransit\<lparr>timeInfected := 2, timeSinceInfected := Some 6, x := 508 / 3, y := 721 / 3\<rparr>,
          bystander\<lparr>status := Exposed, timeInfected := 0\<rparr>],
       infectionEvents := [\<lparr>infectorIndex = 0, time = 12\<rparr>],
       infectedInfectionCounts := [0 \<mapsto> 1]\<rparr>"
    using infect_flight by (simp add: stFlight_def stFlightMoved_def)
  show ?thesis
    unfolding tick_unfold [OF move_flight i]
    by (simp add: stFlightNext_def stFlightMoved_def exposedStep_def inTransit_def detected_def
        bystander_def newParticle_def cfgQ_def)
qed

section \<open>The episode of an agent that is not quarantined\<close>

lemma contact_other:
  "status (particles st ! k) \<noteq> Healthy \<Longrightarrow> particles (contact cfg i j st) ! k = particles st ! k"
  by (cases "j = k") (simp_all add: contact_def Let_def split: prod.splits)

lemma contacts_other:
  "status (particles st ! k) \<noteq> Healthy \<Longrightarrow> particles (fold (contact cfg i) js st) ! k = particles st ! k"
  by (induction js arbitrary: st) (simp_all add: contact_other)

lemma cellContacts_other:
  "status (particles st ! k) \<noteq> Healthy \<Longrightarrow>
     particles (cellContacts cfg c hash i cell st) ! k = particles st ! k"
  by (simp add: cellContacts_def contacts_other split: prod.splits option.splits)

lemma cells_other:
  "status (particles st ! k) \<noteq> Healthy \<Longrightarrow>
     particles (fold (cellContacts cfg c hash i) cs st) ! k = particles st ! k"
  by (induction cs arbitrary: st) (simp_all add: cellContacts_other)

lemma infectParticle_other:
  assumes "i \<noteq> k \<or> currentCommunity (particles st ! k) \<noteq> c" "status (particles st ! k) \<noteq> Healthy"
  shows "particles (infectParticle cfg c hash i st) ! k = particles st ! k"
proof (cases "currentCommunity (particles st ! i) \<noteq> c \<or> quarantined (particles st ! i)
    \<or> status (particles st ! i) \<noteq> Infected")
  case True
  then show ?thesis by (simp add: infectParticle_def Let_def)
next
  case False
  with assms(1) have ik: "i \<noteq> k" by auto
  let ?q = "particles st ! i"
  let ?st1 = "st\<lparr>particles := (particles st)[i := ?q\<lparr>timeInfected := timeInfected ?q + 1\<rparr>]\<rparr>"
  let ?st2 = "drawWillDie cfg i ?st1"
  have k1: "particles ?st1 ! k = particles st ! k" using ik by simp
  have k2: "particles ?st2 ! k = particles ?st1 ! k"
    using ik by (simp add: drawWillDie_def Let_def split: prod.splits)
  have h2: "status (particles ?st2 ! k) \<noteq> Healthy" using k1 k2 assms(2) by simp
  have "particles (progressOrSpread cfg c hash i ?st2) ! k = particles ?st2 ! k"
    using ik cells_other [OF h2] by (simp add: progressOrSpread_def Let_def)
  with False k1 k2 show ?thesis by (simp add: infectParticle_def Let_def)
qed

lemma infectParticles_other:
  assumes "k \<notin> set is \<or> currentCommunity (particles st ! k) \<noteq> c" "status (particles st ! k) \<noteq> Healthy"
  shows "particles (fold (infectParticle cfg c hash) is st) ! k = particles st ! k"
  using assms
proof (induction "is" arbitrary: st)
  case Nil
  show ?case by simp
next
  case (Cons i "is")
  have a: "particles (infectParticle cfg c hash i st) ! k = particles st ! k"
    using Cons.prems by (intro infectParticle_other) auto
  with Cons.prems Cons.IH [of "infectParticle cfg c hash i st"] show ?case by auto
qed

lemma communityPass_other:
  assumes "currentCommunity (particles st ! k) \<noteq> c" "status (particles st ! k) \<noteq> Healthy"
  shows "particles (communityPass cfg c st) ! k = particles st ! k"
  using assms by (simp add: communityPass_def Let_def infectParticles_other)

lemma communityPasses_other:
  assumes "currentCommunity (particles st ! k) \<notin> set cs" "status (particles st ! k) \<noteq> Healthy"
  shows "particles (fold (communityPass cfg) cs st) ! k = particles st ! k"
  using assms
proof (induction cs arbitrary: st)
  case Nil
  show ?case by simp
next
  case (Cons c cs)
  have "particles (communityPass cfg c st) ! k = particles st ! k"
    using Cons.prems by (intro communityPass_other) auto
  with Cons.prems Cons.IH [of "communityPass cfg c st"] show ?case by auto
qed

lemma upt_split: "i < n \<Longrightarrow> [0..<n] = [0..<i] @ i # [Suc i..<n]"
proof -
  assume i: "i < n"
  then have "[0..<i + (n - i)] = [0..<i] @ [i..<i + (n - i)]" by (intro upt_add_eq_append) simp
  with i show ?thesis by (simp add: upt_conv_Cons)
qed

lemma episode_result:
  assumes "timeInfected p2 = timeInfected q + 1" "willDie p2 \<noteq> None"
    "willDie q \<noteq> None \<longrightarrow> willDie p2 = willDie q" "status p2 = Infected"
    "besidesEpisode p2 = besidesEpisode q"
  shows "episodeStep cfg q
     (if willDie p2 = Some True \<and> real_of_int (timeInfected p2) > real_of_int (recoveryTime cfg) / 2
      then p2\<lparr>status := Dead\<rparr>
      else if willDie p2 \<noteq> Some True \<and> timeInfected p2 > recoveryTime cfg
      then p2\<lparr>status := Recovered\<rparr> else p2)"
proof -
  consider (dead) "willDie p2 = Some True \<and> real_of_int (timeInfected p2) > real_of_int (recoveryTime cfg) / 2"
    | (recovered) "\<not> (willDie p2 = Some True \<and> real_of_int (timeInfected p2) > real_of_int (recoveryTime cfg) / 2)"
        "willDie p2 \<noteq> Some True \<and> timeInfected p2 > recoveryTime cfg"
    | (infected) "\<not> (willDie p2 = Some True \<and> real_of_int (timeInfected p2) > real_of_int (recoveryTime cfg) / 2)"
        "\<not> (willDie p2 \<noteq> Some True \<and> timeInfected p2 > recoveryTime cfg)"
    by blast
  then show ?thesis
  proof cases
    case dead
    with assms show ?thesis unfolding episodeStep_def by auto
  next
    case recovered
    with assms show ?thesis unfolding episodeStep_def by auto
  next
    case infected
    with assms show ?thesis unfolding episodeStep_def by auto
  qed
qed

lemma infectParticle_episode:
  assumes i: "i < length (particles st)" and inf: "status (particles st ! i) = Infected"
    and nq: "\<not> quarantined (particles st ! i)" and cc: "currentCommunity (particles st ! i) = c"
  shows "episodeStep cfg (particles st ! i) (particles (infectParticle cfg c hash i st) ! i)"
proof -
  let ?q = "particles st ! i"
  let ?p1 = "?q\<lparr>timeInfected := timeInfected ?q + 1\<rparr>"
  let ?st1 = "st\<lparr>particles := (particles st)[i := ?p1]\<rparr>"
  let ?st2 = "drawWillDie cfg i ?st1"
  let ?p2 = "particles ?st2 ! i"
  obtain u g where r: "random (randomSource st) = (u, g)" by (cases "random (randomSource st)")
  have p2: "?p2 = (if willDie ?q = None
                  then ?p1\<lparr>willDie := Some (u < deathRate cfg), infectionCount := Some 0\<rparr> else ?p1)"
    using i r by (simp add: drawWillDie_def Let_def)
  have i2: "i < length (particles ?st2)" using i by (simp add: drawWillDie_length)
  have e: "infectParticle cfg c hash i st = progressOrSpread cfg c hash i ?st2"
    using inf nq cc by (simp add: infectParticle_def Let_def)
  have f: "timeInfected ?p2 = timeInfected ?q + 1" "willDie ?p2 \<noteq> None"
    "willDie ?q \<noteq> None \<longrightarrow> willDie ?p2 = willDie ?q" "status ?p2 = Infected"
    "besidesEpisode ?p2 = besidesEpisode ?q"
    using inf by (auto simp: p2)
  let ?p' = "particles (progressOrSpread cfg c hash i ?st2) ! i"
  have res: "?p' = (if willDie ?p2 = Some True
              \<and> real_of_int (timeInfected ?p2) > real_of_int (recoveryTime cfg) / 2
            then ?p2\<lparr>status := Dead\<rparr>
            else if willDie ?p2 \<noteq> Some True \<and> timeInfected ?p2 > recoveryTime cfg
            then ?p2\<lparr>status := Recovered\<rparr> else ?p2)"
    using i2 by (simp add: progressOrSpread_def Let_def cells_source)
  have "episodeStep cfg ?q ?p'"
    unfolding res using f by (rule episode_result)
  then show ?thesis by (simp only: e)
qed

lemma episodeStep_fields:
  assumes "episodeStep cfg p p'"
  shows "status p' \<noteq> Healthy" "currentCommunity p' = currentCommunity p"
  using assms besidesEpisode_fields(2) [of p' p]
  by (auto simp: episodeStep_def split: if_splits)

lemma communityPass_episode:
  assumes i: "i < length (particles st)" and inf: "status (particles st ! i) = Infected"
    and nq: "\<not> quarantined (particles st ! i)" and cc: "currentCommunity (particles st ! i) = c"
  shows "episodeStep cfg (particles st ! i) (particles (communityPass cfg c st) ! i)"
proof -
  let ?hash = "makeSpatialHash (particles st) (real (infectionRadius cfg) + 3) (Some c)"
  let ?f = "infectParticle cfg c ?hash"
  let ?a = "fold ?f [0..<i] st"
  let ?b = "?f i ?a"
  have split: "[0..<length (particles st)] = [0..<i] @ i # [Suc i..<length (particles st)]"
    using i by (rule upt_split)
  have a: "particles ?a ! i = particles st ! i"
    using inf by (intro infectParticles_other) simp_all
  have la: "length (particles ?a) = length (particles st)"
    using progressedAll_fold [of ?f st "[0..<i]"] infectParticle_progressed
    by (simp add: progressedAll_length)
  have b: "episodeStep cfg (particles ?a ! i) (particles ?b ! i)"
    by (rule infectParticle_episode) (simp_all add: a la i inf nq cc)
  have c: "particles (fold ?f [Suc i..<length (particles st)] ?b) ! i = particles ?b ! i"
    using episodeStep_fields(1) [OF b] by (intro infectParticles_other) simp_all
  have "communityPass cfg c st = fold ?f [Suc i..<length (particles st)] ?b"
    unfolding communityPass_def Let_def by (subst split) simp
  with a b c show ?thesis by simp
qed

text \<open>
  In the infection logic of a tick, an Infected agent that is not quarantined and is in a
  normal community makes exactly one step of its episode, whatever else it is doing.
\<close>

lemma infectionLogic_episode:
  assumes i: "i < length (particles st)" and inf: "status (particles st ! i) = Infected"
    and nq: "\<not> quarantined (particles st ! i)"
    and cc: "0 \<le> currentCommunity (particles st ! i)" "currentCommunity (particles st ! i) \<le> 7"
  shows "episodeStep cfg (particles st ! i) (particles (infectionLogic cfg st) ! i)"
proof -
  let ?c = "currentCommunity (particles st ! i)"
  let ?a = "fold (communityPass cfg) [0..?c - 1] st"
  let ?b = "communityPass cfg ?c ?a"
  have split: "[0..NORMAL_COMMUNITIES - 1] = [0..?c - 1] @ ?c # [?c + 1..7]"
    using cc upto_split3 [of 0 ?c 7] by (simp add: layout_defs)
  have a: "particles ?a ! i = particles st ! i"
    using inf by (intro communityPasses_other) simp_all
  have la: "length (particles ?a) = length (particles st)"
    using progressedAll_fold [of "communityPass cfg" st "[0..?c - 1]"] communityPass_progressed
    by (simp add: progressedAll_length)
  have b: "episodeStep cfg (particles ?a ! i) (particles ?b ! i)"
    by (rule communityPass_episode) (simp_all add: a la i inf nq)
  have c: "particles (fold (communityPass cfg) [?c + 1..7] ?b) ! i = particles ?b ! i"
    using episodeStep_fields [OF b] a by (intro communityPasses_other) simp_all
  have "infectionLogic cfg st = fold (communityPass cfg) [?c + 1..7] ?b"
    unfolding infectionLogic_def by (subst split) simp
  with a b c show ?thesis by simp
qed

text \<open>
  C10: the transmission pass does not look at the entry animation: run on a population
  with the pending entry animations removed, it gives the same statuses, counters, events
  and counts. An Infected agent with the flag \<open>quarantined\<close> unset, in a normal community
  and with a pending entry animation is processed by the pass like every other source: it
  makes its step of the episode and the animation stays pending. Such an agent infects a
  Healthy agent of its origin community (the tick from \<open>stFlight\<close> to \<open>stFlightNext\<close>).
\<close>

theorem C10_transit_agent_is_source:
  "infectionLogic cfg (eraseAll st) = eraseAll (infectionLogic cfg st)
   \<and> (i < length (particles st) \<and> status (particles st ! i) = Infected
        \<and> \<not> quarantined (particles st ! i)
        \<and> 0 \<le> currentCommunity (particles st ! i) \<and> currentCommunity (particles st ! i) \<le> 7
        \<and> quarantineEntryAnim (particles st ! i) = Some a
      \<longrightarrow> episodeStep cfg (particles st ! i) (particles (infectionLogic cfg st) ! i)
          \<and> quarantineEntryAnim (particles (infectionLogic cfg st) ! i) = Some a)
   \<and> tick cfgQ stFlight = Inr stFlightNext"
proof -
  have "episodeStep cfg (particles st ! i) (particles (infectionLogic cfg st) ! i)
          \<and> quarantineEntryAnim (particles (infectionLogic cfg st) ! i) = Some a"
    if h: "i < length (particles st) \<and> status (particles st ! i) = Infected
        \<and> \<not> quarantined (particles st ! i)
        \<and> 0 \<le> currentCommunity (particles st ! i) \<and> currentCommunity (particles st ! i) \<le> 7
        \<and> quarantineEntryAnim (particles st ! i) = Some a"
  proof -
    from h have e: "episodeStep cfg (particles st ! i) (particles (infectionLogic cfg st) ! i)"
      by (intro infectionLogic_episode) simp_all
    then have "besidesEpisode (particles (infectionLogic cfg st) ! i) = besidesEpisode (particles st ! i)"
      by (simp add: episodeStep_def)
    from besidesEpisode_fields(4) [OF this] h e show ?thesis by simp
  qed
  with infectionLogic_erase [of cfg st] tick_stFlight show ?thesis by blast
qed

theorem C10_transit_agent_is_source_witness:
  "quarantineEntryAnim (particles stFlightMoved ! 0)
      = Some \<lparr>animating = True, tx = 1960 / 3, ty = 1810 / 3\<rparr>
   \<and> status (particles stFlightMoved ! 0) = Infected \<and> \<not> quarantined (particles stFlightMoved ! 0)
   \<and> currentCommunity (particles stFlightMoved ! 0) = 0
   \<and> timeInfected (particles stFlightMoved ! 0) = 1
   \<and> timeInfected (particles (infectionLogic cfgQ stFlightMoved) ! 0) = 2
   \<and> status (particles stFlight ! 1) = Healthy
   \<and> status (particles stFlightNext ! 1) = Exposed
   \<and> infectionEvents stFlightNext = [\<lparr>infectorIndex = 0, time = 12\<rparr>]"
proof -
  have h: "0 < length (particles stFlightMoved)" "status (particles stFlightMoved ! 0) = Infected"
    "\<not> quarantined (particles stFlightMoved ! 0)" "currentCommunity (particles stFlightMoved ! 0) = 0"
    "quarantineEntryAnim (particles stFlightMoved ! 0)
      = Some \<lparr>animating = True, tx = 1960 / 3, ty = 1810 / 3\<rparr>"
    "timeInfected (particles stFlightMoved ! 0) = 1"
    by (simp_all add: stFlightMoved_def inTransit_def detected_def newParticle_def)
  from C10_transit_agent_is_source [of cfgQ stFlightMoved 0
      "\<lparr>animating = True, tx = 1960 / 3, ty = 1810 / 3\<rparr>"] h
  have "episodeStep cfgQ (particles stFlightMoved ! 0) (particles (infectionLogic cfgQ stFlightMoved) ! 0)"
    by simp
  then have "timeInfected (particles (infectionLogic cfgQ stFlightMoved) ! 0) = 2"
    using h(6) by (simp add: episodeStep_def)
  with h show ?thesis
    by (simp add: stFlight_def stFlightNext_def bystander_def newParticle_def)
qed

end
